theory Spec2Isabelle
  imports Complex_Main "HOL-Library.Multiset"
begin

section \<open>SpikeMonitorCore: conventions\<close>

text \<open>
  The embedding follows \<^verbatim>\<open>src/carlsim/spike_monitor/spike_monitor_core.cpp\<close>.
  C++ \<^verbatim>\<open>int\<close> and \<^verbatim>\<open>long int\<close> values are mathematical integers; the one
  product the source forms in \<^verbatim>\<open>long int\<close> is checked against the range of the type. A
  \<^verbatim>\<open>float\<close> or \<^verbatim>\<open>double\<close> value is the real number it denotes, and every conversion and
  arithmetic operation rounds as IEEE 754 does (binary32 and binary64, to nearest, ties to
  even), each operation to the type of its converted operands, without excess precision
  or fused multiply-add. Assertions are compiled in (no \<^verbatim>\<open>NDEBUG\<close>), as the
  spec's fatal precondition checks require: an \<^verbatim>\<open>assert\<close> that fails is the value
  \<open>Inl AssertionFailed\<close>; indexing a \<^verbatim>\<open>std::vector\<close> out of range, \<^verbatim>\<open>back()\<close> of an
  empty vector, overflow of a signed product and \<^verbatim>\<open>fwrite\<close> on a null stream are
  \<open>Inl UndefinedBehaviour\<close>; a floating-point division by zero or root of a negative number
  (IEEE infinity or NaN, no real number) is \<open>Inl NonFiniteFloat\<close>.
\<close>

datatype fault = AssertionFailed | UndefinedBehaviour | NonFiniteFloat

section \<open>Binary floating point and machine integers\<close>

text \<open>
  The exponent of a positive real \<open>x\<close>, the integer \<open>e\<close> with \<open>2\<^sup>e \<le> x < 2\<^sup>e\<^sup>+\<^sup>1\<close>, found by halving
  (\<open>expUp\<close>, for \<open>x \<ge> 1\<close>) or doubling (\<open>expDown\<close>, for \<open>x < 1\<close>).
\<close>

function expUp :: "real \<Rightarrow> int" where
  "expUp x = (if 2 \<le> x then expUp (x / 2) + 1 else 0)"
  by pat_completeness auto
termination
proof (relation "measure (\<lambda>x. nat \<lfloor>x\<rfloor>)")
  show "wf (measure (\<lambda>x::real. nat \<lfloor>x\<rfloor>))" by simp
next
  fix x :: real assume a: "2 \<le> x"
  have "\<lfloor>x / 2\<rfloor> < \<lfloor>x\<rfloor>" using a by linarith
  moreover have "0 < \<lfloor>x\<rfloor>" using a by linarith
  ultimately show "(x / 2, x) \<in> measure (\<lambda>x. nat \<lfloor>x\<rfloor>)" by simp
qed

function expDown :: "real \<Rightarrow> int" where
  "expDown x = (if 0 < x \<and> x < 1 then expDown (2 * x) - 1 else 0)"
  by pat_completeness auto
termination
proof (relation "measure (\<lambda>x. nat \<lfloor>1 / x\<rfloor>)")
  show "wf (measure (\<lambda>x::real. nat \<lfloor>1 / x\<rfloor>))" by simp
next
  fix x :: real assume a: "0 < x \<and> x < 1"
  define y where "y = 1 / x"
  have y: "1 < y" using a by (simp add: y_def)
  have e: "\<lfloor>1 / (2 * x)\<rfloor> = \<lfloor>y / 2\<rfloor>" by (simp add: y_def mult.commute)
  have "\<lfloor>y / 2\<rfloor> < \<lfloor>y\<rfloor>"
  proof (cases "2 \<le> y")
    case True
    then show ?thesis by linarith
  next
    case False
    then have "\<lfloor>y / 2\<rfloor> \<le> 0" "1 \<le> \<lfloor>y\<rfloor>" using y by linarith+
    then show ?thesis by linarith
  qed
  moreover have "0 < \<lfloor>y\<rfloor>" using y by linarith
  ultimately have "nat \<lfloor>1 / (2 * x)\<rfloor> < nat \<lfloor>1 / x\<rfloor>"
    unfolding e y_def[symmetric] by linarith
  then show "(2 * x, x) \<in> measure (\<lambda>x. nat \<lfloor>1 / x\<rfloor>)"
    by (simp only: in_measure)
qed

declare expUp.simps [simp del] expDown.simps [simp del]

definition expo :: "real \<Rightarrow> int" where
  "expo x = (if 1 \<le> x then expUp x else expDown x)"

definition pow2 :: "int \<Rightarrow> real" where
  "pow2 k = (if 0 \<le> k then 2 ^ nat k else 1 / 2 ^ nat (- k))"

text \<open>Rounding to the nearest integer, a tie going to the even one.\<close>

definition rne :: "real \<Rightarrow> int" where
  "rne y =
     (let f = \<lfloor>y\<rfloor>; d = y - of_int f
      in if d < 1 / 2 then f else if 1 / 2 < d then f + 1 else if even f then f else f + 1)"

text \<open>
  The spacing of the numbers of precision \<open>p\<close> around a positive \<open>a\<close>: \<open>2\<^sup>e\<^sup>-\<^sup>p\<^sup>+\<^sup>1\<close> for the exponent
  \<open>e\<close> of \<open>a\<close>, and the spacing of the subnormal numbers below \<open>2\<^sup>e\<^sup>m\<^sup>i\<^sup>n\<close>. \<open>roundTo\<close> is the
  nearest number of the format, ties to even. The exponent has no upper bound here: overflow
  to infinity is not modelled. (A rate is at most the largest \<^verbatim>\<open>size_t\<close> times 1000, which
  is far below the largest \<^verbatim>\<open>float\<close>; the sum of squares in \<open>getPopStdFiringRate\<close> can pass it
  only with more than ten to the sixteen spikes of one neuron in a millisecond.)
\<close>

definition quantum :: "nat \<Rightarrow> int \<Rightarrow> real \<Rightarrow> real" where
  "quantum p emin a = pow2 (max (expo a) emin - int p + 1)"

definition roundTo :: "nat \<Rightarrow> int \<Rightarrow> real \<Rightarrow> real" where
  "roundTo p emin x =
     (if x = 0 then 0
      else sgn x * (of_int (rne (\<bar>x\<bar> / quantum p emin \<bar>x\<bar>)) * quantum p emin \<bar>x\<bar>))"

text \<open>binary64 has 53 digits and least normal exponent -1022, binary32 24 and -126.\<close>

definition toDouble :: "real \<Rightarrow> real" where
  "toDouble x = roundTo 53 (- 1022) x"

definition toFloat :: "real \<Rightarrow> real" where
  "toFloat x = roundTo 24 (- 126) x"

text \<open>
  Division in \<^verbatim>\<open>double\<close> and in \<^verbatim>\<open>float\<close>, and the square root stored in a \<^verbatim>\<open>float\<close>.
  Whether the source's \<^verbatim>\<open>sqrt\<close> resolves to the single or to the double precision root, the
  \<^verbatim>\<open>float\<close> it stores is the correctly rounded root: a \<^verbatim>\<open>double\<close> has more than twice the
  digits of a \<^verbatim>\<open>float\<close> plus two, so rounding the root to \<^verbatim>\<open>double\<close> first changes nothing.
\<close>

definition ddiv :: "real \<Rightarrow> real \<Rightarrow> fault + real" where
  "ddiv a b = (if b = 0 then Inl NonFiniteFloat else Inr (toDouble (a / b)))"

definition fdivf :: "real \<Rightarrow> real \<Rightarrow> fault + real" where
  "fdivf a b = (if b = 0 then Inl NonFiniteFloat else Inr (toFloat (a / b)))"

definition fsqrtf :: "real \<Rightarrow> fault + real" where
  "fsqrtf x = (if x < 0 then Inl NonFiniteFloat else Inr (toFloat (sqrt x)))"

text \<open>
  \<^verbatim>\<open>int\<close> has 32 bits and \<^verbatim>\<open>long int\<close> 64 (LP64); where \<^verbatim>\<open>long int\<close> has 32 bits its
  bounds are those of \<^verbatim>\<open>int\<close>, and every statement below that names \<open>LONG_MIN\<close> or
  \<open>LONG_MAX\<close> reads the same. A signed product outside the range of its type is undefined
  behaviour.
\<close>

definition INT_MAX :: int where
  "INT_MAX = 2147483647"

definition LONG_MAX :: int where
  "LONG_MAX = 9223372036854775807"

definition LONG_MIN :: int where
  "LONG_MIN = - 9223372036854775807 - 1"

definition lmul :: "int \<Rightarrow> int \<Rightarrow> fault + int" where
  "lmul a b =
     (if LONG_MIN \<le> a * b \<and> a * b \<le> LONG_MAX then Inr (a * b) else Inl UndefinedBehaviour)"

section \<open>The monitor and what lies outside it\<close>

text \<open>
  Modelled from the spec: the mode enumeration is declared in a header that is not part of
  the sources. The spec names \<open>AER\<close> as the only mode in use and the enumeration as an
  extension point for binned representations; \<open>Binned\<close> stands for any such other mode.
\<close>

datatype spikeMonMode = AER | Binned

record monitor =
  nNeurons :: int
  spikeFileId :: "nat option"
  recordSet :: bool
  mode :: spikeMonMode
  persistentData :: bool
  needToWriteFileHeader :: bool
  spikeFileSignature :: int
  spikeFileVersion :: real
  spkVector :: "int list list"
  startTime :: int
  startTimeLast :: int
  stopTime :: int
  accumTime :: int
  totalTime :: int
  needToCalculateFiringRates :: bool
  needToSortFiringRates :: bool
  firingRates :: "real list"
  firingRatesSorted :: "real list"

text \<open>
  The members keep their names, without the trailing underscore. Those that no method
  below reads (the simulation pointer, the group and monitor ids, the time of the last
  update and the log file pointers) are left out, as are the destructor and \<^verbatim>\<open>print\<close>,
  which only formats what the queries return.

  What lies outside the object: the contents of every output stream (a \<^verbatim>\<open>FILE*\<close> is a
  stream number, \<open>None\<close> the null pointer), the streams on which a write currently fails,
  and the diagnostic log.
\<close>

datatype fileEntry = IntEntry int | FloatEntry real

datatype severity = LogError | LogWarn

record world =
  fileData :: "nat \<Rightarrow> fileEntry list"
  writeFails :: "nat \<Rightarrow> bool"
  diag :: "(severity \<times> string) list"

text \<open>
  Modelled from the spec: the macros \<^verbatim>\<open>CARLSIM_ERROR\<close> and \<^verbatim>\<open>CARLSIM_WARN\<close> are defined
  in a header that is not part of the sources; the spec has them report to the diagnostic
  sink with a severity, without effect on the state of the subsystem.
\<close>

definition CARLSIM_ERROR :: "string \<Rightarrow> world \<Rightarrow> world" where
  "CARLSIM_ERROR msg w = w\<lparr>diag := diag w @ [(LogError, msg)]\<rparr>"

definition CARLSIM_WARN :: "string \<Rightarrow> world \<Rightarrow> world" where
  "CARLSIM_WARN msg w = w\<lparr>diag := diag w @ [(LogWarn, msg)]\<rparr>"

text \<open>
  \<^verbatim>\<open>fwrite(&x, size, 1, f)\<close>: one item is appended to the stream and \<open>True\<close> (a non-zero
  count) is returned, or nothing is appended and \<open>False\<close> is returned.
\<close>

definition fwrite :: "fileEntry \<Rightarrow> nat option \<Rightarrow> world \<Rightarrow> fault + (bool \<times> world)" where
  "fwrite x f w =
     (case f of
        None \<Rightarrow> Inl UndefinedBehaviour
      | Some k \<Rightarrow>
          if writeFails w k then Inr (False, w)
          else Inr (True, w\<lparr>fileData := (fileData w)(k := fileData w k @ [x])\<rparr>))"

text \<open>
  Modelled from the spec: the accessors \<^verbatim>\<open>isRecording()\<close>, \<^verbatim>\<open>getMode()\<close> and
  \<^verbatim>\<open>getRecordingTotalTime()\<close> are defined in the class header, which is not part of the
  sources; each returns the field the spec names (\<open>recording\<close>, \<open>eventMode\<close>, \<open>totalTime\<close>).
\<close>

definition isRecording :: "monitor \<Rightarrow> bool" where
  "isRecording m = recordSet m"

definition getMode :: "monitor \<Rightarrow> spikeMonMode" where
  "getMode m = mode m"

definition getRecordingTotalTime :: "monitor \<Rightarrow> int" where
  "getRecordingTotalTime m = totalTime m"

section \<open>clear\<close>

text \<open>The loop \<^verbatim>\<open>for (i=0; i<nNeurons_; i++) spkVector_[i].clear()\<close> over its indices.\<close>

fun clearLoop :: "nat list \<Rightarrow> int list list \<Rightarrow> fault + int list list" where
  "clearLoop [] v = Inr v"
| "clearLoop (i # is) v =
     (if i < length v then clearLoop is (v[i := []]) else Inl UndefinedBehaviour)"

definition clear :: "monitor \<Rightarrow> fault + monitor" where
  "clear m =
     (if isRecording m then Inl AssertionFailed
      else
        case clearLoop [0..<nat (nNeurons m)] (spkVector m) of
          Inl e \<Rightarrow> Inl e
        | Inr v \<Rightarrow>
            Inr (m\<lparr>recordSet := False,
                   startTime := -1,
                   startTimeLast := -1,
                   stopTime := -1,
                   accumTime := 0,
                   totalTime := -1,
                   spkVector := v,
                   needToCalculateFiringRates := True,
                   needToSortFiringRates := True,
                   firingRates := replicate (nat (nNeurons m)) 0,
                   firingRatesSorted := replicate (nat (nNeurons m)) 0\<rparr>))"

text \<open>
  The constructor followed by \<^verbatim>\<open>init()\<close>; \<open>n\<close> is the group size the simulation
  reports. The fields that the constructor leaves uninitialised are all assigned by
  \<open>clear\<close> before anything reads them.
\<close>

definition init :: "int \<Rightarrow> fault + monitor" where
  "init n =
     (if \<not> n > 0 then Inl AssertionFailed
      else
        clear \<lparr>nNeurons = n,
               spikeFileId = None,
               recordSet = False,
               mode = AER,
               persistentData = False,
               needToWriteFileHeader = True,
               spikeFileSignature = 206661989,
               spikeFileVersion = 1,
               spkVector = replicate (nat n) [],
               startTime = -1,
               startTimeLast = -1,
               stopTime = -1,
               accumTime = 0,
               totalTime = -1,
               needToCalculateFiringRates = True,
               needToSortFiringRates = True,
               firingRates = [],
               firingRatesSorted = []\<rparr>)"

section \<open>Spike counts and the population mean\<close>

definition getNeuronNumSpikes :: "int \<Rightarrow> monitor \<Rightarrow> fault + int" where
  "getNeuronNumSpikes neurId m =
     (if isRecording m then Inl AssertionFailed
      else if \<not> (neurId \<ge> 0 \<and> neurId < nNeurons m) then Inl AssertionFailed
      else if getMode m \<noteq> AER then Inl AssertionFailed
      else if \<not> nat neurId < length (spkVector m) then Inl UndefinedBehaviour
      else Inr (int (length (spkVector m ! nat neurId))))"

text \<open>The loop \<^verbatim>\<open>nSpk += getNeuronNumSpikes(i)\<close> over its indices, \<open>nSpk\<close> the accumulator.\<close>

fun popLoop :: "nat list \<Rightarrow> monitor \<Rightarrow> int \<Rightarrow> fault + int" where
  "popLoop [] m nSpk = Inr nSpk"
| "popLoop (i # is) m nSpk =
     (case getNeuronNumSpikes (int i) m of
        Inl e \<Rightarrow> Inl e
      | Inr c \<Rightarrow> popLoop is m (nSpk + c))"

definition getPopNumSpikes :: "monitor \<Rightarrow> fault + int" where
  "getPopNumSpikes m =
     (if isRecording m then Inl AssertionFailed
      else popLoop [0..<nat (nNeurons m)] m 0)"

text \<open>
  \<^verbatim>\<open>getPopNumSpikes()*1000.0/(getRecordingTotalTime()*nNeurons_)\<close>: the count is converted to
  \<^verbatim>\<open>double\<close> and multiplied by the \<^verbatim>\<open>double\<close> 1000, the divisor is a product in \<^verbatim>\<open>long int\<close>
  converted to \<^verbatim>\<open>double\<close>, and the \<^verbatim>\<open>double\<close> quotient is narrowed to the \<^verbatim>\<open>float\<close> returned.
\<close>

definition getPopMeanFiringRate :: "monitor \<Rightarrow> fault + real" where
  "getPopMeanFiringRate m =
     (if isRecording m then Inl AssertionFailed
      else if totalTime m = 0 then Inr 0
      else
        case getPopNumSpikes m of
          Inl e \<Rightarrow> Inl e
        | Inr nSpk \<Rightarrow>
            (case lmul (getRecordingTotalTime m) (nNeurons m) of
               Inl e \<Rightarrow> Inl e
             | Inr d \<Rightarrow>
                 (case ddiv (toDouble (toDouble (of_int nSpk) * 1000)) (toDouble (of_int d)) of
                    Inl e \<Rightarrow> Inl e
                  | Inr q \<Rightarrow> Inr (toFloat q))))"

definition getNeuronMeanFiringRate :: "int \<Rightarrow> monitor \<Rightarrow> fault + real" where
  "getNeuronMeanFiringRate neurId m =
     (if isRecording m then Inl AssertionFailed
      else if \<not> (neurId \<ge> 0 \<and> neurId < nNeurons m) then Inl AssertionFailed
      else
        case getNeuronNumSpikes neurId m of
          Inl e \<Rightarrow> Inl e
        | Inr c \<Rightarrow>
            (case ddiv (toDouble (toDouble (of_int c) * 1000))
                    (toDouble (of_int (getRecordingTotalTime m))) of
               Inl e \<Rightarrow> Inl e
             | Inr q \<Rightarrow> Inr (toFloat q)))"

definition getSpikeVector2D :: "monitor \<Rightarrow> fault + int list list" where
  "getSpikeVector2D m =
     (if isRecording m then Inl AssertionFailed
      else if mode m \<noteq> AER then Inl AssertionFailed
      else Inr (spkVector m))"

section \<open>The rate caches\<close>

text \<open>
  The loop \<^verbatim>\<open>firingRates_[i] = spkVector_[i].size()*1000.0/totalTime_\<close> over its indices;
  it runs after \<^verbatim>\<open>assert(totalTime_>0)\<close>. The size and the time are converted to
  \<^verbatim>\<open>double\<close>, the product and the quotient are formed in \<^verbatim>\<open>double\<close>, and the quotient is
  narrowed to the \<^verbatim>\<open>float\<close> element it is stored in.
\<close>

fun rateLoop :: "nat list \<Rightarrow> int list list \<Rightarrow> int \<Rightarrow> real list \<Rightarrow> fault + real list" where
  "rateLoop [] v t fr = Inr fr"
| "rateLoop (i # is) v t fr =
     (if i < length v \<and> i < length fr
      then
        (case ddiv (toDouble (toDouble (real (length (v ! i))) * 1000)) (toDouble (of_int t)) of
           Inl e \<Rightarrow> Inl e
         | Inr q \<Rightarrow> rateLoop is v t (fr[i := toFloat q]))
      else Inl UndefinedBehaviour)"

definition calculateFiringRates :: "monitor \<Rightarrow> world \<Rightarrow> fault + (monitor \<times> world)" where
  "calculateFiringRates m w =
       (if \<not> needToCalculateFiringRates m then Inr (m, w)
        else if getMode m \<noteq> AER then Inl AssertionFailed
        else
          let m1 = m\<lparr>firingRates := replicate (nat (nNeurons m)) 0,
                     firingRatesSorted := replicate (nat (nNeurons m)) 0\<rparr>
          in
            if totalTime m1 = 0
            then Inr (m1, CARLSIM_WARN ''SpikeMonitorCore: calculateFiringRates has 0 totalTime'' w)
            else if \<not> totalTime m1 > 0 then Inl AssertionFailed
            else
              case rateLoop [0..<nat (nNeurons m1)] (spkVector m1) (totalTime m1) (firingRates m1) of
                Inl e \<Rightarrow> Inl e
              | Inr fr \<Rightarrow>
                  Inr (m1\<lparr>firingRates := fr, needToCalculateFiringRates := False\<rparr>, w))"

text \<open>\<^verbatim>\<open>std::sort\<close> on values without NaN returns the ascending rearrangement, as \<open>sort\<close> does.\<close>

definition sortFiringRates :: "monitor \<Rightarrow> world \<Rightarrow> fault + (monitor \<times> world)" where
  "sortFiringRates m w =
       (if \<not> needToSortFiringRates m then Inr (m, w)
        else
          case calculateFiringRates m w of
            Inl e \<Rightarrow> Inl e
          | Inr (m1, w1) \<Rightarrow>
              Inr (m1\<lparr>firingRatesSorted := sort (firingRates m1),
                       needToSortFiringRates := False\<rparr>, w1))"

definition getAllFiringRates :: "monitor \<Rightarrow> world \<Rightarrow> fault + (real list \<times> monitor \<times> world)" where
  "getAllFiringRates m w =
       (if isRecording m then Inl AssertionFailed
        else
          case calculateFiringRates m w of
            Inl e \<Rightarrow> Inl e
          | Inr (m1, w1) \<Rightarrow> Inr (firingRates m1, m1, w1))"

definition getAllFiringRatesSorted :: "monitor \<Rightarrow> world \<Rightarrow> fault + (real list \<times> monitor \<times> world)" where
  "getAllFiringRatesSorted m w =
       (if isRecording m then Inl AssertionFailed
        else
          case sortFiringRates m w of
            Inl e \<Rightarrow> Inl e
          | Inr (m1, w1) \<Rightarrow> Inr (firingRatesSorted m1, m1, w1))"

definition getMaxFiringRate :: "monitor \<Rightarrow> world \<Rightarrow> fault + (real \<times> monitor \<times> world)" where
  "getMaxFiringRate m w =
       (if isRecording m then Inl AssertionFailed
        else
          case getAllFiringRatesSorted m w of
            Inl e \<Rightarrow> Inl e
          | Inr (rates, m1, w1) \<Rightarrow>
              if rates = [] then Inl UndefinedBehaviour else Inr (last rates, m1, w1))"

definition getMinFiringRate :: "monitor \<Rightarrow> world \<Rightarrow> fault + (real \<times> monitor \<times> world)" where
  "getMinFiringRate m w =
       (if isRecording m then Inl AssertionFailed
        else
          case getAllFiringRatesSorted m w of
            Inl e \<Rightarrow> Inl e
          | Inr (rates, m1, w1) \<Rightarrow>
              if rates = [] then Inl UndefinedBehaviour else Inr (hd rates, m1, w1))"

section \<open>The population standard deviation\<close>

text \<open>
  One step of \<^verbatim>\<open>std += (rates[i]-meanRate)*(rates[i]-meanRate)\<close> on \<^verbatim>\<open>float\<close> operands:
  the difference, the product and the sum are each rounded to \<^verbatim>\<open>float\<close>.
\<close>

definition addSquare :: "real \<Rightarrow> real \<Rightarrow> real \<Rightarrow> real" where
  "addSquare meanRate std r =
     toFloat (std + toFloat (toFloat (r - meanRate) * toFloat (r - meanRate)))"

text \<open>The loop over its indices.\<close>

fun stdLoop :: "nat list \<Rightarrow> real list \<Rightarrow> real \<Rightarrow> real \<Rightarrow> fault + real" where
  "stdLoop [] rates meanRate std = Inr std"
| "stdLoop (i # is) rates meanRate std =
     (if i < length rates
      then stdLoop is rates meanRate (addSquare meanRate std (rates ! i))
      else Inl UndefinedBehaviour)"

text \<open>
  In \<^verbatim>\<open>std = sqrt(std/(nNeurons_-1))\<close> the \<^verbatim>\<open>int\<close> divisor is converted to \<^verbatim>\<open>float\<close> and the
  quotient is a \<^verbatim>\<open>float\<close>.
\<close>

definition getPopStdFiringRate :: "monitor \<Rightarrow> world \<Rightarrow> fault + (real \<times> monitor \<times> world)" where
  "getPopStdFiringRate m w =
       (if isRecording m then Inl AssertionFailed
        else if totalTime m = 0 then Inr (0, m, w)
        else
          case getPopMeanFiringRate m of
            Inl e \<Rightarrow> Inl e
          | Inr meanRate \<Rightarrow>
              (case getAllFiringRates m w of
                 Inl e \<Rightarrow> Inl e
               | Inr (rates, m1, w1) \<Rightarrow>
                   if nNeurons m1 > 1
                   then
                     (case stdLoop [0..<nat (nNeurons m1)] rates meanRate 0 of
                        Inl e \<Rightarrow> Inl e
                      | Inr std \<Rightarrow>
                          (case fdivf std (toFloat (of_int (nNeurons m1 - 1))) of
                             Inl e \<Rightarrow> Inl e
                           | Inr q \<Rightarrow>
                               (case fsqrtf q of
                                  Inl e \<Rightarrow> Inl e
                                | Inr s \<Rightarrow> Inr (s, m1, w1))))
                   else Inr (0, m1, w1)))"

section \<open>Counting neurons by rate\<close>

text \<open>
  The iterator loop over the sorted cache, \<open>counter\<close> the accumulator. The bounds are the
  \<^verbatim>\<open>float\<close> values the function receives.
\<close>

fun countLoop :: "real \<Rightarrow> real \<Rightarrow> real list \<Rightarrow> int \<Rightarrow> int" where
  "countLoop mn mx [] counter = counter"
| "countLoop mn mx (r # rs) counter =
     countLoop mn mx rs (if r \<ge> mn \<and> r \<le> mx then counter + 1 else counter)"

definition getNumNeuronsWithFiringRate ::
    "real \<Rightarrow> real \<Rightarrow> monitor \<Rightarrow> world \<Rightarrow> fault + (int \<times> monitor \<times> world)" where
  "getNumNeuronsWithFiringRate mn mx m w =
       (if isRecording m then Inl AssertionFailed
        else if \<not> (mn \<ge> 0 \<and> mx \<ge> 0) then Inl AssertionFailed
        else if \<not> mx \<ge> mn then Inl AssertionFailed
        else
          case sortFiringRates m w of
            Inl e \<Rightarrow> Inl e
          | Inr (m1, w1) \<Rightarrow> Inr (countLoop mn mx (firingRatesSorted m1) 0, m1, w1))"

definition getNumSilentNeurons :: "monitor \<Rightarrow> world \<Rightarrow> fault + (int \<times> monitor \<times> world)" where
  "getNumSilentNeurons m w =
       (if isRecording m then Inl AssertionFailed
        else getNumNeuronsWithFiringRate 0 0 m w)"

text \<open>
  \<^verbatim>\<open>getNumNeuronsWithFiringRate(min,max)*100.0/nNeurons_\<close>: formed in \<^verbatim>\<open>double\<close> and narrowed
  to the \<^verbatim>\<open>float\<close> returned.
\<close>

definition getPercentNeuronsWithFiringRate ::
    "real \<Rightarrow> real \<Rightarrow> monitor \<Rightarrow> world \<Rightarrow> fault + (real \<times> monitor \<times> world)" where
  "getPercentNeuronsWithFiringRate mn mx m w =
       (if isRecording m then Inl AssertionFailed
        else
          case getNumNeuronsWithFiringRate mn mx m w of
            Inl e \<Rightarrow> Inl e
          | Inr (c, m1, w1) \<Rightarrow>
              (case ddiv (toDouble (toDouble (of_int c) * 100)) (toDouble (of_int (nNeurons m1))) of
                 Inl e \<Rightarrow> Inl e
               | Inr q \<Rightarrow> Inr (toFloat q, m1, w1)))"

definition getPercentSilentNeurons :: "monitor \<Rightarrow> world \<Rightarrow> fault + (real \<times> monitor \<times> world)" where
  "getPercentSilentNeurons m w =
       (if isRecording m then Inl AssertionFailed
        else
          case getNumNeuronsWithFiringRate 0 0 m w of
            Inl e \<Rightarrow> Inl e
          | Inr (c, m1, w1) \<Rightarrow>
              (case ddiv (toDouble (toDouble (of_int c) * 100)) (toDouble (of_int (nNeurons m1))) of
                 Inl e \<Rightarrow> Inl e
               | Inr q \<Rightarrow> Inr (toFloat q, m1, w1)))"

section \<open>Recording\<close>

definition pushAER :: "int \<Rightarrow> int \<Rightarrow> monitor \<Rightarrow> fault + monitor" where
  "pushAER time neurId m =
     (if \<not> isRecording m then Inl AssertionFailed
      else if getMode m \<noteq> AER then Inl AssertionFailed
      else if \<not> (0 \<le> neurId \<and> nat neurId < length (spkVector m)) then Inl UndefinedBehaviour
      else Inr (m\<lparr>spkVector := (spkVector m)[nat neurId := spkVector m ! nat neurId @ [time]]\<rparr>))"

fun pushAll :: "(int \<times> int) list \<Rightarrow> monitor \<Rightarrow> fault + monitor" where
  "pushAll [] m = Inr m"
| "pushAll ((time, neurId) # es) m =
     (case pushAER time neurId m of
        Inl e \<Rightarrow> Inl e
      | Inr m1 \<Rightarrow> pushAll es m1)"

text \<open>
  Modelled from the spec: \<^verbatim>\<open>CpuSNN::updateSpikeMonitor\<close> belongs to the simulation and is
  not part of the sources. The simulation delivers its buffered events, a list of
  (time, neuron id) pairs, one \<open>pushAER\<close> each, and only while recording is active in
  \<open>AER\<close> mode, which is the precondition of a push; otherwise nothing reaches the store.
\<close>

definition updateSpikeMonitor :: "(int \<times> int) list \<Rightarrow> monitor \<Rightarrow> fault + monitor" where
  "updateSpikeMonitor buffered m =
     (if isRecording m \<and> getMode m = AER then pushAll buffered m else Inr m)"

text \<open>
  \<open>now\<close> is the simulation time in ms, \<^verbatim>\<open>getSimTimeSec()*1000+getSimTimeMs()\<close>, and
  \<open>buffered\<close> the events the simulation holds for the group at the call.
\<close>

definition startRecording :: "int \<Rightarrow> (int \<times> int) list \<Rightarrow> monitor \<Rightarrow> fault + monitor" where
  "startRecording now buffered m =
     (if isRecording m then Inl AssertionFailed
      else
        case (if \<not> persistentData m then clear m else Inr m) of
          Inl e \<Rightarrow> Inl e
        | Inr m1 \<Rightarrow>
            (case updateSpikeMonitor buffered m1 of
               Inl e \<Rightarrow> Inl e
             | Inr m2 \<Rightarrow>
                 let m3 = m2\<lparr>needToCalculateFiringRates := True,
                            needToSortFiringRates := True,
                            recordSet := True\<rparr>;
                     currentTime = now
                 in
                   if persistentData m3
                   then Inr (m3\<lparr>startTime := (if startTime m3 < 0 then currentTime else startTime m3),
                                startTimeLast := currentTime,
                                accumTime := (if totalTime m3 > 0 then totalTime m3 else 0)\<rparr>)
                   else Inr (m3\<lparr>startTime := currentTime,
                                startTimeLast := currentTime,
                                accumTime := 0\<rparr>)))"

definition stopRecording :: "int \<Rightarrow> (int \<times> int) list \<Rightarrow> monitor \<Rightarrow> fault + monitor" where
  "stopRecording now buffered m =
     (if \<not> isRecording m then Inl AssertionFailed
      else if \<not> (startTime m > -1 \<and> startTimeLast m > -1 \<and> accumTime m > -1)
      then Inl AssertionFailed
      else
        case updateSpikeMonitor buffered m of
          Inl e \<Rightarrow> Inl e
        | Inr m1 \<Rightarrow>
            let m2 = m1\<lparr>recordSet := False, stopTime := now\<rparr>;
                m3 = m2\<lparr>totalTime := stopTime m2 - startTimeLast m2 + accumTime m2\<rparr>
            in if \<not> totalTime m3 \<ge> 0 then Inl AssertionFailed else Inr m3)"

section \<open>The spike file header\<close>

definition writeSpikeFileHeader :: "monitor \<Rightarrow> world \<Rightarrow> fault + (monitor \<times> world)" where
  "writeSpikeFileHeader m w =
       (if \<not> needToWriteFileHeader m then Inr (m, w)
        else
          case fwrite (IntEntry (spikeFileSignature m)) (spikeFileId m) w of
            Inl e \<Rightarrow> Inl e
          | Inr (ok1, w1) \<Rightarrow>
              let w2 = (if \<not> ok1
                        then CARLSIM_ERROR ''SpikeMonitorCore: writeSpikeFileHeader has fwrite error'' w1
                        else w1)
              in
                (case fwrite (FloatEntry (spikeFileVersion m)) (spikeFileId m) w2 of
                   Inl e \<Rightarrow> Inl e
                 | Inr (ok2, w3) \<Rightarrow>
                     let w4 = (if \<not> ok2
                               then CARLSIM_ERROR ''SpikeMonitorCore: writeSpikeFileHeader has fwrite error'' w3
                               else w3)
                     in Inr (m\<lparr>needToWriteFileHeader := False\<rparr>, w4)))"

definition setSpikeFileId :: "nat option \<Rightarrow> monitor \<Rightarrow> world \<Rightarrow> fault + (monitor \<times> world)" where
  "setSpikeFileId f m w =
       (if isRecording m then Inl AssertionFailed
        else
          let w1 = (if spikeFileId m \<noteq> None
                    then CARLSIM_ERROR ''SpikeMonitorCore: setSpikeFileId has already been called.'' w
                    else w);
              m1 = m\<lparr>spikeFileId := f\<rparr>;
              m2 = m1\<lparr>needToWriteFileHeader := True\<rparr>
          in writeSpikeFileHeader m2 w1)"

section \<open>Rates as the spec states them, and the states a monitor can be in\<close>

text \<open>
  The rate of one neuron as the spec gives it: \<open>spikeCount * 1000.0 / totalTime\<close>, formed in
  \<^verbatim>\<open>double\<close> and narrowed to \<^verbatim>\<open>float\<close>, and \<open>0\<close> for a recording of duration \<open>0\<close>.
\<close>

definition neuronRate :: "int \<Rightarrow> int list \<Rightarrow> real" where
  "neuronRate t v =
     (if t = 0 then 0
      else toFloat (toDouble (toDouble (toDouble (real (length v)) * 1000) / toDouble (of_int t))))"

definition expectedRates :: "monitor \<Rightarrow> real list" where
  "expectedRates m = map (neuronRate (totalTime m)) (spkVector m)"

text \<open>
  The invariant of the object: what the constructor establishes and every method keeps.
  The group size is a positive \<^verbatim>\<open>int\<close> (the integers of this theory are unbounded, the
  field \<^verbatim>\<open>nNeurons_\<close> is not, so its range is stated here) and is the length of the spike
  store, the mode is \<open>AER\<close>,
  both caches are dirty while recording, and a cache that is not dirty holds the rates of
  the stored spikes.
\<close>

definition monitor_inv :: "monitor \<Rightarrow> bool" where
  "monitor_inv m =
     (0 < nNeurons m \<and> nNeurons m \<le> INT_MAX \<and>
      length (spkVector m) = nat (nNeurons m) \<and> mode m = AER \<and>
      (if recordSet m
       then needToCalculateFiringRates m \<and> needToSortFiringRates m
       else
         (needToCalculateFiringRates m \<or> (0 < totalTime m \<and> firingRates m = expectedRates m)) \<and>
         (needToSortFiringRates m \<or>
            ((if needToCalculateFiringRates m then totalTime m = 0 else 0 < totalTime m) \<and>
             firingRatesSorted m = sort (expectedRates m)))))"

text \<open>
  A query may write the two caches and their dirty flags, and nothing else of the object.
\<close>

definition only_caches_differ :: "monitor \<Rightarrow> monitor \<Rightarrow> bool" where
  "only_caches_differ m m' =
     (nNeurons m' = nNeurons m \<and> spikeFileId m' = spikeFileId m \<and>
      recordSet m' = recordSet m \<and> mode m' = mode m \<and>
      persistentData m' = persistentData m \<and>
      needToWriteFileHeader m' = needToWriteFileHeader m \<and>
      spikeFileSignature m' = spikeFileSignature m \<and>
      spikeFileVersion m' = spikeFileVersion m \<and>
      spkVector m' = spkVector m \<and>
      startTime m' = startTime m \<and> startTimeLast m' = startTimeLast m \<and>
      stopTime m' = stopTime m \<and> accumTime m' = accumTime m \<and>
      totalTime m' = totalTime m)"

section \<open>Scenarios and example states\<close>

text \<open>
  Modelled from the spec: the setter of the accounting discipline is declared in the header;
  it assigns \<open>persistentMode\<close>.
\<close>

definition setPersistentData :: "bool \<Rightarrow> monitor \<Rightarrow> monitor" where
  "setPersistentData b m = m\<lparr>persistentData := b\<rparr>"

definition andThen :: "fault + 'a \<Rightarrow> ('a \<Rightarrow> fault + 'b) \<Rightarrow> fault + 'b" where
  "andThen r f = (case r of Inl e \<Rightarrow> Inl e | Inr x \<Rightarrow> f x)"

text \<open>
  The spec's accumulation scenario: a monitor of \<open>n\<close> neurons in persistent mode records
  from \<open>t0\<close> to \<open>t0 + 500\<close> and receives the events \<open>ev1\<close>, then records from \<open>t1\<close> to
  \<open>t1 + 500\<close> and receives \<open>ev2\<close>, with no \<open>clear\<close> in between.
\<close>

definition twoWindows ::
    "int \<Rightarrow> int \<Rightarrow> (int \<times> int) list \<Rightarrow> int \<Rightarrow> (int \<times> int) list \<Rightarrow> fault + monitor" where
  "twoWindows n t0 ev1 t1 ev2 =
     andThen (init n) (\<lambda>m0.
     andThen (startRecording t0 [] (setPersistentData True m0)) (\<lambda>m1.
     andThen (pushAll ev1 m1) (\<lambda>m2.
     andThen (stopRecording (t0 + 500) [] m2) (\<lambda>m3.
     andThen (startRecording t1 [] m3) (\<lambda>m4.
     andThen (pushAll ev2 m4) (\<lambda>m5.
     stopRecording (t1 + 500) [] m5))))))"

text \<open>
  The spec's snapshot scenario: the same two windows on a monitor that is not in persistent
  mode.
\<close>

definition twoSnapshotWindows ::
    "int \<Rightarrow> int \<Rightarrow> (int \<times> int) list \<Rightarrow> int \<Rightarrow> (int \<times> int) list \<Rightarrow> fault + monitor" where
  "twoSnapshotWindows n t0 ev1 t1 ev2 =
     andThen (init n) (\<lambda>m0.
     andThen (startRecording t0 [] m0) (\<lambda>m1.
     andThen (pushAll ev1 m1) (\<lambda>m2.
     andThen (stopRecording (t0 + 500) [] m2) (\<lambda>m3.
     andThen (startRecording t1 [] m3) (\<lambda>m4.
     andThen (pushAll ev2 m4) (\<lambda>m5.
     stopRecording (t1 + 500) [] m5))))))"

text \<open>
  The spec's single-neuron scenario: one neuron that fires at 10, 20 and 30 ms in a window
  from 0 to 1000 ms.
\<close>

definition oneNeuronWindow :: "fault + monitor" where
  "oneNeuronWindow =
     andThen (init 1) (\<lambda>m0.
     andThen (startRecording 0 [] m0) (\<lambda>m1.
     andThen (pushAll [(10, 0), (20, 0), (30, 0)] m1) (\<lambda>m2.
     stopRecording 1000 [] m2)))"

text \<open>
  A monitor of three neurons after one recording from 0 to 1000 ms with a single spike, and
  the same after a recording from 0 to 3 ms.
\<close>

definition third3 :: monitor where
  "third3 =
     \<lparr>nNeurons = 3, spikeFileId = None, recordSet = False, mode = AER,
      persistentData = False, needToWriteFileHeader = True,
      spikeFileSignature = 206661989, spikeFileVersion = 1,
      spkVector = [[5], [], []],
      startTime = 0, startTimeLast = 0, stopTime = 1000, accumTime = 0, totalTime = 1000,
      needToCalculateFiringRates = True, needToSortFiringRates = True,
      firingRates = [0, 0, 0], firingRatesSorted = [0, 0, 0]\<rparr>"

definition sparse3 :: monitor where
  "sparse3 = third3\<lparr>spkVector := [[2], [], []], stopTime := 3, totalTime := 3\<rparr>"

text \<open>
  Three neurons after a recording that stopped when it started, without a spike, and after
  one so long that \<open>totalTime * nNeurons\<close> is no \<^verbatim>\<open>long int\<close>.
\<close>

definition still3 :: monitor where
  "still3 = third3\<lparr>spkVector := [[], [], []], stopTime := 0, totalTime := 0\<rparr>"


text \<open>A monitor of two neurons after one recording from 0 to 1000 ms with a single spike.\<close>

definition pair2 :: monitor where
  "pair2 =
     \<lparr>nNeurons = 2, spikeFileId = None, recordSet = False, mode = AER,
      persistentData = False, needToWriteFileHeader = True,
      spikeFileSignature = 206661989, spikeFileVersion = 1,
      spkVector = [[5], []],
      startTime = 0, startTimeLast = 0, stopTime = 1000, accumTime = 0, totalTime = 1000,
      needToCalculateFiringRates = True, needToSortFiringRates = True,
      firingRates = [0, 0], firingRatesSorted = [0, 0]\<rparr>"

definition quietWorld :: world where
  "quietWorld = \<lparr>fileData = (\<lambda>_. []), writeFails = (\<lambda>_. False), diag = []\<rparr>"

text \<open>A new monitor of two neurons, the state \<open>init 2\<close> returns and \<open>clear\<close> leaves.\<close>

definition fresh2 :: monitor where
  "fresh2 =
     \<lparr>nNeurons = 2, spikeFileId = None, recordSet = False, mode = AER,
      persistentData = False, needToWriteFileHeader = True,
      spikeFileSignature = 206661989, spikeFileVersion = 1,
      spkVector = [[], []],
      startTime = -1, startTimeLast = -1, stopTime = -1, accumTime = 0, totalTime = -1,
      needToCalculateFiringRates = True, needToSortFiringRates = True,
      firingRates = [0, 0], firingRatesSorted = [0, 0]\<rparr>"

text \<open>The same monitor after \<open>startRecording 0 []\<close>.\<close>

definition recording2 :: monitor where
  "recording2 = fresh2\<lparr>recordSet := True, startTime := 0, startTimeLast := 0\<rparr>"

text \<open>
  A monitor of three neurons after one recording from 0 to 1000 ms in which neuron 0 stayed
  silent, neuron 2 fired at 10 and 30 and neuron 1 fired four times.
\<close>

definition idle3 :: monitor where
  "idle3 =
     \<lparr>nNeurons = 3, spikeFileId = None, recordSet = False, mode = AER,
      persistentData = False, needToWriteFileHeader = True,
      spikeFileSignature = 206661989, spikeFileVersion = 1,
      spkVector = [[], [5, 15, 25, 35], [10, 30]],
      startTime = 0, startTimeLast = 0, stopTime = 1000, accumTime = 0, totalTime = 1000,
      needToCalculateFiringRates = True, needToSortFiringRates = True,
      firingRates = [0, 0, 0], firingRatesSorted = [0, 0, 0]\<rparr>"

section \<open>Rounding\<close>

lemmas fp_eval = toDouble_def toFloat_def roundTo_def quantum_def expo_def expUp.simps expDown.simps
  pow2_def rne_def Let_def

lemma pow2_pos: "0 < pow2 k"
  by (simp add: pow2_def)

lemma pow2_Suc: "pow2 (k + 1) = 2 * pow2 k"
proof (cases "0 \<le> k")
  case True
  then show ?thesis by (simp add: pow2_def nat_add_distrib)
next
  case False
  then have k: "k < 0" by simp
  show ?thesis
  proof (cases "k = -1")
    case True
    then show ?thesis by (simp add: pow2_def)
  next
    case False
    with k have "k + 1 < 0" by simp
    moreover have "nat (- k) = Suc (nat (- (k + 1)))" using k by simp
    ultimately show ?thesis using k by (simp add: pow2_def)
  qed
qed

lemma pow2_mono: "k \<le> l \<Longrightarrow> pow2 k \<le> pow2 l"
proof -
  assume "k \<le> l"
  then obtain n where l: "l = k + int n" by (metis zle_iff_zadd)
  have "pow2 k \<le> pow2 (k + int n)"
  proof (induction n)
    case 0
    then show ?case by simp
  next
    case (Suc n)
    have "pow2 (k + int (Suc n)) = 2 * pow2 (k + int n)"
      using pow2_Suc[of "k + int n"] by (simp add: ac_simps)
    then show ?case using Suc pow2_pos[of "k + int n"] by simp
  qed
  then show ?thesis using l by simp
qed

lemma expUp_bounds: "1 \<le> x \<Longrightarrow> 0 \<le> expUp x \<and> pow2 (expUp x) \<le> x \<and> x < pow2 (expUp x + 1)"
proof (induction x rule: expUp.induct)
  case (1 x)
  show ?case
  proof (cases "2 \<le> x")
    case True
    then have h: "1 \<le> x / 2" by simp
    from "1.IH"[OF True h] have
      ih: "0 \<le> expUp (x / 2)" "pow2 (expUp (x / 2)) \<le> x / 2" "x / 2 < pow2 (expUp (x / 2) + 1)"
      by simp_all
    have e: "expUp x = expUp (x / 2) + 1" using True by (simp add: expUp.simps)
    show ?thesis using ih pow2_Suc[of "expUp (x / 2)"] pow2_Suc[of "expUp (x / 2) + 1"]
      by (simp add: e)
  next
    case False
    then have "expUp x = 0" by (simp add: expUp.simps)
    then show ?thesis using False "1.prems" by (simp add: pow2_def)
  qed
qed

lemma rne_nonneg: "0 \<le> y \<Longrightarrow> 0 \<le> rne y"
proof -
  assume "0 \<le> y"
  then have "0 \<le> \<lfloor>y\<rfloor>" by simp
  then show ?thesis by (simp add: rne_def Let_def)
qed

lemma rne_ge_one: "1 \<le> y \<Longrightarrow> 1 \<le> rne y"
proof -
  assume "1 \<le> y"
  then have "1 \<le> \<lfloor>y\<rfloor>" by linarith
  then show ?thesis by (simp add: rne_def Let_def)
qed

lemma quantum_pos: "0 < quantum p emin a"
  by (simp add: quantum_def pow2_pos)

lemma roundTo_zero: "roundTo p emin 0 = 0"
  by (simp add: roundTo_def)

lemma roundTo_minus: "roundTo p emin (- x) = - roundTo p emin x"
  by (simp add: roundTo_def)

lemma roundTo_nonneg: "0 \<le> x \<Longrightarrow> 0 \<le> roundTo p emin x"
proof -
  assume x: "0 \<le> x"
  have "0 \<le> \<bar>x\<bar> / quantum p emin \<bar>x\<bar>" using quantum_pos[of p emin "\<bar>x\<bar>"] by simp
  then have "0 \<le> rne (\<bar>x\<bar> / quantum p emin \<bar>x\<bar>)" by (rule rne_nonneg)
  then show ?thesis using x quantum_pos[of p emin "\<bar>x\<bar>"] by (simp add: roundTo_def sgn_if)
qed

lemma roundTo_pos:
  assumes x: "1 \<le> x" and p: "0 < p" and e: "emin \<le> 0"
  shows "0 < roundTo p emin x"
proof -
  have b: "0 \<le> expUp x" "pow2 (expUp x) \<le> x" using expUp_bounds[OF x] by simp_all
  have ex: "expo x = expUp x" using x by (simp add: expo_def)
  have m: "max (expo x) emin = expUp x" using b(1) e ex by simp
  have q: "quantum p emin x = pow2 (expUp x - int p + 1)" by (simp add: quantum_def m)
  have "pow2 (expUp x - int p + 1) \<le> pow2 (expUp x)" using p by (intro pow2_mono) simp
  then have qx: "quantum p emin x \<le> x" using b(2) q by simp
  have qp: "0 < quantum p emin x" by (rule quantum_pos)
  have "1 \<le> x / quantum p emin x" using qx qp by simp
  then have "1 \<le> rne (x / quantum p emin x)" by (rule rne_ge_one)
  then have "0 < real_of_int (rne (x / quantum p emin x)) * quantum p emin x"
    using qp by simp
  then show ?thesis using x by (simp add: roundTo_def)
qed

lemma roundTo_int_nonzero:
  assumes k: "k \<noteq> 0" and p: "0 < p" and e: "emin \<le> 0"
  shows "roundTo p emin (of_int k) \<noteq> 0"
proof (cases "0 < k")
  case True
  then have "1 \<le> real_of_int k" by simp
  from roundTo_pos[OF this p e] show ?thesis by simp
next
  case False
  then have "1 \<le> real_of_int (- k)" using k by simp
  from roundTo_pos[OF this p e] have "0 < roundTo p emin (- real_of_int k)" by simp
  then show ?thesis by (simp add: roundTo_minus)
qed

lemma toDouble_zero: "toDouble 0 = 0"
  by (simp add: toDouble_def roundTo_zero)

lemma toFloat_zero: "toFloat 0 = 0"
  by (simp add: toFloat_def roundTo_zero)

lemma toDouble_int_nonzero: "k \<noteq> 0 \<Longrightarrow> toDouble (of_int k) \<noteq> 0"
  by (simp add: toDouble_def roundTo_int_nonzero)

lemma toFloat_int_pos: "0 < k \<Longrightarrow> 0 < toFloat (of_int k)"
proof -
  assume "0 < k"
  then have "1 \<le> real_of_int k" by simp
  then show ?thesis unfolding toFloat_def by (intro roundTo_pos) simp_all
qed

lemma toFloat_nonneg: "0 \<le> x \<Longrightarrow> 0 \<le> toFloat x"
  by (simp add: toFloat_def roundTo_nonneg)

lemma rne_near: "\<bar>real_of_int (rne y) - y\<bar> \<le> 1 / 2"
proof -
  have "real_of_int \<lfloor>y\<rfloor> \<le> y" "y < real_of_int \<lfloor>y\<rfloor> + 1" by linarith+
  then show ?thesis by (auto simp: rne_def Let_def)
qed

lemma roundTo_near: "\<bar>roundTo p emin x - x\<bar> \<le> quantum p emin \<bar>x\<bar> / 2"
proof (cases "x = 0")
  case True
  then show ?thesis using quantum_pos[of p emin 0] by (simp add: roundTo_def)
next
  case False
  define q where "q = quantum p emin \<bar>x\<bar>"
  have q: "0 < q" by (simp add: q_def quantum_pos)
  define k where "k = rne (\<bar>x\<bar> / q)"
  have "\<bar>real_of_int k - \<bar>x\<bar> / q\<bar> \<le> 1 / 2" unfolding k_def by (rule rne_near)
  then have "\<bar>real_of_int k - \<bar>x\<bar> / q\<bar> * q \<le> 1 / 2 * q" using q by (intro mult_right_mono) simp_all
  moreover have "(real_of_int k - \<bar>x\<bar> / q) * q = real_of_int k * q - \<bar>x\<bar>"
    using q by (simp add: left_diff_distrib)
  then have "\<bar>real_of_int k - \<bar>x\<bar> / q\<bar> * q = \<bar>real_of_int k * q - \<bar>x\<bar>\<bar>"
    using q abs_mult[of "real_of_int k - \<bar>x\<bar> / q" q] by simp
  ultimately have n: "\<bar>real_of_int k * q - \<bar>x\<bar>\<bar> \<le> q / 2" by simp
  have r: "roundTo p emin x = sgn x * (real_of_int k * q)"
    using False by (simp add: roundTo_def k_def q_def)
  have "\<bar>roundTo p emin x - x\<bar> \<le> q / 2"
  proof (cases "0 < x")
    case True
    then show ?thesis using n by (simp add: r)
  next
    case False
    with \<open>x \<noteq> 0\<close> have "x < 0" by simp
    then show ?thesis using n by (auto simp: r abs_if split: if_splits)
  qed
  then show ?thesis by (simp add: q_def)
qed

lemma rne_eqI:
  assumes "real_of_int k - 1 / 2 < y" "y < real_of_int k + 1 / 2"
  shows "rne y = k"
proof -
  have "rne y - k < 1" "- 1 < rne y - k" using rne_near[of y] assms by linarith+
  then show ?thesis by simp
qed

text \<open>Known values of the two formats, a tie included.\<close>

lemma toFloat_tenth: "toFloat (1 / 10) = 13421773 / 134217728"
  by (simp add: fp_eval)

lemma toDouble_tenth: "toDouble (1 / 10) = 3602879701896397 / 36028797018963968"
  by (simp add: fp_eval)

lemma toFloat_ties: "toFloat 16777217 = 16777216" "toFloat 16777219 = 16777220"
  by (simp_all add: fp_eval)


section \<open>The loops in closed form\<close>

lemma clearLoop_nth:
  "set is \<subseteq> {..<length v} \<Longrightarrow>
   \<exists>v'. clearLoop is v = Inr v' \<and> length v' = length v \<and>
        (\<forall>j<length v. v' ! j = (if j \<in> set is then [] else v ! j))"
proof (induction "is" arbitrary: v)
  case Nil
  then show ?case by simp
next
  case (Cons i "is")
  have i: "i < length v" using Cons.prems by simp
  have "set is \<subseteq> {..<length (v[i := []])}" using Cons.prems by simp
  from Cons.IH[OF this] obtain v' where
    v': "clearLoop is (v[i := []]) = Inr v'" "length v' = length v"
        "\<forall>j<length v. v' ! j = (if j \<in> set is then [] else v[i := []] ! j)"
    by auto
  show ?case using i v' by (auto simp: nth_list_update)
qed

lemma clearLoop_upt:
  assumes "length v = n"
  shows "clearLoop [0..<n] v = Inr (replicate n [])"
proof -
  have "set [0..<n] \<subseteq> {..<length v}" using assms by auto
  from clearLoop_nth[OF this] obtain v' where
    v': "clearLoop [0..<n] v = Inr v'" "length v' = length v"
        "\<forall>j<length v. v' ! j = (if j \<in> set [0..<n] then [] else v ! j)"
    by auto
  have "v' = replicate n []"
    using v' assms by (intro nth_equalityI) auto
  then show ?thesis using v' by simp
qed

lemma popLoop_sum:
  "\<not> recordSet m \<Longrightarrow> mode m = AER \<Longrightarrow> length (spkVector m) = nat (nNeurons m) \<Longrightarrow>
   set is \<subseteq> {..<length (spkVector m)} \<Longrightarrow>
   popLoop is m acc = Inr (acc + (\<Sum>i\<leftarrow>is. int (length (spkVector m ! i))))"
proof (induction "is" arbitrary: acc)
  case Nil
  then show ?case by simp
next
  case (Cons i "is")
  have "i < nat (nNeurons m)" using Cons.prems by simp
  then have "getNeuronNumSpikes (int i) m = Inr (int (length (spkVector m ! i)))"
    using Cons.prems by (simp add: getNeuronNumSpikes_def isRecording_def getMode_def)
  then show ?case using Cons by (simp add: add.assoc)
qed

lemma sum_list_nth_upt: "(\<Sum>i\<leftarrow>[0..<length xs]. f (xs ! i)) = sum_list (map f xs)"
proof -
  have "map (\<lambda>i. f (xs ! i)) [0..<length xs] = map f xs"
    by (intro nth_equalityI) auto
  then show ?thesis by simp
qed

lemma getPopNumSpikes_sum:
  assumes "\<not> recordSet m" "mode m = AER" "length (spkVector m) = nat (nNeurons m)"
  shows "getPopNumSpikes m = Inr (\<Sum>v\<leftarrow>spkVector m. int (length v))"
proof -
  have "set [0..<nat (nNeurons m)] \<subseteq> {..<length (spkVector m)}" using assms by auto
  from popLoop_sum[OF assms this, of 0]
  show ?thesis using assms sum_list_nth_upt[of "\<lambda>v. int (length v)" "spkVector m"]
    by (simp add: getPopNumSpikes_def isRecording_def)
qed

lemma rate_step:
  "t \<noteq> 0 \<Longrightarrow>
   ddiv (toDouble (toDouble (real (length x)) * 1000)) (toDouble (of_int t)) =
     Inr (toDouble (toDouble (toDouble (real (length x)) * 1000) / toDouble (of_int t)))"
  by (simp add: ddiv_def toDouble_int_nonzero)

lemma rateLoop_nth:
  "t \<noteq> 0 \<Longrightarrow> set is \<subseteq> {..<length v} \<Longrightarrow> length fr = length v \<Longrightarrow>
   \<exists>fr'. rateLoop is v t fr = Inr fr' \<and> length fr' = length v \<and>
        (\<forall>j<length v. fr' ! j = (if j \<in> set is then neuronRate t (v ! j) else fr ! j))"
proof (induction "is" arbitrary: fr)
  case Nil
  then show ?case by simp
next
  case (Cons i "is")
  let ?fr = "fr[i := neuronRate t (v ! i)]"
  have i: "i < length v" "i < length fr" using Cons.prems by simp_all
  have "set is \<subseteq> {..<length v}" "length ?fr = length v" using Cons.prems by simp_all
  from Cons.IH[OF Cons.prems(1) this] obtain fr' where
    fr': "rateLoop is v t ?fr = Inr fr'" "length fr' = length v"
        "\<forall>j<length v. fr' ! j = (if j \<in> set is then neuronRate t (v ! j) else ?fr ! j)"
    by auto
  have "rateLoop (i # is) v t fr = rateLoop is v t ?fr"
    using i Cons.prems(1) by (simp add: rate_step neuronRate_def)
  then show ?case using i fr' by (auto simp: nth_list_update)
qed

lemma rateLoop_upt:
  assumes "t \<noteq> 0" "length v = n" "length fr = n"
  shows "rateLoop [0..<n] v t fr = Inr (map (neuronRate t) v)"
proof -
  have "set [0..<n] \<subseteq> {..<length v}" "length fr = length v" using assms by auto
  from rateLoop_nth[OF assms(1) this] obtain fr' where
    fr': "rateLoop [0..<n] v t fr = Inr fr'" "length fr' = length v"
        "\<forall>j<length v. fr' ! j = (if j \<in> set [0..<n] then neuronRate t (v ! j) else fr ! j)"
    by auto
  have "fr' = map (neuronRate t) v"
    using fr' assms by (intro nth_equalityI) auto
  then show ?thesis using fr' by simp
qed

lemma stdLoop_foldl:
  "set is \<subseteq> {..<length rates} \<Longrightarrow>
   stdLoop is rates mu acc = Inr (foldl (addSquare mu) acc (map (\<lambda>i. rates ! i) is))"
  by (induction "is" arbitrary: acc) simp_all

lemma stdLoop_upt:
  assumes "length rates = n"
  shows "stdLoop [0..<n] rates mu 0 = Inr (foldl (addSquare mu) 0 rates)"
proof -
  have "set [0..<n] \<subseteq> {..<length rates}" using assms by auto
  from stdLoop_foldl[OF this, of mu 0]
  show ?thesis using assms map_nth[of rates] by simp
qed

lemma countLoop_filter:
  "countLoop mn mx rs c = c + int (length (filter (\<lambda>r. mn \<le> r \<and> r \<le> mx) rs))"
  by (induction rs arbitrary: c) simp_all

section \<open>What a cache update may write\<close>

lemma only_caches_differ_refl: "only_caches_differ m m"
  by (simp add: only_caches_differ_def)

lemma only_caches_differ_trans:
  "only_caches_differ a b \<Longrightarrow> only_caches_differ b c \<Longrightarrow> only_caches_differ a c"
  by (simp add: only_caches_differ_def)

lemma calculateFiringRates_frame:
  assumes "calculateFiringRates m w = Inr (m', w')"
  shows "only_caches_differ m m' \<and> fileData w' = fileData w \<and> writeFails w' = writeFails w"
proof (cases "needToCalculateFiringRates m")
  case False
  then show ?thesis using assms
    by (simp add: calculateFiringRates_def only_caches_differ_def)
next
  case True
  show ?thesis
  proof (cases "totalTime m = 0")
    case z: True
    then have "m' = m\<lparr>firingRates := replicate (nat (nNeurons m)) 0,
        firingRatesSorted := replicate (nat (nNeurons m)) 0\<rparr>"
      "w' = CARLSIM_WARN ''SpikeMonitorCore: calculateFiringRates has 0 totalTime'' w"
      using assms True
      by (auto simp: calculateFiringRates_def Let_def split: if_splits)
    then show ?thesis by (simp add: only_caches_differ_def CARLSIM_WARN_def)
  next
    case nz: False
    then obtain fr where "m' = m\<lparr>firingRates := replicate (nat (nNeurons m)) 0,
        firingRatesSorted := replicate (nat (nNeurons m)) 0, firingRates := fr,
        needToCalculateFiringRates := False\<rparr>" "w' = w"
      using assms True
      by (auto simp: calculateFiringRates_def Let_def split: if_splits sum.splits)
    then show ?thesis by (simp add: only_caches_differ_def)
  qed
qed

lemma sortFiringRates_frame:
  assumes a: "sortFiringRates m w = Inr (m', w')"
  shows "only_caches_differ m m' \<and> fileData w' = fileData w \<and> writeFails w' = writeFails w"
proof (cases "needToSortFiringRates m")
  case False
  then show ?thesis using a by (simp add: sortFiringRates_def only_caches_differ_def)
next
  case True
  then obtain m1 where c: "calculateFiringRates m w = Inr (m1, w')"
    and m': "m' = m1\<lparr>firingRatesSorted := sort (firingRates m1), needToSortFiringRates := False\<rparr>"
    using a by (auto simp: sortFiringRates_def split: sum.splits)
  have "only_caches_differ m1 m'" using m' by (simp add: only_caches_differ_def)
  with calculateFiringRates_frame[OF c] show ?thesis
    using only_caches_differ_trans by blast
qed

section \<open>The cache updates in closed form\<close>

lemma expectedRates_zero: "totalTime m = 0 \<Longrightarrow> expectedRates m = replicate (length (spkVector m)) 0"
proof -
  assume "totalTime m = 0"
  then have "expectedRates m = map (\<lambda>_. 0) (spkVector m)"
    by (simp add: expectedRates_def neuronRate_def)
  then show ?thesis by (simp add: map_replicate_const)
qed

lemma length_expectedRates: "length (expectedRates m) = length (spkVector m)"
  by (simp add: expectedRates_def)

lemma expectedRates_frame: "only_caches_differ m m' \<Longrightarrow> expectedRates m' = expectedRates m"
  by (simp add: expectedRates_def only_caches_differ_def)

lemma sort_replicate: "sort (replicate n (x::real)) = replicate n x"
  by (simp add: sorted_sort_id)

lemma calculateFiringRates_ok:
  assumes inv: "monitor_inv m" and idle: "\<not> recordSet m" and t: "0 \<le> totalTime m"
  shows "\<exists>m' w'. calculateFiringRates m w = Inr (m', w') \<and> firingRates m' = expectedRates m \<and>
           monitor_inv m' \<and> needToSortFiringRates m' = needToSortFiringRates m"
proof (cases "needToCalculateFiringRates m")
  case False
  then show ?thesis using inv idle
    by (auto simp: calculateFiringRates_def monitor_inv_def)
next
  case dirty: True
  have len: "length (spkVector m) = nat (nNeurons m)" and aer: "mode m = AER"
    using inv by (simp_all add: monitor_inv_def)
  show ?thesis
  proof (cases "totalTime m = 0")
    case True
    let ?m' = "m\<lparr>firingRates := replicate (nat (nNeurons m)) 0,
                   firingRatesSorted := replicate (nat (nNeurons m)) 0\<rparr>"
    have c: "calculateFiringRates m w =
        Inr (?m', CARLSIM_WARN ''SpikeMonitorCore: calculateFiringRates has 0 totalTime'' w)"
      using dirty True aer by (simp add: calculateFiringRates_def getMode_def Let_def)
    have e: "expectedRates ?m' = replicate (nat (nNeurons m)) 0"
      using expectedRates_zero[of ?m'] True len by simp
    have e0: "expectedRates m = replicate (nat (nNeurons m)) 0"
      using expectedRates_zero[of m] True len by simp
    have "monitor_inv ?m'"
      using inv idle dirty True e by (simp add: monitor_inv_def sort_replicate)
    then show ?thesis using c e0 by simp
  next
    case False
    then have pos: "0 < totalTime m" using t by simp
    let ?fr = "map (neuronRate (totalTime m)) (spkVector m)"
    let ?m' = "m\<lparr>firingRates := ?fr,
                   firingRatesSorted := replicate (nat (nNeurons m)) 0,
                   needToCalculateFiringRates := False\<rparr>"
    have r: "rateLoop [0..<nat (nNeurons m)] (spkVector m) (totalTime m)
               (replicate (nat (nNeurons m)) 0) = Inr ?fr"
      using rateLoop_upt[OF False, of "spkVector m" "nat (nNeurons m)"
          "replicate (nat (nNeurons m)) 0"] len
      by simp
    have c: "calculateFiringRates m w = Inr (?m', w)"
      using dirty False pos aer r by (simp add: calculateFiringRates_def getMode_def Let_def)
    have e0: "expectedRates m = ?fr" by (simp add: expectedRates_def)
    have e: "expectedRates ?m' = ?fr" by (simp add: expectedRates_def)
    have s: "needToSortFiringRates m" using inv idle dirty False by (auto simp: monitor_inv_def)
    have "monitor_inv ?m'"
      using inv idle pos s e by (simp add: monitor_inv_def)
    then show ?thesis using c e0 by simp
  qed
qed

lemma calculateFiringRates_unset:
  assumes "mode m = AER" "needToCalculateFiringRates m" "totalTime m < 0"
  shows "calculateFiringRates m w = Inl AssertionFailed"
  using assms by (simp add: calculateFiringRates_def getMode_def Let_def)

lemma sortFiringRates_ok:
  assumes inv: "monitor_inv m" and idle: "\<not> recordSet m" and t: "0 \<le> totalTime m"
  shows "\<exists>m' w'. sortFiringRates m w = Inr (m', w') \<and>
           firingRatesSorted m' = sort (expectedRates m) \<and>
           monitor_inv m' \<and> \<not> needToSortFiringRates m'"
proof (cases "needToSortFiringRates m")
  case False
  then show ?thesis using inv idle
    by (auto simp: sortFiringRates_def monitor_inv_def)
next
  case True
  from calculateFiringRates_ok[OF inv idle t, of w] obtain m1 w1 where
    c: "calculateFiringRates m w = Inr (m1, w1)" and fr: "firingRates m1 = expectedRates m"
    and inv1: "monitor_inv m1"
    by blast
  have f: "only_caches_differ m m1" using calculateFiringRates_frame[OF c] by simp
  then have e: "expectedRates m1 = expectedRates m" by (rule expectedRates_frame)
  have idle1: "\<not> recordSet m1" and t1: "totalTime m1 = totalTime m"
    using f idle by (simp_all add: only_caches_differ_def)
  let ?m' = "m1\<lparr>firingRatesSorted := sort (firingRates m1), needToSortFiringRates := False\<rparr>"
  have s: "sortFiringRates m w = Inr (?m', w1)"
    using True c by (simp add: sortFiringRates_def)
  have e': "expectedRates ?m' = expectedRates m" using e by (simp add: expectedRates_def)
  have z: "needToCalculateFiringRates m1 \<Longrightarrow> totalTime m = 0"
  proof -
    assume d: "needToCalculateFiringRates m1"
    show "totalTime m = 0"
    proof (rule ccontr)
      assume nz: "totalTime m \<noteq> 0"
      then have "\<not> needToCalculateFiringRates m1"
        using c t by (auto simp: calculateFiringRates_def Let_def split: if_splits sum.splits)
      with d show False by simp
    qed
  qed
  have p: "\<not> needToCalculateFiringRates m1 \<Longrightarrow> 0 < totalTime m"
    using inv1 idle1 t1 by (auto simp: monitor_inv_def)
  have "monitor_inv ?m'"
    using inv1 idle1 t1 e' fr z p by (auto simp: monitor_inv_def)
  then show ?thesis using s fr by simp
qed

lemma sortFiringRates_unset:
  assumes "monitor_inv m" "needToSortFiringRates m" "needToCalculateFiringRates m" "totalTime m < 0"
  shows "sortFiringRates m w = Inl AssertionFailed"
  using assms calculateFiringRates_unset[of m w]
  by (simp add: sortFiringRates_def monitor_inv_def)

section \<open>The example states are reachable\<close>

lemma init_fresh2: "init 2 = Inr fresh2"
  by (simp add: init_def clear_def isRecording_def fresh2_def eval_nat_numeral)

lemma clear_fresh2: "clear fresh2 = Inr fresh2"
  by (simp add: clear_def isRecording_def fresh2_def eval_nat_numeral)

lemma start_fresh2: "startRecording 0 [] fresh2 = Inr recording2"
  by (simp add: startRecording_def clear_def isRecording_def fresh2_def recording2_def
      updateSpikeMonitor_def Let_def eval_nat_numeral)

lemma reach_idle3:
  "andThen (init 3) (\<lambda>m0.
   andThen (startRecording 0 [] m0) (\<lambda>m1.
   andThen (pushAll [(5, 1), (10, 2), (15, 1)] m1) (\<lambda>m2.
   stopRecording 1000 [(25, 1), (30, 2), (35, 1)] m2))) = Inr idle3"
  by (simp add: andThen_def init_def clear_def isRecording_def idle3_def getMode_def
      startRecording_def updateSpikeMonitor_def Let_def pushAER_def stopRecording_def
      eval_nat_numeral)


lemma reach_sparse3:
  "andThen (init 3) (\<lambda>m0.
   andThen (startRecording 0 [] m0) (\<lambda>m1.
   stopRecording 3 [(2, 0)] m1)) = Inr sparse3"
  by (simp add: andThen_def init_def clear_def isRecording_def third3_def sparse3_def getMode_def
      startRecording_def updateSpikeMonitor_def Let_def pushAER_def stopRecording_def
      eval_nat_numeral)

lemma reach_still3:
  "andThen (init 3) (\<lambda>m0.
   andThen (startRecording 0 [] m0) (\<lambda>m1.
   stopRecording 0 [] m1)) = Inr still3"
  by (simp add: andThen_def init_def clear_def isRecording_def third3_def still3_def getMode_def
      startRecording_def updateSpikeMonitor_def Let_def pushAER_def stopRecording_def
      eval_nat_numeral)


lemma reach_pair2:
  "andThen (init 2) (\<lambda>m0.
   andThen (startRecording 0 [] m0) (\<lambda>m1.
   stopRecording 1000 [(5, 0)] m1)) = Inr pair2"
  by (simp add: andThen_def init_def clear_def isRecording_def pair2_def getMode_def
      startRecording_def updateSpikeMonitor_def Let_def pushAER_def stopRecording_def
      eval_nat_numeral)

lemma monitor_inv_idle3: "monitor_inv idle3"
  by (simp add: monitor_inv_def idle3_def INT_MAX_def)

lemma monitor_inv_fresh2: "monitor_inv fresh2"
  by (simp add: monitor_inv_def fresh2_def INT_MAX_def)

lemma monitor_inv_third3: "monitor_inv third3"
  by (simp add: monitor_inv_def third3_def INT_MAX_def)

lemma monitor_inv_sparse3: "monitor_inv sparse3"
  by (simp add: monitor_inv_def third3_def sparse3_def INT_MAX_def)



lemma monitor_inv_pair2: "monitor_inv pair2"
  by (simp add: monitor_inv_def pair2_def INT_MAX_def)

section \<open>Clearing, construction and pushing in closed form\<close>

lemma clear_ok:
  assumes "\<not> recordSet m" "length (spkVector m) = nat (nNeurons m)"
  shows "clear m =
    Inr (m\<lparr>recordSet := False, startTime := -1, startTimeLast := -1, stopTime := -1,
           accumTime := 0, totalTime := -1, spkVector := replicate (nat (nNeurons m)) [],
           needToCalculateFiringRates := True, needToSortFiringRates := True,
           firingRates := replicate (nat (nNeurons m)) 0,
           firingRatesSorted := replicate (nat (nNeurons m)) 0\<rparr>)"
  using assms clearLoop_upt[of "spkVector m" "nat (nNeurons m)"]
  by (simp add: clear_def isRecording_def)

lemma clear_inv:
  assumes "monitor_inv m" "\<not> recordSet m"
  shows "\<exists>m'. clear m = Inr m' \<and> monitor_inv m' \<and> \<not> recordSet m' \<and> totalTime m' = -1 \<and>
           needToCalculateFiringRates m' \<and> needToSortFiringRates m' \<and>
           spkVector m' = replicate (nat (nNeurons m)) [] \<and>
           firingRates m' = replicate (nat (nNeurons m)) 0 \<and>
           firingRatesSorted m' = replicate (nat (nNeurons m)) 0 \<and>
           nNeurons m' = nNeurons m"
proof -
  have len: "length (spkVector m) = nat (nNeurons m)"
    using assms(1) by (simp add: monitor_inv_def)
  show ?thesis
    using clear_ok[OF assms(2) len] assms(1) by (simp add: monitor_inv_def)
qed

lemma init_fields:
  assumes "0 < n"
  shows "\<exists>m. init n = Inr m \<and> mode m = AER \<and> \<not> recordSet m \<and> nNeurons m = n \<and>
           \<not> persistentData m \<and> spkVector m = replicate (nat n) [] \<and>
           totalTime m = -1 \<and> startTime m = -1 \<and>
           needToCalculateFiringRates m \<and> needToSortFiringRates m"
proof -
  let ?m0 = "\<lparr>nNeurons = n, spikeFileId = None, recordSet = False, mode = AER,
      persistentData = False, needToWriteFileHeader = True,
      spikeFileSignature = 206661989, spikeFileVersion = 1,
      spkVector = replicate (nat n) [],
      startTime = -1, startTimeLast = -1, stopTime = -1, accumTime = 0, totalTime = -1,
      needToCalculateFiringRates = True, needToSortFiringRates = True,
      firingRates = [], firingRatesSorted = []\<rparr>"
  have i: "init n = clear ?m0" using assms by (simp add: init_def)
  show ?thesis using clear_ok[of ?m0] by (simp add: i)
qed

lemma init_inv:
  assumes "0 < n" "n \<le> INT_MAX"
  shows "\<exists>m. init n = Inr m \<and> monitor_inv m \<and> \<not> recordSet m \<and> nNeurons m = n \<and>
           \<not> persistentData m \<and> spkVector m = replicate (nat n) [] \<and>
           totalTime m = -1 \<and> startTime m = -1"
proof -
  from init_fields[OF assms(1)] obtain m where
    m: "init n = Inr m" "mode m = AER" "\<not> recordSet m" "nNeurons m = n"
      "\<not> persistentData m" "spkVector m = replicate (nat n) []"
      "totalTime m = -1" "startTime m = -1"
      "needToCalculateFiringRates m" "needToSortFiringRates m"
    by blast
  have "monitor_inv m" using m assms by (simp add: monitor_inv_def)
  then show ?thesis using m by simp
qed

lemma pushAER_ok:
  assumes "recordSet m" "mode m = AER" "0 \<le> i" "nat i < length (spkVector m)"
  shows "pushAER t i m =
    Inr (m\<lparr>spkVector := (spkVector m)[nat i := spkVector m ! nat i @ [t]]\<rparr>)"
  using assms by (simp add: pushAER_def isRecording_def getMode_def)

lemma pushAER_store_only:
  assumes "pushAER t i m = Inr m'"
  shows "m' = m\<lparr>spkVector := spkVector m'\<rparr> \<and> length (spkVector m') = length (spkVector m)"
  using assms by (auto simp: pushAER_def split: if_splits)

lemma pushAll_store_only:
  "pushAll es m = Inr m' \<Longrightarrow>
   m' = m\<lparr>spkVector := spkVector m'\<rparr> \<and> length (spkVector m') = length (spkVector m)"
proof (induction es arbitrary: m)
  case Nil
  then show ?case by simp
next
  case (Cons e es)
  obtain t i where e: "e = (t, i)" by (cases e)
  from Cons.prems e obtain m1 where
    1: "pushAER t i m = Inr m1" and 2: "pushAll es m1 = Inr m'"
    by (auto split: sum.splits)
  from pushAER_store_only[OF 1] Cons.IH[OF 2] show ?case
    by (metis monitor.update_convs(9) monitor.surjective)
qed

lemma updateSpikeMonitor_store_only:
  "updateSpikeMonitor es m = Inr m' \<Longrightarrow>
   m' = m\<lparr>spkVector := spkVector m'\<rparr> \<and> length (spkVector m') = length (spkVector m)"
  using pushAll_store_only[of es m m']
  by (auto simp: updateSpikeMonitor_def split: if_splits)

lemma updateSpikeMonitor_idle: "\<not> recordSet m \<Longrightarrow> updateSpikeMonitor es m = Inr m"
  by (simp add: updateSpikeMonitor_def isRecording_def)

lemma total_list_update:
  "k < length v \<Longrightarrow>
   (\<Sum>x\<leftarrow>v[k := v ! k @ [t]]. int (length x)) = (\<Sum>x\<leftarrow>v. int (length x)) + 1"
proof (induction v arbitrary: k)
  case Nil
  then show ?case by simp
next
  case (Cons a v)
  then show ?case by (cases k) simp_all
qed

lemma pushAll_ok:
  "recordSet m \<Longrightarrow> mode m = AER \<Longrightarrow>
   \<forall>e\<in>set es. 0 \<le> snd e \<and> nat (snd e) < length (spkVector m) \<Longrightarrow>
   \<exists>m'. pushAll es m = Inr m' \<and> m' = m\<lparr>spkVector := spkVector m'\<rparr> \<and>
        length (spkVector m') = length (spkVector m) \<and>
        (\<Sum>x\<leftarrow>spkVector m'. int (length x)) = (\<Sum>x\<leftarrow>spkVector m. int (length x)) + int (length es)"
proof (induction es arbitrary: m)
  case Nil
  then show ?case by simp
next
  case (Cons e es)
  obtain t i where e: "e = (t, i)" by (cases e)
  let ?m1 = "m\<lparr>spkVector := (spkVector m)[nat i := spkVector m ! nat i @ [t]]\<rparr>"
  have i: "0 \<le> i" "nat i < length (spkVector m)" using Cons.prems(3) e by simp_all
  have 1: "pushAER t i m = Inr ?m1" using pushAER_ok[OF Cons.prems(1,2) i] .
  have r: "recordSet ?m1" "mode ?m1 = AER" using Cons.prems by simp_all
  have b: "\<forall>e\<in>set es. 0 \<le> snd e \<and> nat (snd e) < length (spkVector ?m1)"
    using Cons.prems(3) by simp
  from Cons.IH[OF r b] obtain m' where
    m': "pushAll es ?m1 = Inr m'" "m' = ?m1\<lparr>spkVector := spkVector m'\<rparr>"
      "length (spkVector m') = length (spkVector ?m1)"
      "(\<Sum>x\<leftarrow>spkVector m'. int (length x)) =
         (\<Sum>x\<leftarrow>spkVector ?m1. int (length x)) + int (length es)"
    by blast
  have s: "(\<Sum>x\<leftarrow>spkVector ?m1. int (length x)) = (\<Sum>x\<leftarrow>spkVector m. int (length x)) + 1"
    using total_list_update[OF i(2)] by simp
  have p: "pushAll (e # es) m = Inr m'" using e 1 m'(1) by simp
  have q: "m' = m\<lparr>spkVector := spkVector m'\<rparr>" using m'(2) by simp
  show ?case using p q m'(3) m'(4) s by simp
qed

lemma pushAER_inv:
  assumes "monitor_inv m" "pushAER t i m = Inr m'"
  shows "monitor_inv m'"
proof -
  have r: "recordSet m" using assms(2) by (auto simp: pushAER_def isRecording_def split: if_splits)
  from pushAER_store_only[OF assms(2)] obtain v where
    "m' = m\<lparr>spkVector := v\<rparr>" "length v = length (spkVector m)"
    by metis
  then show ?thesis using assms(1) r by (simp add: monitor_inv_def)
qed

lemma pushAll_inv:
  "monitor_inv m \<Longrightarrow> pushAll es m = Inr m' \<Longrightarrow> monitor_inv m'"
proof (induction es arbitrary: m)
  case Nil
  then show ?case by simp
next
  case (Cons e es)
  obtain t i where e: "e = (t, i)" by (cases e)
  from Cons.prems e obtain m1 where
    1: "pushAER t i m = Inr m1" and 2: "pushAll es m1 = Inr m'"
    by (auto split: sum.splits)
  from pushAER_inv[OF Cons.prems(1) 1] Cons.IH[OF _ 2] show ?case by simp
qed

lemma updateSpikeMonitor_inv:
  "monitor_inv m \<Longrightarrow> updateSpikeMonitor es m = Inr m' \<Longrightarrow> monitor_inv m'"
  using pushAll_inv[of m es m'] by (auto simp: updateSpikeMonitor_def split: if_splits)

section \<open>Starting and stopping a recording\<close>

lemma startRecording_persistent:
  assumes "\<not> recordSet m" "persistentData m"
  shows "startRecording now buffered m =
    Inr (m\<lparr>needToCalculateFiringRates := True, needToSortFiringRates := True,
           recordSet := True,
           startTime := (if startTime m < 0 then now else startTime m),
           startTimeLast := now,
           accumTime := (if totalTime m > 0 then totalTime m else 0)\<rparr>)"
  using assms updateSpikeMonitor_idle[of m buffered]
  by (simp add: startRecording_def isRecording_def Let_def)

lemma startRecording_snapshot:
  assumes "\<not> recordSet m" "\<not> persistentData m" "length (spkVector m) = nat (nNeurons m)"
  shows "startRecording now buffered m =
    Inr (m\<lparr>recordSet := True, startTime := now, startTimeLast := now, stopTime := -1,
           accumTime := 0, totalTime := -1, spkVector := replicate (nat (nNeurons m)) [],
           needToCalculateFiringRates := True, needToSortFiringRates := True,
           firingRates := replicate (nat (nNeurons m)) 0,
           firingRatesSorted := replicate (nat (nNeurons m)) 0\<rparr>)"
proof -
  let ?m1 = "m\<lparr>recordSet := False, startTime := -1, startTimeLast := -1, stopTime := -1,
           accumTime := 0, totalTime := -1, spkVector := replicate (nat (nNeurons m)) [],
           needToCalculateFiringRates := True, needToSortFiringRates := True,
           firingRates := replicate (nat (nNeurons m)) 0,
           firingRatesSorted := replicate (nat (nNeurons m)) 0\<rparr>"
  have c: "clear m = Inr ?m1" using clear_ok[OF assms(1,3)] .
  have u: "updateSpikeMonitor buffered ?m1 = Inr ?m1"
    by (rule updateSpikeMonitor_idle) simp
  show ?thesis using assms(1,2) c u
    by (simp add: startRecording_def isRecording_def Let_def)
qed

lemma startRecording_inv:
  assumes "monitor_inv m" "\<not> recordSet m"
  shows "\<exists>m'. startRecording now buffered m = Inr m' \<and> monitor_inv m' \<and> recordSet m' \<and>
           startTime m' = (if persistentData m \<and> 0 \<le> startTime m then startTime m else now) \<and>
           startTimeLast m' = now \<and> 0 \<le> accumTime m'"
proof (cases "persistentData m")
  case True
  show ?thesis
    using startRecording_persistent[OF assms(2) True, of now buffered] assms(1) True
    by (auto simp: monitor_inv_def)
next
  case False
  have len: "length (spkVector m) = nat (nNeurons m)" using assms(1) by (simp add: monitor_inv_def)
  show ?thesis
    using startRecording_snapshot[OF assms(2) False len, of now buffered] assms(1) False
    by (auto simp: monitor_inv_def)
qed

lemma stopRecording_ok:
  assumes rec: "recordSet m" and st: "0 \<le> startTime m" "0 \<le> startTimeLast m" "0 \<le> accumTime m"
    and u: "updateSpikeMonitor buffered m = Inr m1"
  shows "stopRecording now buffered m =
    (if 0 \<le> now - startTimeLast m + accumTime m
     then Inr (m1\<lparr>recordSet := False, stopTime := now,
                  totalTime := now - startTimeLast m + accumTime m\<rparr>)
     else Inl AssertionFailed)"
proof -
  from updateSpikeMonitor_store_only[OF u] obtain v where m1: "m1 = m\<lparr>spkVector := v\<rparr>"
    by metis
  have t: "startTimeLast m1 = startTimeLast m" "accumTime m1 = accumTime m"
    using m1 by simp_all
  show ?thesis using rec st u t
    by (simp add: stopRecording_def isRecording_def Let_def)
qed

lemma stopRecording_inv:
  assumes "monitor_inv m" "stopRecording now buffered m = Inr m'"
  shows "monitor_inv m' \<and> \<not> recordSet m' \<and> 0 \<le> totalTime m'"
proof -
  have rec: "recordSet m"
    using assms(2) by (auto simp: stopRecording_def isRecording_def split: if_splits)
  have st: "0 \<le> startTime m" "0 \<le> startTimeLast m" "0 \<le> accumTime m"
    using assms(2) by (auto simp: stopRecording_def split: if_splits)
  obtain m1 where u: "updateSpikeMonitor buffered m = Inr m1"
    using assms(2) rec st by (auto simp: stopRecording_def isRecording_def split: if_splits sum.splits)
  have inv1: "monitor_inv m1" using updateSpikeMonitor_inv[OF assms(1) u] .
  from updateSpikeMonitor_store_only[OF u] obtain v where m1: "m1 = m\<lparr>spkVector := v\<rparr>"
    by metis
  have rec1: "recordSet m1" using m1 rec by simp
  have m': "m' = m1\<lparr>recordSet := False, stopTime := now,
                  totalTime := now - startTimeLast m + accumTime m\<rparr>"
    and nn: "0 \<le> now - startTimeLast m + accumTime m"
    using assms(2) stopRecording_ok[OF rec st u, of now] by (auto split: if_splits)
  show ?thesis using inv1 rec1 m' nn by (simp add: monitor_inv_def)
qed

lemma twoWindows_ok:
  assumes n: "0 < n" and t0: "0 \<le> t0" and t1: "0 \<le> t1"
    and l1: "length ev1 = 2" and l2: "length ev2 = 3"
    and ids: "\<forall>e\<in>set (ev1 @ ev2). 0 \<le> snd e \<and> snd e < n"
  shows "\<exists>m. twoWindows n t0 ev1 t1 ev2 = Inr m \<and> \<not> recordSet m \<and> totalTime m = 1000 \<and>
           startTime m = t0 \<and> getPopNumSpikes m = Inr 5"
proof -
  from init_fields[OF n] obtain m0 where
    m0: "init n = Inr m0" "mode m0 = AER" "\<not> recordSet m0" "nNeurons m0 = n"
      "spkVector m0 = replicate (nat n) []" "totalTime m0 = -1" "startTime m0 = -1"
    by blast
  let ?mp = "setPersistentData True m0"
  let ?m1 = "?mp\<lparr>needToCalculateFiringRates := True, needToSortFiringRates := True,
           recordSet := True, startTime := t0, startTimeLast := t0, accumTime := 0\<rparr>"
  have aer: "mode m0 = AER" using m0(2) .
  have s1: "startRecording t0 [] ?mp = Inr ?m1"
    using startRecording_persistent[of ?mp t0 "[]"] m0 by (simp add: setPersistentData_def)
  have len1: "length (spkVector ?m1) = nat n" using m0(5) by (simp add: setPersistentData_def)
  have b1: "\<forall>e\<in>set ev1. 0 \<le> snd e \<and> nat (snd e) < length (spkVector ?m1)"
    using ids len1 by auto
  have r1: "recordSet ?m1" "mode ?m1 = AER" using aer by (simp_all add: setPersistentData_def)
  from pushAll_ok[OF r1 b1] obtain m2 where
    m2: "pushAll ev1 ?m1 = Inr m2" "m2 = ?m1\<lparr>spkVector := spkVector m2\<rparr>"
      "length (spkVector m2) = length (spkVector ?m1)"
      "(\<Sum>x\<leftarrow>spkVector m2. int (length x)) =
         (\<Sum>x\<leftarrow>spkVector ?m1. int (length x)) + int (length ev1)"
    by blast
  obtain v2 where v2: "m2 = ?m1\<lparr>spkVector := v2\<rparr>" using m2(2) by metis
  have c2: "(\<Sum>x\<leftarrow>spkVector m2. int (length x)) = 2"
    using m2(4) l1 m0(5) by (simp add: setPersistentData_def sum_list_replicate)
  have f2: "recordSet m2" "startTime m2 = t0" "startTimeLast m2 = t0" "accumTime m2 = 0"
    "persistentData m2" "mode m2 = AER" "nNeurons m2 = n"
    using v2 aer m0(4) by (simp_all add: setPersistentData_def)
  have u2: "updateSpikeMonitor [] m2 = Inr m2" by (simp add: updateSpikeMonitor_def)
  let ?m3 = "m2\<lparr>recordSet := False, stopTime := t0 + 500, totalTime := 500\<rparr>"
  have s3: "stopRecording (t0 + 500) [] m2 = Inr ?m3"
    using stopRecording_ok[OF f2(1) _ _ _ u2, of "t0 + 500"] f2 t0 by simp
  let ?m4 = "?m3\<lparr>needToCalculateFiringRates := True, needToSortFiringRates := True,
           recordSet := True, startTime := t0, startTimeLast := t1, accumTime := 500\<rparr>"
  have s4: "startRecording t1 [] ?m3 = Inr ?m4"
    using startRecording_persistent[of ?m3 t1 "[]"] f2 t0 by simp
  have len4: "length (spkVector ?m4) = nat n" using m2(3) len1 by simp
  have b4: "\<forall>e\<in>set ev2. 0 \<le> snd e \<and> nat (snd e) < length (spkVector ?m4)"
    using ids len4 by auto
  have r4: "recordSet ?m4" "mode ?m4 = AER" using f2 by simp_all
  from pushAll_ok[OF r4 b4] obtain m5 where
    m5: "pushAll ev2 ?m4 = Inr m5" "m5 = ?m4\<lparr>spkVector := spkVector m5\<rparr>"
      "length (spkVector m5) = length (spkVector ?m4)"
      "(\<Sum>x\<leftarrow>spkVector m5. int (length x)) =
         (\<Sum>x\<leftarrow>spkVector ?m4. int (length x)) + int (length ev2)"
    by blast
  obtain v5 where v5: "m5 = ?m4\<lparr>spkVector := v5\<rparr>" using m5(2) by metis
  have c5: "(\<Sum>x\<leftarrow>spkVector m5. int (length x)) = 5"
    using m5(4) l2 c2 by simp
  have f5: "recordSet m5" "startTime m5 = t0" "startTimeLast m5 = t1" "accumTime m5 = 500"
    "mode m5 = AER" "nNeurons m5 = n"
    using v5 f2 by simp_all
  have u5: "updateSpikeMonitor [] m5 = Inr m5" by (simp add: updateSpikeMonitor_def)
  let ?m6 = "m5\<lparr>recordSet := False, stopTime := t1 + 500, totalTime := 1000\<rparr>"
  have s6: "stopRecording (t1 + 500) [] m5 = Inr ?m6"
    using stopRecording_ok[OF f5(1) _ _ _ u5, of "t1 + 500"] f5 t0 t1 by simp
  have len6: "length (spkVector ?m6) = nat (nNeurons ?m6)"
    using m5(3) len4 f5 by simp
  have p: "getPopNumSpikes ?m6 = Inr 5"
    using getPopNumSpikes_sum[of ?m6] len6 f5 c5 by simp
  have "twoWindows n t0 ev1 t1 ev2 = Inr ?m6"
    using m0(1) s1 m2(1) s3 s4 m5(1) s6 by (simp add: twoWindows_def andThen_def)
  then show ?thesis using p f5 by simp
qed

section \<open>The queries in closed form\<close>

lemma settled_frame:
  assumes "only_caches_differ m m'" "\<not> recordSet m" "0 \<le> totalTime m"
  shows "\<not> recordSet m' \<and> 0 \<le> totalTime m' \<and> totalTime m' = totalTime m \<and>
         nNeurons m' = nNeurons m \<and> expectedRates m' = expectedRates m"
  using assms expectedRates_frame[OF assms(1)] by (simp add: only_caches_differ_def)

lemma getAllFiringRates_ok:
  assumes inv: "monitor_inv m" and idle: "\<not> recordSet m" and t: "0 \<le> totalTime m"
  shows "\<exists>m' w'. getAllFiringRates m w = Inr (expectedRates m, m', w') \<and>
           monitor_inv m' \<and> only_caches_differ m m'"
proof -
  from calculateFiringRates_ok[OF inv idle t, of w] obtain m' w' where
    c: "calculateFiringRates m w = Inr (m', w')" "firingRates m' = expectedRates m"
      "monitor_inv m'"
    by blast
  have "getAllFiringRates m w = Inr (expectedRates m, m', w')"
    using idle c by (simp add: getAllFiringRates_def isRecording_def)
  then show ?thesis using c(3) calculateFiringRates_frame[OF c(1)] by blast
qed

lemma getAllFiringRatesSorted_ok:
  assumes inv: "monitor_inv m" and idle: "\<not> recordSet m" and t: "0 \<le> totalTime m"
  shows "\<exists>m' w'. getAllFiringRatesSorted m w = Inr (sort (expectedRates m), m', w') \<and>
           monitor_inv m' \<and> only_caches_differ m m'"
proof -
  from sortFiringRates_ok[OF inv idle t, of w] obtain m' w' where
    c: "sortFiringRates m w = Inr (m', w')" "firingRatesSorted m' = sort (expectedRates m)"
      "monitor_inv m'"
    by blast
  have "getAllFiringRatesSorted m w = Inr (sort (expectedRates m), m', w')"
    using idle c by (simp add: getAllFiringRatesSorted_def isRecording_def)
  then show ?thesis using c(3) sortFiringRates_frame[OF c(1)] by blast
qed

lemma expectedRates_nonempty: "monitor_inv m \<Longrightarrow> expectedRates m \<noteq> []"
proof -
  assume "monitor_inv m"
  then have "0 < length (spkVector m)" by (simp add: monitor_inv_def)
  then show ?thesis by (simp add: expectedRates_def)
qed

lemma last_sort_Max: "xs \<noteq> [] \<Longrightarrow> last (sort xs) = Max (set (xs::real list))"
proof -
  assume ne: "xs \<noteq> []"
  let ?s = "sort xs"
  have sne: "?s \<noteq> []" using ne by (metis length_0_conv length_sort)
  have mem: "last ?s \<in> set xs" using last_in_set[OF sne] by simp
  have ub: "\<forall>y\<in>set xs. y \<le> last ?s"
  proof
    fix y assume "y \<in> set xs"
    then have "y \<in> set ?s" by simp
    then obtain i where i: "i < length ?s" "?s ! i = y" by (metis in_set_conv_nth)
    have "?s ! i \<le> ?s ! (length ?s - 1)"
      using sorted_nth_mono[OF sorted_sort, of i "length ?s - 1" xs] i(1) by simp
    then show "y \<le> last ?s" using i(2) sne by (simp add: last_conv_nth)
  qed
  show ?thesis using Max_eqI[of "set xs" "last ?s"] mem ub by simp
qed

lemma hd_sort_Min: "xs \<noteq> [] \<Longrightarrow> hd (sort xs) = Min (set (xs::real list))"
proof -
  assume ne: "xs \<noteq> []"
  let ?s = "sort xs"
  have sne: "?s \<noteq> []" using ne by (metis length_0_conv length_sort)
  have mem: "hd ?s \<in> set xs" using hd_in_set[OF sne] by simp
  have lb: "\<forall>y\<in>set xs. hd ?s \<le> y"
  proof
    fix y assume "y \<in> set xs"
    then have "y \<in> set ?s" by simp
    then obtain i where i: "i < length ?s" "?s ! i = y" by (metis in_set_conv_nth)
    have "?s ! 0 \<le> ?s ! i"
      using sorted_nth_mono[OF sorted_sort, of 0 i xs] i(1) by simp
    then show "hd ?s \<le> y" using i(2) sne by (simp add: hd_conv_nth)
  qed
  show ?thesis using Min_eqI[of "set xs" "hd ?s"] mem lb by simp
qed

lemma getMaxFiringRate_ok:
  assumes inv: "monitor_inv m" and idle: "\<not> recordSet m" and t: "0 \<le> totalTime m"
  shows "\<exists>m' w'. getMaxFiringRate m w = Inr (Max (set (expectedRates m)), m', w') \<and>
           monitor_inv m' \<and> only_caches_differ m m'"
proof -
  from getAllFiringRatesSorted_ok[OF inv idle t, of w] obtain m' w' where
    c: "getAllFiringRatesSorted m w = Inr (sort (expectedRates m), m', w')"
      "monitor_inv m'" "only_caches_differ m m'"
    by blast
  have ne: "expectedRates m \<noteq> []" using expectedRates_nonempty[OF inv] .
  then have sne: "sort (expectedRates m) \<noteq> []" by (metis length_0_conv length_sort)
  have "getMaxFiringRate m w = Inr (Max (set (expectedRates m)), m', w')"
    using idle c(1) sne last_sort_Max[OF ne] by (simp add: getMaxFiringRate_def isRecording_def)
  then show ?thesis using c by blast
qed

lemma getMinFiringRate_ok:
  assumes inv: "monitor_inv m" and idle: "\<not> recordSet m" and t: "0 \<le> totalTime m"
  shows "\<exists>m' w'. getMinFiringRate m w = Inr (Min (set (expectedRates m)), m', w') \<and>
           monitor_inv m' \<and> only_caches_differ m m'"
proof -
  from getAllFiringRatesSorted_ok[OF inv idle t, of w] obtain m' w' where
    c: "getAllFiringRatesSorted m w = Inr (sort (expectedRates m), m', w')"
      "monitor_inv m'" "only_caches_differ m m'"
    by blast
  have ne: "expectedRates m \<noteq> []" using expectedRates_nonempty[OF inv] .
  then have sne: "sort (expectedRates m) \<noteq> []" by (metis length_0_conv length_sort)
  have "getMinFiringRate m w = Inr (Min (set (expectedRates m)), m', w')"
    using idle c(1) sne hd_sort_Min[OF ne] by (simp add: getMinFiringRate_def isRecording_def)
  then show ?thesis using c by blast
qed

lemma length_filter_sort:
  "length (filter P (sort xs)) = length (filter P (xs::real list))"
proof -
  have "mset (filter P (sort xs)) = mset (filter P xs)" by simp
  then show ?thesis by (metis size_mset)
qed

lemma getNumNeuronsWithFiringRate_ok:
  assumes inv: "monitor_inv m" and idle: "\<not> recordSet m" and t: "0 \<le> totalTime m"
    and r: "0 \<le> mn" "mn \<le> mx"
  shows "\<exists>m' w'. getNumNeuronsWithFiringRate mn mx m w =
             Inr (int (length (filter (\<lambda>r. mn \<le> r \<and> r \<le> mx) (expectedRates m))), m', w') \<and>
           monitor_inv m' \<and> only_caches_differ m m'"
proof -
  from sortFiringRates_ok[OF inv idle t, of w] obtain m' w' where
    c: "sortFiringRates m w = Inr (m', w')" "firingRatesSorted m' = sort (expectedRates m)"
      "monitor_inv m'"
    by blast
  have "getNumNeuronsWithFiringRate mn mx m w =
          Inr (int (length (filter (\<lambda>r. mn \<le> r \<and> r \<le> mx) (expectedRates m))), m', w')"
    using idle r c(1,2)
    by (simp add: getNumNeuronsWithFiringRate_def isRecording_def countLoop_filter
        length_filter_sort)
  then show ?thesis using c(3) sortFiringRates_frame[OF c(1)] by blast
qed

lemma expectedRates_idle3: "expectedRates idle3 = [0, 4, 2]"
  by (simp add: expectedRates_def neuronRate_def idle3_def fp_eval)

lemma expectedRates_third3: "expectedRates third3 = [1, 0, 0]"
  by (simp add: expectedRates_def neuronRate_def third3_def fp_eval)

lemma expectedRates_sparse3: "expectedRates sparse3 = [10922667 / 32768, 0, 0]"
  by (simp add: expectedRates_def neuronRate_def third3_def sparse3_def fp_eval)

lemma expectedRates_pair2: "expectedRates pair2 = [1, 0]"
  by (simp add: expectedRates_def neuronRate_def pair2_def fp_eval)

section \<open>Counts of neurons in a range of rates\<close>

lemma unset_dirty:
  assumes "monitor_inv m" "\<not> recordSet m" "totalTime m < 0"
  shows "needToCalculateFiringRates m \<and> needToSortFiringRates m \<and> mode m = AER"
  using assms by (auto simp: monitor_inv_def split: if_splits)

lemma getAllFiringRates_unset:
  assumes "monitor_inv m" "\<not> recordSet m" "totalTime m < 0"
  shows "getAllFiringRates m w = Inl AssertionFailed"
  using unset_dirty[OF assms] calculateFiringRates_unset[of m w] assms(2,3)
  by (simp add: getAllFiringRates_def isRecording_def)

lemma sortFiringRates_unset_idle:
  assumes "monitor_inv m" "\<not> recordSet m" "totalTime m < 0"
  shows "sortFiringRates m w = Inl AssertionFailed"
  using unset_dirty[OF assms] sortFiringRates_unset[of m w] assms by simp

lemma getAllFiringRatesSorted_unset:
  assumes "monitor_inv m" "\<not> recordSet m" "totalTime m < 0"
  shows "getAllFiringRatesSorted m w = Inl AssertionFailed"
  using sortFiringRates_unset_idle[OF assms, of w] assms(2)
  by (simp add: getAllFiringRatesSorted_def isRecording_def)

lemma getNumNeuronsWithFiringRate_unset:
  assumes "monitor_inv m" "\<not> recordSet m" "totalTime m < 0"
  shows "getNumNeuronsWithFiringRate mn mx m w = Inl AssertionFailed"
  using sortFiringRates_unset_idle[OF assms, of w] assms(2)
  by (simp add: getNumNeuronsWithFiringRate_def isRecording_def)

lemma getNumSilentNeurons_eq:
  "\<not> recordSet m \<Longrightarrow> getNumSilentNeurons m w = getNumNeuronsWithFiringRate 0 0 m w"
  by (simp add: getNumSilentNeurons_def isRecording_def)

lemma getPercentSilentNeurons_ok:
  assumes inv: "monitor_inv m" and idle: "\<not> recordSet m"
    and c: "getNumNeuronsWithFiringRate 0 0 m w = Inr (z, m', w')"
  shows "getPercentSilentNeurons m w =
     Inr (toFloat (toDouble (toDouble (toDouble (of_int z) * 100) / toDouble (of_int (nNeurons m)))),
          m', w')"
proof -
  obtain s where s: "sortFiringRates m w = Inr (s, w')" and m': "m' = s"
    using c idle
    by (auto simp: getNumNeuronsWithFiringRate_def isRecording_def split: if_splits sum.splits)
  have n: "nNeurons m' = nNeurons m"
    using sortFiringRates_frame[OF s] m' by (simp add: only_caches_differ_def)
  have "nNeurons m \<noteq> 0" using inv by (simp add: monitor_inv_def)
  then have "toDouble (of_int (nNeurons m)) \<noteq> 0" by (rule toDouble_int_nonzero)
  then show ?thesis using idle c n
    by (simp add: getPercentSilentNeurons_def isRecording_def ddiv_def)
qed

section \<open>The population standard deviation in closed form\<close>

lemma getPopMeanFiringRate_ok:
  assumes inv: "monitor_inv m" and idle: "\<not> recordSet m"
    and range: "LONG_MIN \<le> totalTime m * nNeurons m" "totalTime m * nNeurons m \<le> LONG_MAX"
  shows "getPopMeanFiringRate m =
     Inr (if totalTime m = 0 then 0
          else toFloat (toDouble (toDouble (toDouble (of_int (\<Sum>v\<leftarrow>spkVector m. int (length v))) * 1000) /
                 toDouble (of_int (totalTime m * nNeurons m)))))"
proof (cases "totalTime m = 0")
  case True
  then show ?thesis using idle by (simp add: getPopMeanFiringRate_def isRecording_def)
next
  case False
  have n: "0 < nNeurons m" and len: "length (spkVector m) = nat (nNeurons m)"
    and aer: "mode m = AER"
    using inv by (simp_all add: monitor_inv_def)
  have "totalTime m * nNeurons m \<noteq> 0" using False n by simp
  then have d: "toDouble (of_int (totalTime m * nNeurons m)) \<noteq> 0" by (rule toDouble_int_nonzero)
  have l: "lmul (totalTime m) (nNeurons m) = Inr (totalTime m * nNeurons m)"
    using range by (simp add: lmul_def)
  show ?thesis
    using idle False d l getPopNumSpikes_sum[OF idle aer len]
    by (simp add: getPopMeanFiringRate_def isRecording_def getRecordingTotalTime_def ddiv_def)
qed


lemma getPopMeanFiringRate_unset:
  assumes inv: "monitor_inv m" and idle: "\<not> recordSet m" and t: "totalTime m = -1"
    and e: "spkVector m = replicate (nat (nNeurons m)) []"
  shows "getPopMeanFiringRate m = Inr 0"
proof -
  have n: "0 < nNeurons m" "nNeurons m \<le> INT_MAX" using inv by (simp_all add: monitor_inv_def)
  have r: "LONG_MIN \<le> totalTime m * nNeurons m" "totalTime m * nNeurons m \<le> LONG_MAX"
    using n t by (simp_all add: INT_MAX_def LONG_MIN_def LONG_MAX_def)
  have s: "(\<Sum>v\<leftarrow>spkVector m. int (length v)) = 0" using e by (simp add: sum_list_replicate)
  show ?thesis
    using getPopMeanFiringRate_ok[OF inv idle r] t s by (simp add: toDouble_zero toFloat_zero)
qed

lemma getPopMeanFiringRate_returns:
  assumes inv: "monitor_inv m" and idle: "\<not> recordSet m"
    and range: "LONG_MIN \<le> totalTime m * nNeurons m" "totalTime m * nNeurons m \<le> LONG_MAX"
  shows "\<exists>mu. getPopMeanFiringRate m = Inr mu"
  using getPopMeanFiringRate_ok[OF inv idle range] by simp

lemma addSquare_nonneg: "0 \<le> acc \<Longrightarrow> 0 \<le> addSquare mu acc r"
proof -
  assume a: "0 \<le> acc"
  have "0 \<le> toFloat (toFloat (r - mu) * toFloat (r - mu))"
    by (intro toFloat_nonneg) simp
  then have "0 \<le> acc + toFloat (toFloat (r - mu) * toFloat (r - mu))" using a by simp
  then show ?thesis unfolding addSquare_def by (rule toFloat_nonneg)
qed

lemma foldl_addSquare_nonneg: "0 \<le> acc \<Longrightarrow> 0 \<le> foldl (addSquare mu) acc rs"
  by (induction rs arbitrary: acc) (simp_all add: addSquare_nonneg)

lemma foldl_addSquare_zero: "foldl (addSquare 0) 0 (replicate k 0) = 0"
  by (induction k) (simp_all add: addSquare_def toFloat_zero)

lemma std_tail:
  assumes n: "1 < n" and s: "0 \<le> s"
  shows "fdivf s (toFloat (of_int (n - 1))) = Inr (toFloat (s / toFloat (of_int (n - 1))))"
    and "fsqrtf (toFloat (s / toFloat (of_int (n - 1)))) =
           Inr (toFloat (sqrt (toFloat (s / toFloat (of_int (n - 1))))))"
proof -
  have p: "0 < toFloat (of_int (n - 1))" using n by (intro toFloat_int_pos) simp
  then show "fdivf s (toFloat (of_int (n - 1))) = Inr (toFloat (s / toFloat (of_int (n - 1))))"
    by (simp add: fdivf_def)
  have "0 \<le> s / toFloat (of_int (n - 1))" using p s by simp
  then have "0 \<le> toFloat (s / toFloat (of_int (n - 1)))" by (rule toFloat_nonneg)
  then show "fsqrtf (toFloat (s / toFloat (of_int (n - 1)))) =
           Inr (toFloat (sqrt (toFloat (s / toFloat (of_int (n - 1))))))"
    by (simp add: fsqrtf_def)
qed

lemma getPopStdFiringRate_ok:
  assumes inv: "monitor_inv m" and idle: "\<not> recordSet m" and t: "0 \<le> totalTime m"
    and mu: "getPopMeanFiringRate m = Inr mu"
  shows "\<exists>m' w'. getPopStdFiringRate m w =
           Inr ((if 1 < nNeurons m
                 then toFloat (sqrt (toFloat (foldl (addSquare mu) 0 (expectedRates m) /
                        toFloat (of_int (nNeurons m - 1)))))
                 else 0), m', w') \<and>
           monitor_inv m' \<and> only_caches_differ m m'"
proof (cases "totalTime m = 0")
  case True
  have mu0: "mu = 0" using mu idle True by (simp add: getPopMeanFiringRate_def isRecording_def)
  have "expectedRates m = replicate (length (spkVector m)) 0"
    using expectedRates_zero[OF True] .
  then have "foldl (addSquare mu) 0 (expectedRates m) = 0"
    using mu0 by (simp add: foldl_addSquare_zero)
  then have v: "(if 1 < nNeurons m
                 then toFloat (sqrt (toFloat (foldl (addSquare mu) 0 (expectedRates m) /
                        toFloat (of_int (nNeurons m - 1)))))
                 else 0) = 0"
    by (simp add: toFloat_zero)
  have "getPopStdFiringRate m w = Inr (0, m, w)"
    using idle True by (simp add: getPopStdFiringRate_def isRecording_def)
  then show ?thesis using v inv only_caches_differ_refl[of m] by auto
next
  case False
  from getAllFiringRates_ok[OF inv idle t, of w] obtain m' w' where
    a: "getAllFiringRates m w = Inr (expectedRates m, m', w')" "monitor_inv m'"
      "only_caches_differ m m'"
    by blast
  have n': "nNeurons m' = nNeurons m" using a(3) by (simp add: only_caches_differ_def)
  have len: "length (expectedRates m) = nat (nNeurons m)"
    using inv by (simp add: length_expectedRates monitor_inv_def)
  have l: "stdLoop [0..<nat (nNeurons m)] (expectedRates m) mu 0 =
             Inr (foldl (addSquare mu) 0 (expectedRates m))"
    using stdLoop_upt[OF len, of mu] .
  have s: "0 \<le> foldl (addSquare mu) 0 (expectedRates m)"
    by (rule foldl_addSquare_nonneg) simp
  have "getPopStdFiringRate m w =
           Inr ((if 1 < nNeurons m
                 then toFloat (sqrt (toFloat (foldl (addSquare mu) 0 (expectedRates m) /
                        toFloat (of_int (nNeurons m - 1)))))
                 else 0), m', w')"
  proof (cases "1 < nNeurons m")
    case True
    show ?thesis
      using idle False mu a(1) n' l True std_tail[OF True s]
      by (simp add: getPopStdFiringRate_def isRecording_def)
  next
    case one: False
    show ?thesis
      using idle False mu a(1) n' one by (simp add: getPopStdFiringRate_def isRecording_def)
  qed
  then show ?thesis using a(2,3) by blast
qed

lemma getPopStdFiringRate_unset:
  assumes inv: "monitor_inv m" and idle: "\<not> recordSet m" and t: "totalTime m < 0"
    and range: "LONG_MIN \<le> totalTime m * nNeurons m"
  shows "getPopStdFiringRate m w = Inl AssertionFailed"
proof -
  have "0 < nNeurons m" using inv by (simp add: monitor_inv_def)
  then have "totalTime m * nNeurons m \<le> 0" using t by (simp add: mult_le_0_iff)
  then have "totalTime m * nNeurons m \<le> LONG_MAX" by (simp add: LONG_MAX_def)
  from getPopMeanFiringRate_returns[OF inv idle range this] obtain mu where
    "getPopMeanFiringRate m = Inr mu"
    by blast
  then show ?thesis
    using idle t getAllFiringRates_unset[OF inv idle t, of w]
    by (simp add: getPopStdFiringRate_def isRecording_def)
qed

lemma unset_in_range:
  assumes "monitor_inv m" "totalTime m = -1"
  shows "LONG_MIN \<le> totalTime m * nNeurons m"
  using assms by (simp add: monitor_inv_def INT_MAX_def LONG_MIN_def)

lemma toFloat_one: "toFloat 1 = 1"
  by (simp add: fp_eval)

lemma sqrt_half_bounds: "11863283 / 16777216 - 1 / 33554432 < sqrt (1 / 2)"
    "sqrt (1 / 2) < 11863283 / 16777216 + 1 / 33554432"
proof -
  have "(11863283 / 16777216 - 1 / 33554432)\<^sup>2 < (1 / 2 :: real)" by (simp add: power2_eq_square)
  then show "11863283 / 16777216 - 1 / 33554432 < sqrt (1 / 2)"
    by (intro real_less_rsqrt) simp
  have "(1 / 2 :: real) < (11863283 / 16777216 + 1 / 33554432)\<^sup>2" by (simp add: power2_eq_square)
  then show "sqrt (1 / 2) < 11863283 / 16777216 + 1 / 33554432"
    by (intro real_less_lsqrt) simp_all
qed

lemma toFloat_sqrt_half: "toFloat (sqrt (1 / 2)) = 11863283 / 16777216"
proof -
  define x where "x = sqrt (1 / 2)"
  have b: "11863283 / 16777216 - 1 / 33554432 < x" "x < 11863283 / 16777216 + 1 / 33554432"
    using sqrt_half_bounds by (simp_all add: x_def)
  have x: "0 < x" "x < 1" "1 \<le> 2 * x" using b by simp_all
  have "expDown (2 * x) = 0" using x by (simp add: expDown.simps)
  then have "expDown x = - 1" using x expDown.simps[of x] by simp
  then have e: "expo x = - 1" using x by (simp add: expo_def)
  have q: "quantum 24 (- 126) x = 1 / 16777216" by (simp add: quantum_def e pow2_def)
  have "rne (x / (1 / 16777216)) = 11863283"
    using b by (intro rne_eqI) simp_all
  then have "roundTo 24 (- 126) x = 11863283 / 16777216"
    using x by (simp add: roundTo_def q)
  then show ?thesis by (simp add: toFloat_def x_def)
qed

section \<open>Binding a sink and writing the header\<close>

lemma writeSpikeFileHeader_noop:
  "\<not> needToWriteFileHeader m \<Longrightarrow> writeSpikeFileHeader m w = Inr (m, w)"
  by (simp add: writeSpikeFileHeader_def)

lemma writeSpikeFileHeader_writes:
  assumes "needToWriteFileHeader m" "spikeFileId m = Some k" "\<not> writeFails w k"
  shows "writeSpikeFileHeader m w =
    Inr (m\<lparr>needToWriteFileHeader := False\<rparr>,
         w\<lparr>fileData := (fileData w)
              (k := fileData w k @ [IntEntry (spikeFileSignature m), FloatEntry (spikeFileVersion m)])\<rparr>)"
  using assms by (simp add: writeSpikeFileHeader_def fwrite_def Let_def)

lemma setSpikeFileId_binds:
  assumes "\<not> recordSet m" "\<not> writeFails w k"
  shows "\<exists>w'. setSpikeFileId (Some k) m w =
           Inr (m\<lparr>spikeFileId := Some k, needToWriteFileHeader := False\<rparr>, w') \<and>
         fileData w' = (fileData w)
            (k := fileData w k @ [IntEntry (spikeFileSignature m), FloatEntry (spikeFileVersion m)]) \<and>
         writeFails w' = writeFails w \<and>
         diag w' = (if spikeFileId m \<noteq> None
            then diag w @ [(LogError, ''SpikeMonitorCore: setSpikeFileId has already been called.'')]
            else diag w)"
proof -
  let ?w1 = "if spikeFileId m \<noteq> None
     then CARLSIM_ERROR ''SpikeMonitorCore: setSpikeFileId has already been called.'' w else w"
  let ?m2 = "m\<lparr>spikeFileId := Some k, needToWriteFileHeader := True\<rparr>"
  have nf: "\<not> writeFails ?w1 k" using assms(2) by (simp add: CARLSIM_ERROR_def)
  have s: "setSpikeFileId (Some k) m w = writeSpikeFileHeader ?m2 ?w1"
    using assms(1) by (simp add: setSpikeFileId_def isRecording_def Let_def)
  have "writeSpikeFileHeader ?m2 ?w1 =
    Inr (?m2\<lparr>needToWriteFileHeader := False\<rparr>,
         ?w1\<lparr>fileData := (fileData ?w1)
              (k := fileData ?w1 k @ [IntEntry (spikeFileSignature ?m2), FloatEntry (spikeFileVersion ?m2)])\<rparr>)"
    by (rule writeSpikeFileHeader_writes[OF _ _ nf]) simp_all
  with s show ?thesis by (simp add: CARLSIM_ERROR_def)
qed

section \<open>The object invariant\<close>

lemma query_returns_settled:
  assumes inv: "monitor_inv m" and idle: "\<not> recordSet m"
    and r: "sortFiringRates m w = Inr (m', w') \<or> calculateFiringRates m w = Inr (m', w')"
  shows "monitor_inv m'"
proof (cases "0 \<le> totalTime m")
  case True
  show ?thesis
    using r calculateFiringRates_ok[OF inv idle True, of w] sortFiringRates_ok[OF inv idle True, of w]
    by auto
next
  case False
  then have t: "totalTime m < 0" by simp
  have "calculateFiringRates m w = Inl AssertionFailed"
    using calculateFiringRates_unset[of m w] unset_dirty[OF inv idle t] t by simp
  moreover have "sortFiringRates m w = Inl AssertionFailed"
    using sortFiringRates_unset_idle[OF inv idle t] .
  ultimately show ?thesis using r by simp
qed

lemma setSpikeFileId_inv:
  assumes "monitor_inv m" "setSpikeFileId f m w = Inr (m', w')"
  shows "monitor_inv m'"
proof -
  have "m' = m\<lparr>spikeFileId := f, needToWriteFileHeader := False\<rparr>"
    using assms(2)
    by (auto simp: setSpikeFileId_def writeSpikeFileHeader_def Let_def
        split: if_splits sum.splits prod.splits)
  then show ?thesis using assms(1) by (auto simp: monitor_inv_def expectedRates_def)
qed

lemma twoSnapshotWindows_ok:
  assumes n: "0 < n" and t0: "0 \<le> t0" and t1: "0 \<le> t1"
    and l1: "length ev1 = 2" and l2: "length ev2 = 3"
    and ids: "\<forall>e\<in>set (ev1 @ ev2). 0 \<le> snd e \<and> snd e < n"
  shows "\<exists>m. twoSnapshotWindows n t0 ev1 t1 ev2 = Inr m \<and> \<not> recordSet m \<and>
           totalTime m = 500 \<and> nNeurons m = n \<and> getPopNumSpikes m = Inr 3"
proof -
  from init_fields[OF n] obtain m0 where
    m0: "init n = Inr m0" "mode m0 = AER" "\<not> recordSet m0" "nNeurons m0 = n"
      "\<not> persistentData m0" and v0: "spkVector m0 = replicate (nat n) []"
    by blast
  have aer: "mode m0 = AER" and len0: "length (spkVector m0) = nat (nNeurons m0)"
    using m0(2,4) v0 by simp_all
  let ?m1 = "m0\<lparr>recordSet := True, startTime := t0, startTimeLast := t0, stopTime := -1,
           accumTime := 0, totalTime := -1, spkVector := replicate (nat (nNeurons m0)) [],
           needToCalculateFiringRates := True, needToSortFiringRates := True,
           firingRates := replicate (nat (nNeurons m0)) 0,
           firingRatesSorted := replicate (nat (nNeurons m0)) 0\<rparr>"
  have s1: "startRecording t0 [] m0 = Inr ?m1"
    using startRecording_snapshot[OF m0(3,5) len0] .
  have b1: "\<forall>e\<in>set ev1. 0 \<le> snd e \<and> nat (snd e) < length (spkVector ?m1)"
    using ids m0(4) by auto
  have r1: "recordSet ?m1" "mode ?m1 = AER" using aer by simp_all
  from pushAll_ok[OF r1 b1] obtain m2 where
    m2: "pushAll ev1 ?m1 = Inr m2" "m2 = ?m1\<lparr>spkVector := spkVector m2\<rparr>"
      "length (spkVector m2) = length (spkVector ?m1)"
    by blast
  obtain v2 where v2: "m2 = ?m1\<lparr>spkVector := v2\<rparr>" using m2(2) by metis
  have f2: "recordSet m2" "startTime m2 = t0" "startTimeLast m2 = t0" "accumTime m2 = 0"
    "\<not> persistentData m2" "mode m2 = AER" "nNeurons m2 = n"
    using v2 aer m0(4,5) by simp_all
  have u2: "updateSpikeMonitor [] m2 = Inr m2" by (simp add: updateSpikeMonitor_def)
  let ?m3 = "m2\<lparr>recordSet := False, stopTime := t0 + 500, totalTime := 500\<rparr>"
  have s3: "stopRecording (t0 + 500) [] m2 = Inr ?m3"
    using stopRecording_ok[OF f2(1) _ _ _ u2, of "t0 + 500"] f2 t0 by simp
  have len3: "length (spkVector ?m3) = nat (nNeurons ?m3)" using m2(3) f2(7) m0(4) by simp
  let ?m4 = "?m3\<lparr>recordSet := True, startTime := t1, startTimeLast := t1, stopTime := -1,
           accumTime := 0, totalTime := -1, spkVector := replicate (nat (nNeurons ?m3)) [],
           needToCalculateFiringRates := True, needToSortFiringRates := True,
           firingRates := replicate (nat (nNeurons ?m3)) 0,
           firingRatesSorted := replicate (nat (nNeurons ?m3)) 0\<rparr>"
  have s4: "startRecording t1 [] ?m3 = Inr ?m4"
    using startRecording_snapshot[OF _ _ len3, of t1 "[]"] f2(5) by simp
  have b4: "\<forall>e\<in>set ev2. 0 \<le> snd e \<and> nat (snd e) < length (spkVector ?m4)"
    using ids f2(7) by auto
  have r4: "recordSet ?m4" "mode ?m4 = AER" using f2 by simp_all
  from pushAll_ok[OF r4 b4] obtain m5 where
    m5: "pushAll ev2 ?m4 = Inr m5" "m5 = ?m4\<lparr>spkVector := spkVector m5\<rparr>"
      "length (spkVector m5) = length (spkVector ?m4)"
      "(\<Sum>x\<leftarrow>spkVector m5. int (length x)) =
         (\<Sum>x\<leftarrow>spkVector ?m4. int (length x)) + int (length ev2)"
    by blast
  obtain v5 where v5: "m5 = ?m4\<lparr>spkVector := v5\<rparr>" using m5(2) by metis
  have c5: "(\<Sum>x\<leftarrow>spkVector m5. int (length x)) = 3"
    using m5(4) l2 by (simp add: sum_list_replicate)
  have f5: "recordSet m5" "startTime m5 = t1" "startTimeLast m5 = t1" "accumTime m5 = 0"
    "mode m5 = AER" "nNeurons m5 = n"
    using v5 f2 by simp_all
  have u5: "updateSpikeMonitor [] m5 = Inr m5" by (simp add: updateSpikeMonitor_def)
  let ?m6 = "m5\<lparr>recordSet := False, stopTime := t1 + 500, totalTime := 500\<rparr>"
  have s6: "stopRecording (t1 + 500) [] m5 = Inr ?m6"
    using stopRecording_ok[OF f5(1) _ _ _ u5, of "t1 + 500"] f5 t1 by simp
  have len6: "length (spkVector ?m6) = nat (nNeurons ?m6)"
    using m5(3) f5 f2(7) by simp
  have p: "getPopNumSpikes ?m6 = Inr 3"
    using getPopNumSpikes_sum[of ?m6] len6 f5 c5 by simp
  have "twoSnapshotWindows n t0 ev1 t1 ev2 = Inr ?m6"
    using m0(1) s1 m2(1) s3 s4 m5(1) s6 by (simp add: twoSnapshotWindows_def andThen_def)
  then show ?thesis using p f5 by simp
qed

section \<open>Queries right after clear\<close>

text \<open>
  Claim C1 has every population query succeed with all-zero statistics right after
  \<open>clear\<close>. On a cleared monitor of two neurons \<open>getAllFiringRates\<close> and
  \<open>getAllFiringRatesSorted\<close> do not return: \<open>clear\<close> has set \<open>totalTime\<close> to \<open>-1\<close> and
  marked the caches dirty, so \<open>calculateFiringRates\<close> runs and its
  \<^verbatim>\<open>assert(totalTime_>0)\<close> fails.
\<close>

theorem clear_then_query_counterexample:
  "\<not> recordSet fresh2 \<and> clear fresh2 = Inr fresh2 \<and>
   getAllFiringRates fresh2 quietWorld = Inl AssertionFailed \<and>
   getAllFiringRatesSorted fresh2 quietWorld = Inl AssertionFailed"
  using clear_fresh2
  by (simp add: getAllFiringRates_def getAllFiringRatesSorted_def sortFiringRates_def
      calculateFiringRates_def isRecording_def getMode_def fresh2_def Let_def)

text \<open>
  Claim C1, amended. On every idle monitor \<open>clear\<close> succeeds and leaves an empty spike
  store, all-zero caches and \<open>totalTime = -1\<close>; right after it \<open>getPopNumSpikes\<close> and
  \<open>getPopMeanFiringRate\<close> return \<open>0\<close>, while the queries that go through
  \<open>calculateFiringRates\<close> (\<open>getPopStdFiringRate\<close>, \<open>getAllFiringRates\<close>,
  \<open>getAllFiringRatesSorted\<close>, \<open>getNumNeuronsWithFiringRate\<close>, \<open>getNumSilentNeurons\<close>,
  \<open>getPercentSilentNeurons\<close>) end in a failed assertion.
\<close>

theorem clear_then_query:
  assumes inv: "monitor_inv m" and idle: "\<not> recordSet m"
  shows "\<exists>m'. clear m = Inr m' \<and> \<not> recordSet m' \<and> totalTime m' = -1 \<and>
           spkVector m' = replicate (nat (nNeurons m)) [] \<and>
           firingRates m' = replicate (nat (nNeurons m)) 0 \<and>
           firingRatesSorted m' = replicate (nat (nNeurons m)) 0 \<and>
           getPopNumSpikes m' = Inr 0 \<and>
           getPopMeanFiringRate m' = Inr 0 \<and>
           getPopStdFiringRate m' w = Inl AssertionFailed \<and>
           getAllFiringRates m' w = Inl AssertionFailed \<and>
           getAllFiringRatesSorted m' w = Inl AssertionFailed \<and>
           getNumNeuronsWithFiringRate mn mx m' w = Inl AssertionFailed \<and>
           getNumSilentNeurons m' w = Inl AssertionFailed \<and>
           getPercentSilentNeurons m' w = Inl AssertionFailed"
proof -
  from clear_inv[OF inv idle] obtain m' where
    c: "clear m = Inr m'" "monitor_inv m'" "\<not> recordSet m'" "totalTime m' = -1"
      "spkVector m' = replicate (nat (nNeurons m)) []"
      "firingRates m' = replicate (nat (nNeurons m)) 0"
      "firingRatesSorted m' = replicate (nat (nNeurons m)) 0"
    and n': "nNeurons m' = nNeurons m"
    by blast
  have t: "totalTime m' < 0" using c(4) by simp
  have aer: "mode m' = AER" and len: "length (spkVector m') = nat (nNeurons m')"
    using c(2) by (simp_all add: monitor_inv_def)
  have 1: "getPopNumSpikes m' = Inr 0"
    using getPopNumSpikes_sum[OF c(3) aer len] c(5) by (simp add: sum_list_replicate)
  have 2: "getPopMeanFiringRate m' = Inr 0"
    using getPopMeanFiringRate_unset[OF c(2,3,4)] c(5) n' by simp
  have 3: "getPopStdFiringRate m' w = Inl AssertionFailed"
    using getPopStdFiringRate_unset[OF c(2,3) t unset_in_range[OF c(2,4)]] .
  have 4: "getAllFiringRates m' w = Inl AssertionFailed"
    using getAllFiringRates_unset[OF c(2,3) t] .
  have 5: "getAllFiringRatesSorted m' w = Inl AssertionFailed"
    using getAllFiringRatesSorted_unset[OF c(2,3) t] .
  have 6: "getNumNeuronsWithFiringRate mn mx m' w = Inl AssertionFailed"
    using getNumNeuronsWithFiringRate_unset[OF c(2,3) t] .
  have 7: "getNumSilentNeurons m' w = Inl AssertionFailed"
    using getNumNeuronsWithFiringRate_unset[OF c(2,3) t, of 0 0 w]
      getNumSilentNeurons_eq[OF c(3), of w] by simp
  have 8: "getPercentSilentNeurons m' w = Inl AssertionFailed"
    using getNumNeuronsWithFiringRate_unset[OF c(2,3) t, of 0 0 w] c(3)
    by (simp add: getPercentSilentNeurons_def isRecording_def)
  from c(1,3,4,5,6,7) 1 2 3 4 5 6 7 8 show ?thesis by blast
qed

theorem clear_then_query_witness:
  "monitor_inv idle3 \<and> \<not> recordSet idle3 \<and>
   (\<exists>m'. clear idle3 = Inr m' \<and> spkVector m' = [[], [], []] \<and>
      firingRates m' = [0, 0, 0] \<and> totalTime m' = -1 \<and>
      getPopMeanFiringRate m' = Inr 0 \<and>
      getAllFiringRates m' quietWorld = Inl AssertionFailed \<and>
      getNumNeuronsWithFiringRate 0 0 m' quietWorld = Inl AssertionFailed)"
proof -
  have h1: "monitor_inv idle3" by (rule monitor_inv_idle3)
  have h2: "\<not> recordSet idle3" by (simp add: idle3_def)
  have n: "replicate (nat (nNeurons idle3)) ([]::int list) = [[], [], []]"
    "replicate (nat (nNeurons idle3)) (0::real) = [0, 0, 0]"
    by (simp_all add: idle3_def eval_nat_numeral)
  from clear_then_query[OF h1 h2, of quietWorld 0 0] obtain m' where
    "clear idle3 = Inr m'" "totalTime m' = -1"
    "spkVector m' = replicate (nat (nNeurons idle3)) []"
    "firingRates m' = replicate (nat (nNeurons idle3)) 0"
    "getPopMeanFiringRate m' = Inr 0"
    "getAllFiringRates m' quietWorld = Inl AssertionFailed"
    "getNumNeuronsWithFiringRate 0 0 m' quietWorld = Inl AssertionFailed"
    by blast
  with h1 h2 n show ?thesis by auto
qed

section \<open>Persistent accumulation\<close>

text \<open>
  Claim C2. A \<open>startRecording\<close> call on an idle monitor in persistent mode keeps the spike
  store as it is, assigns the current time to \<open>startTime\<close> only when \<open>startTime\<close> is
  negative, sets \<open>startTimeLast\<close> to the current time and seeds \<open>accumTime\<close> with the
  previous \<open>totalTime\<close> when there is one (it is not negative), else with \<open>0\<close>.
  Consequently two windows of 500 ms on a new persistent monitor, with two events pushed in
  the first and three in the second, end with \<open>totalTime = 1000\<close> and a population spike
  count of \<open>5\<close>, whatever the start times and the neurons that fired.
\<close>

theorem startRecording_persistent_accumulates:
  "(\<not> recordSet m \<and> persistentData m \<longrightarrow>
      (\<exists>m'. startRecording now buffered m = Inr m' \<and> recordSet m' \<and>
            spkVector m' = spkVector m \<and>
            startTime m' = (if startTime m < 0 then now else startTime m) \<and>
            startTimeLast m' = now \<and>
            accumTime m' = (if 0 \<le> totalTime m then totalTime m else 0))) \<and>
   (0 < n \<and> 0 \<le> t0 \<and> 0 \<le> t1 \<and> length ev1 = 2 \<and> length ev2 = 3 \<and>
    (\<forall>e\<in>set (ev1 @ ev2). 0 \<le> snd e \<and> snd e < n) \<longrightarrow>
      (\<exists>m. twoWindows n t0 ev1 t1 ev2 = Inr m \<and> \<not> recordSet m \<and> totalTime m = 1000 \<and>
           getPopNumSpikes m = Inr 5))"
proof (intro conjI impI)
  assume a: "\<not> recordSet m \<and> persistentData m"
  then show "\<exists>m'. startRecording now buffered m = Inr m' \<and> recordSet m' \<and>
            spkVector m' = spkVector m \<and>
            startTime m' = (if startTime m < 0 then now else startTime m) \<and>
            startTimeLast m' = now \<and>
            accumTime m' = (if 0 \<le> totalTime m then totalTime m else 0)"
    using startRecording_persistent[of m now buffered] by auto
next
  assume "0 < n \<and> 0 \<le> t0 \<and> 0 \<le> t1 \<and> length ev1 = 2 \<and> length ev2 = 3 \<and>
    (\<forall>e\<in>set (ev1 @ ev2). 0 \<le> snd e \<and> snd e < n)"
  then show "\<exists>m. twoWindows n t0 ev1 t1 ev2 = Inr m \<and> \<not> recordSet m \<and> totalTime m = 1000 \<and>
           getPopNumSpikes m = Inr 5"
    using twoWindows_ok[of n t0 t1 ev1 ev2] by blast
qed

theorem startRecording_persistent_accumulates_witness:
  "\<not> recordSet (setPersistentData True idle3) \<and> persistentData (setPersistentData True idle3) \<and>
   (\<exists>m'. startRecording 2000 [] (setPersistentData True idle3) = Inr m' \<and> recordSet m' \<and>
      spkVector m' = [[], [5, 15, 25, 35], [10, 30]] \<and>
      startTime m' = 0 \<and> startTimeLast m' = 2000 \<and> accumTime m' = 1000) \<and>
   (\<exists>m. twoWindows 2 0 [(100, 0), (200, 1)] 500 [(600, 0), (700, 0), (800, 1)] = Inr m \<and>
      \<not> recordSet m \<and> totalTime m = 1000 \<and> getPopNumSpikes m = Inr 5)"
proof -
  let ?m = "setPersistentData True idle3"
  have h: "\<not> recordSet ?m \<and> persistentData ?m"
    by (simp add: setPersistentData_def idle3_def)
  have f: "spkVector ?m = [[], [5, 15, 25, 35], [10, 30]]" "startTime ?m = 0"
    "totalTime ?m = 1000"
    by (simp_all add: setPersistentData_def idle3_def)
  have g: "(0::int) < 2 \<and> (0::int) \<le> 0 \<and> (0::int) \<le> 500 \<and>
      length [(100::int, 0::int), (200, 1)] = 2 \<and>
      length [(600::int, 0::int), (700, 0), (800, 1)] = 3 \<and>
      (\<forall>e\<in>set ([(100::int, 0::int), (200, 1)] @ [(600, 0), (700, 0), (800, 1)]).
          0 \<le> snd e \<and> snd e < 2)"
    by simp
  note t = startRecording_persistent_accumulates[of ?m 2000 "[]" 2 0 500
      "[(100, 0), (200, 1)]" "[(600, 0), (700, 0), (800, 1)]"]
  from t h have 1: "\<exists>m'. startRecording 2000 [] ?m = Inr m' \<and> recordSet m' \<and>
      spkVector m' = spkVector ?m \<and>
      startTime m' = (if startTime ?m < 0 then 2000 else startTime ?m) \<and>
      startTimeLast m' = 2000 \<and>
      accumTime m' = (if 0 \<le> totalTime ?m then totalTime ?m else 0)"
    by blast
  from t g have 2: "\<exists>m. twoWindows 2 0 [(100, 0), (200, 1)] 500 [(600, 0), (700, 0), (800, 1)] = Inr m \<and>
      \<not> recordSet m \<and> totalTime m = 1000 \<and> getPopNumSpikes m = Inr 5"
    by blast
  from 1 have 3: "\<exists>m'. startRecording 2000 [] ?m = Inr m' \<and> recordSet m' \<and>
      spkVector m' = [[], [5, 15, 25, 35], [10, 30]] \<and>
      startTime m' = 0 \<and> startTimeLast m' = 2000 \<and> accumTime m' = 1000"
    using f by simp
  from h 3 2 show ?thesis by blast
qed

section \<open>Stopping a recording\<close>

text \<open>
  Claim C3. A \<open>stopRecording\<close> call on a recording monitor whose \<open>startTime\<close>,
  \<open>startTimeLast\<close> and \<open>accumTime\<close> are non-negative, the flush of the simulation having
  returned, leaves the monitor idle with \<open>stopTime\<close> the current time and \<open>totalTime\<close>
  exactly \<open>stopTime - startTimeLast + accumTime\<close>, which is then non-negative; when that
  difference is negative the call ends in the failed assertion \<^verbatim>\<open>assert(totalTime_>=0)\<close>
  and returns no state.
\<close>

theorem stopRecording_total_time:
  assumes "recordSet m" "0 \<le> startTime m" "0 \<le> startTimeLast m" "0 \<le> accumTime m"
    and "updateSpikeMonitor buffered m = Inr m1"
  shows "(0 \<le> now - startTimeLast m + accumTime m \<longrightarrow>
           (\<exists>m'. stopRecording now buffered m = Inr m' \<and> \<not> recordSet m' \<and> stopTime m' = now \<and>
                  totalTime m' = stopTime m' - startTimeLast m + accumTime m \<and>
                  0 \<le> totalTime m' \<and>
                  startTime m' = startTime m \<and> startTimeLast m' = startTimeLast m \<and>
                  accumTime m' = accumTime m \<and> spkVector m' = spkVector m1)) \<and>
         (now - startTimeLast m + accumTime m < 0 \<longrightarrow>
           stopRecording now buffered m = Inl AssertionFailed)"
proof -
  from updateSpikeMonitor_store_only[OF assms(5)] obtain v where m1: "m1 = m\<lparr>spkVector := v\<rparr>"
    by metis
  show ?thesis using stopRecording_ok[OF assms, of now] m1 by simp
qed

theorem stopRecording_total_time_witness:
  "recordSet recording2 \<and> 0 \<le> startTime recording2 \<and> 0 \<le> startTimeLast recording2 \<and>
   0 \<le> accumTime recording2 \<and>
   (\<exists>m1. updateSpikeMonitor [(10, 1), (20, 0)] recording2 = Inr m1 \<and>
      (\<exists>m'. stopRecording 500 [(10, 1), (20, 0)] recording2 = Inr m' \<and> \<not> recordSet m' \<and>
         stopTime m' = 500 \<and> totalTime m' = 500 \<and> spkVector m' = spkVector m1 \<and>
         spkVector m' = [[20], [10]])) \<and>
   stopRecording (-5) [(10, 1), (20, 0)] recording2 = Inl AssertionFailed"
proof -
  let ?m1 = "recording2\<lparr>spkVector := [[20], [10]]\<rparr>"
  have h: "recordSet recording2" "0 \<le> startTime recording2" "0 \<le> startTimeLast recording2"
    "0 \<le> accumTime recording2"
    by (simp_all add: recording2_def fresh2_def)
  have u: "updateSpikeMonitor [(10, 1), (20, 0)] recording2 = Inr ?m1"
    by (simp add: updateSpikeMonitor_def isRecording_def getMode_def pushAER_def
        recording2_def fresh2_def)
  have z: "startTimeLast recording2 = 0" "accumTime recording2 = 0"
    by (simp_all add: recording2_def fresh2_def)
  from stopRecording_total_time[OF h u, of 500] z obtain m' where
    m': "stopRecording 500 [(10, 1), (20, 0)] recording2 = Inr m'" "\<not> recordSet m'"
      "stopTime m' = 500" "totalTime m' = 500" "spkVector m' = spkVector ?m1"
    by auto
  have f: "stopRecording (-5) [(10, 1), (20, 0)] recording2 = Inl AssertionFailed"
    using stopRecording_total_time[OF h u, of "-5"] z by simp
  have "spkVector m' = [[20], [10]]" using m'(5) by simp
  with h u m' f show ?thesis by auto
qed

section \<open>Pushing a spike\<close>

text \<open>
  Claim C4. The spec has every \<open>pushSpike\<close> enforce three preconditions: recording, \<open>AER\<close>
  mode and \<open>0 \<le> neuronId < neuronCount\<close>, an out-of-range id being rejected by a fatal
  check. \<open>pushAER\<close> asserts the first two only. On a recording monitor of two neurons an id
  of \<open>2\<close> or of \<open>-1\<close> reaches \<^verbatim>\<open>spkVector_[neurId].push_back(time)\<close> unchecked, which is
  undefined behaviour of \<^verbatim>\<open>std::vector\<close> and no assertion failure, whereas the sibling
  \<open>getNeuronNumSpikes\<close> asserts the range of the same id.
\<close>

theorem pushAER_out_of_range_unchecked:
  "pushAER 7 2 recording2 = Inl UndefinedBehaviour \<and>
   pushAER 7 (-1) recording2 = Inl UndefinedBehaviour \<and>
   getNeuronNumSpikes 2 fresh2 = Inl AssertionFailed"
  by (simp add: pushAER_def getNeuronNumSpikes_def isRecording_def getMode_def
      recording2_def fresh2_def)

section \<open>The population mean\<close>




section \<open>The population standard deviation, stated\<close>

text \<open>
  Claim C6 has \<open>getPopulationStdRate\<close> return the root of the sample variance on every idle
  monitor of more than one neuron. On a new or cleared monitor of two neurons
  (\<open>totalTime = -1\<close>) it does not return: its call of \<open>getAllFiringRates\<close> ends in the
  failed \<^verbatim>\<open>assert(totalTime_>0)\<close> of \<open>calculateFiringRates\<close>.
\<close>

theorem population_std_rate_unset_counterexample:
  "init 2 = Inr fresh2 \<and> \<not> recordSet fresh2 \<and> 1 < nNeurons fresh2 \<and>
   getPopStdFiringRate fresh2 quietWorld = Inl AssertionFailed"
  using init_fresh2 toDouble_int_nonzero[of "- 2"]
  by (simp add: getPopStdFiringRate_def getPopMeanFiringRate_def getPopNumSpikes_def
      getNeuronNumSpikes_def getAllFiringRates_def calculateFiringRates_def lmul_def LONG_MIN_def LONG_MAX_def
      ddiv_def toDouble_zero toFloat_zero
      getRecordingTotalTime_def isRecording_def getMode_def fresh2_def Let_def
      eval_nat_numeral)

text \<open>
  Claim C6, amended. On an idle monitor with \<open>totalTime\<close> not negative and
  \<open>totalTime * nNeurons\<close> a \<^verbatim>\<open>long int\<close>, \<open>getPopStdFiringRate\<close> returns \<open>0\<close> when
  \<open>nNeurons \<le> 1\<close>, and otherwise the root of the sum of the squares \<open>(rate - meanRate)\<^sup>2\<close>
  divided by \<open>nNeurons - 1\<close>, evaluated in \<^verbatim>\<open>float\<close>: the rates are those
  \<open>getAllFiringRates\<close> returns, \<open>meanRate\<close> is what \<open>getPopMeanFiringRate\<close> returns, the squares
  are added in the order of the neurons, and each difference, product, sum, the quotient and
  the root are rounded to \<^verbatim>\<open>float\<close>. On an idle monitor with \<open>totalTime\<close> negative (and the
  product a \<^verbatim>\<open>long int\<close>) the query ends in a failed assertion.
\<close>

theorem population_std_rate:
  assumes inv: "monitor_inv m" and idle: "\<not> recordSet m"
  shows "(0 \<le> totalTime m \<and> totalTime m * nNeurons m \<le> LONG_MAX \<longrightarrow>
           (\<exists>mu rs m1 w1 m2 w2.
              getPopMeanFiringRate m = Inr mu \<and>
              getAllFiringRates m w = Inr (rs, m1, w1) \<and>
              getPopStdFiringRate m w =
                Inr ((if 1 < nNeurons m
                      then toFloat (sqrt (toFloat (foldl (addSquare mu) 0 rs /
                             toFloat (of_int (nNeurons m - 1)))))
                      else 0), m2, w2))) \<and>
         (totalTime m < 0 \<and> LONG_MIN \<le> totalTime m * nNeurons m \<longrightarrow>
            getPopStdFiringRate m w = Inl AssertionFailed)"
proof (intro conjI impI)
  assume a: "0 \<le> totalTime m \<and> totalTime m * nNeurons m \<le> LONG_MAX"
  then have t: "0 \<le> totalTime m" and hi: "totalTime m * nNeurons m \<le> LONG_MAX" by simp_all
  have "0 < nNeurons m" using inv by (simp add: monitor_inv_def)
  then have "0 \<le> totalTime m * nNeurons m" using t by simp
  then have lo: "LONG_MIN \<le> totalTime m * nNeurons m" by (simp add: LONG_MIN_def)
  from getPopMeanFiringRate_returns[OF inv idle lo hi] obtain mu where
    mu: "getPopMeanFiringRate m = Inr mu"
    by blast
  from getAllFiringRates_ok[OF inv idle t, of w] obtain m1 w1 where
    a: "getAllFiringRates m w = Inr (expectedRates m, m1, w1)"
    by blast
  from getPopStdFiringRate_ok[OF inv idle t mu, of w] obtain m2 w2 where
    s: "getPopStdFiringRate m w =
           Inr ((if 1 < nNeurons m
                 then toFloat (sqrt (toFloat (foldl (addSquare mu) 0 (expectedRates m) /
                        toFloat (of_int (nNeurons m - 1)))))
                 else 0), m2, w2)"
    by blast
  from mu a s
  show "\<exists>mu rs m1 w1 m2 w2.
          getPopMeanFiringRate m = Inr mu \<and>
          getAllFiringRates m w = Inr (rs, m1, w1) \<and>
          getPopStdFiringRate m w =
            Inr ((if 1 < nNeurons m
                  then toFloat (sqrt (toFloat (foldl (addSquare mu) 0 rs /
                         toFloat (of_int (nNeurons m - 1)))))
                  else 0), m2, w2)"
    by blast
next
  assume "totalTime m < 0 \<and> LONG_MIN \<le> totalTime m * nNeurons m"
  then show "getPopStdFiringRate m w = Inl AssertionFailed"
    using getPopStdFiringRate_unset[OF inv idle] by simp
qed

theorem population_std_rate_witness:
  "monitor_inv idle3 \<and> \<not> recordSet idle3 \<and> 0 \<le> totalTime idle3 \<and>
   totalTime idle3 * nNeurons idle3 \<le> LONG_MAX \<and>
   getPopMeanFiringRate idle3 = Inr 2 \<and>
   (\<exists>m1 w1 m2 w2.
      getAllFiringRates idle3 quietWorld = Inr ([0, 4, 2], m1, w1) \<and>
      getPopStdFiringRate idle3 quietWorld = Inr (2, m2, w2)) \<and>
   monitor_inv pair2 \<and> \<not> recordSet pair2 \<and> 0 \<le> totalTime pair2 \<and>
   totalTime pair2 * nNeurons pair2 \<le> LONG_MAX \<and>
   getPopMeanFiringRate pair2 = Inr (1 / 2) \<and>
   (\<exists>m1 w1 m2 w2.
      getAllFiringRates pair2 quietWorld = Inr ([1, 0], m1, w1) \<and>
      getPopStdFiringRate pair2 quietWorld = Inr (11863283 / 16777216, m2, w2)) \<and>
   monitor_inv fresh2 \<and> \<not> recordSet fresh2 \<and> totalTime fresh2 < 0 \<and>
   LONG_MIN \<le> totalTime fresh2 * nNeurons fresh2 \<and>
   getPopStdFiringRate fresh2 quietWorld = Inl AssertionFailed"
proof -
  have h1: "monitor_inv idle3" by (rule monitor_inv_idle3)
  have h2: "\<not> recordSet idle3" by (simp add: idle3_def)
  have h3: "0 \<le> totalTime idle3" by (simp add: idle3_def)
  have n: "nNeurons idle3 = 3" "totalTime idle3 = 1000" by (simp_all add: idle3_def)
  have h4: "totalTime idle3 * nNeurons idle3 \<le> LONG_MAX" by (simp add: n LONG_MAX_def)
  have h5: "LONG_MIN \<le> totalTime idle3 * nNeurons idle3" by (simp add: n LONG_MIN_def)
  have g1: "monitor_inv fresh2" by (rule monitor_inv_fresh2)
  have g2: "\<not> recordSet fresh2" by (simp add: fresh2_def)
  have g3: "totalTime fresh2 < 0" by (simp add: fresh2_def)
  have g4: "LONG_MIN \<le> totalTime fresh2 * nNeurons fresh2" by (simp add: fresh2_def LONG_MIN_def)
  have a: "getPopStdFiringRate fresh2 quietWorld = Inl AssertionFailed"
    using population_std_rate[OF g1 g2, of quietWorld] g3 g4 by simp
  from population_std_rate[OF h1 h2, of quietWorld] h3 h4
  obtain mu rs m1 w1 m2 w2 where
    c: "getPopMeanFiringRate idle3 = Inr mu"
      "getAllFiringRates idle3 quietWorld = Inr (rs, m1, w1)"
      "getPopStdFiringRate idle3 quietWorld =
         Inr ((if 1 < nNeurons idle3
               then toFloat (sqrt (toFloat (foldl (addSquare mu) 0 rs /
                      toFloat (of_int (nNeurons idle3 - 1)))))
               else 0), m2, w2)"
    by auto
  have s6: "(\<Sum>v\<leftarrow>spkVector idle3. int (length v)) = 6" by (simp add: idle3_def)
  have "toFloat (toDouble (toDouble (toDouble 6 * 1000) / toDouble 3000)) = 2"
    by (simp add: fp_eval)
  then have me: "getPopMeanFiringRate idle3 = Inr 2"
    using getPopMeanFiringRate_ok[OF h1 h2 h5 h4] s6 n by simp
  then have mu: "mu = 2" using c(1) by simp
  have rs: "rs = [0, 4, 2]"
    using c(2) getAllFiringRates_ok[OF h1 h2 h3, of quietWorld] expectedRates_idle3 by auto
  have f: "foldl (addSquare 2) 0 [0, 4, 2] = 8" by (simp add: addSquare_def fp_eval)
  have "toFloat (sqrt (toFloat (8 / toFloat 2))) = 2"
  proof -
    have "toFloat (8 / toFloat 2) = 4" by (simp add: fp_eval)
    moreover have "sqrt 4 = (2::real)" using real_sqrt_abs[of 2] by simp
    moreover have "toFloat 2 = 2" by (simp add: fp_eval)
    ultimately show ?thesis by simp
  qed
  then have s: "getPopStdFiringRate idle3 quietWorld = Inr (2, m2, w2)"
    using c(3) n mu rs f by simp
  have p1: "monitor_inv pair2" by (rule monitor_inv_pair2)
  have p2: "\<not> recordSet pair2" by (simp add: pair2_def)
  have p3: "0 \<le> totalTime pair2" by (simp add: pair2_def)
  have pn: "nNeurons pair2 = 2" "totalTime pair2 = 1000" by (simp_all add: pair2_def)
  have p4: "totalTime pair2 * nNeurons pair2 \<le> LONG_MAX" by (simp add: pn LONG_MAX_def)
  have p5: "LONG_MIN \<le> totalTime pair2 * nNeurons pair2" by (simp add: pn LONG_MIN_def)
  from population_std_rate[OF p1 p2, of quietWorld] p3 p4
  obtain mu' rs' m1' w1' m2' w2' where
    c': "getPopMeanFiringRate pair2 = Inr mu'"
      "getAllFiringRates pair2 quietWorld = Inr (rs', m1', w1')"
      "getPopStdFiringRate pair2 quietWorld =
         Inr ((if 1 < nNeurons pair2
               then toFloat (sqrt (toFloat (foldl (addSquare mu') 0 rs' /
                      toFloat (of_int (nNeurons pair2 - 1)))))
               else 0), m2', w2')"
    by auto
  have s1: "(\<Sum>v\<leftarrow>spkVector pair2. int (length v)) = 1" by (simp add: pair2_def)
  have "toFloat (toDouble (toDouble (toDouble 1 * 1000) / toDouble 2000)) = 1 / 2"
    by (simp add: fp_eval)
  then have me': "getPopMeanFiringRate pair2 = Inr (1 / 2)"
    using getPopMeanFiringRate_ok[OF p1 p2 p5 p4] s1 pn by simp
  then have mu': "mu' = 1 / 2" using c'(1) by simp
  have rs': "rs' = [1, 0]"
    using c'(2) getAllFiringRates_ok[OF p1 p2 p3, of quietWorld] expectedRates_pair2 by auto
  have f': "foldl (addSquare (1 / 2)) 0 [1, 0] = 1 / 2" by (simp add: addSquare_def fp_eval)
  have q: "1 / 2 / toFloat 1 = (1 / 2 :: real)" by (simp add: toFloat_one)
  have h: "toFloat (1 / 2) = 1 / 2" by (simp add: fp_eval)
  have r: "toFloat (sqrt (toFloat (1 / 2 / toFloat 1))) = 11863283 / 16777216"
    by (simp only: q h toFloat_sqrt_half)
  have lt: "(1::int) < 2" by simp
  have o: "real_of_int (2 - 1) = 1" by simp
  from c'(3) have "getPopStdFiringRate pair2 quietWorld =
         Inr (toFloat (sqrt (toFloat (1 / 2 / toFloat 1))), m2', w2')"
    by (simp only: pn mu' rs' f' lt if_True o)
  then have s': "getPopStdFiringRate pair2 quietWorld = Inr (11863283 / 16777216, m2', w2')"
    by (simp only: r)
  from h1 h2 h3 h4 g1 g2 g3 g4 a c(2) me rs s p1 p2 p3 p4 c'(2) me' rs' s' show ?thesis
    by auto
qed

section \<open>Sorted rates, maximum and minimum\<close>

text \<open>
  Claim C7. On an idle monitor after a completed recording (\<open>totalTime\<close> is not negative)
  \<open>getAllFiringRatesSorted\<close> returns a non-decreasing permutation of what
  \<open>getAllFiringRates\<close> returns, \<open>getMaxFiringRate\<close> and \<open>getMinFiringRate\<close> return the
  maximum and the minimum of those rates, and a second \<open>getAllFiringRatesSorted\<close>, called
  on the state the first one left, returns the same list, as \<open>getAllFiringRates\<close> still
  returns the same rates there.
\<close>

theorem sorted_rates_permutation_and_extremes:
  assumes inv: "monitor_inv m" and idle: "\<not> recordSet m" and t: "0 \<le> totalTime m"
  shows "\<exists>rs srt m1 w1 m2 w2 m3 w3 m4 w4 m5 w5 m6 w6.
     getAllFiringRates m w = Inr (rs, m1, w1) \<and>
     getAllFiringRatesSorted m w = Inr (srt, m2, w2) \<and>
     sorted srt \<and> mset srt = mset rs \<and>
     getMaxFiringRate m w = Inr (Max (set rs), m3, w3) \<and>
     getMinFiringRate m w = Inr (Min (set rs), m4, w4) \<and>
     getAllFiringRatesSorted m2 w2 = Inr (srt, m5, w5) \<and>
     getAllFiringRates m2 w2 = Inr (rs, m6, w6)"
proof -
  let ?rs = "expectedRates m"
  from getAllFiringRates_ok[OF inv idle t, of w] obtain m1 w1 where
    1: "getAllFiringRates m w = Inr (?rs, m1, w1)"
    by blast
  from getAllFiringRatesSorted_ok[OF inv idle t, of w] obtain m2 w2 where
    2: "getAllFiringRatesSorted m w = Inr (sort ?rs, m2, w2)" and inv2: "monitor_inv m2"
    and f2: "only_caches_differ m m2"
    by blast
  from getMaxFiringRate_ok[OF inv idle t, of w] obtain m3 w3 where
    3: "getMaxFiringRate m w = Inr (Max (set ?rs), m3, w3)"
    by blast
  from getMinFiringRate_ok[OF inv idle t, of w] obtain m4 w4 where
    4: "getMinFiringRate m w = Inr (Min (set ?rs), m4, w4)"
    by blast
  have s2: "\<not> recordSet m2" "0 \<le> totalTime m2" "expectedRates m2 = ?rs"
    using settled_frame[OF f2 idle t] by simp_all
  from getAllFiringRatesSorted_ok[OF inv2 s2(1,2), of w2] s2(3) obtain m5 w5 where
    5: "getAllFiringRatesSorted m2 w2 = Inr (sort ?rs, m5, w5)"
    by auto
  from getAllFiringRates_ok[OF inv2 s2(1,2), of w2] s2(3) obtain m6 w6 where
    6: "getAllFiringRates m2 w2 = Inr (?rs, m6, w6)"
    by auto
  have "sorted (sort ?rs)" "mset (sort ?rs) = mset ?rs" by simp_all
  with 1 2 3 4 5 6 show ?thesis by blast
qed

theorem sorted_rates_permutation_and_extremes_witness:
  "monitor_inv idle3 \<and> \<not> recordSet idle3 \<and> 0 \<le> totalTime idle3 \<and>
   (\<exists>m1 w1 m2 w2 m3 w3 m4 w4 m5 w5.
      getAllFiringRates idle3 quietWorld = Inr ([0, 4, 2], m1, w1) \<and>
      getAllFiringRatesSorted idle3 quietWorld = Inr ([0, 2, 4], m2, w2) \<and>
      getMaxFiringRate idle3 quietWorld = Inr (4, m3, w3) \<and>
      getMinFiringRate idle3 quietWorld = Inr (0, m4, w4) \<and>
      getAllFiringRatesSorted m2 w2 = Inr ([0, 2, 4], m5, w5))"
proof -
  have h1: "monitor_inv idle3" by (rule monitor_inv_idle3)
  have h2: "\<not> recordSet idle3" by (simp add: idle3_def)
  have h3: "0 \<le> totalTime idle3" by (simp add: idle3_def)
  from sorted_rates_permutation_and_extremes[OF h1 h2 h3, of quietWorld]
  obtain rs srt m1 w1 m2 w2 m3 w3 m4 w4 m5 w5 where
    r: "getAllFiringRates idle3 quietWorld = Inr (rs, m1, w1)"
      "getAllFiringRatesSorted idle3 quietWorld = Inr (srt, m2, w2)"
      "sorted srt" "mset srt = mset rs"
      "getMaxFiringRate idle3 quietWorld = Inr (Max (set rs), m3, w3)"
      "getMinFiringRate idle3 quietWorld = Inr (Min (set rs), m4, w4)"
      "getAllFiringRatesSorted m2 w2 = Inr (srt, m5, w5)"
    by blast
  have rs: "rs = [0, 4, 2]"
    using r(1) getAllFiringRates_ok[OF h1 h2 h3, of quietWorld] expectedRates_idle3 by auto
  have "srt = sort rs" using r(3,4) by (metis properties_for_sort)
  then have srt: "srt = [0, 2, 4]" using rs by simp
  have mx: "Max (set rs) = 4" and mn: "Min (set rs) = 0" using rs by simp_all
  from h1 h2 h3 r rs srt mx mn show ?thesis by auto
qed

section \<open>Neurons in a range of rates\<close>

text \<open>
  Claim C8 has \<open>getCountInRange\<close>, \<open>getSilentCount\<close> and \<open>getPercentSilent\<close> return their
  counts on every idle monitor. On a new or cleared monitor (\<open>totalTime = -1\<close>) they do not
  return: \<open>sortFiringRates\<close> calls \<open>calculateFiringRates\<close>, whose
  \<^verbatim>\<open>assert(totalTime_>0)\<close> fails.
\<close>

theorem count_in_range_unset_counterexample:
  "init 2 = Inr fresh2 \<and> \<not> recordSet fresh2 \<and>
   getNumNeuronsWithFiringRate 0 0 fresh2 quietWorld = Inl AssertionFailed \<and>
   getNumSilentNeurons fresh2 quietWorld = Inl AssertionFailed \<and>
   getPercentSilentNeurons fresh2 quietWorld = Inl AssertionFailed"
  using init_fresh2
  by (simp add: getNumNeuronsWithFiringRate_def getNumSilentNeurons_def
      getPercentSilentNeurons_def sortFiringRates_def calculateFiringRates_def
      isRecording_def getMode_def fresh2_def Let_def)

text \<open>
  Claim C8, amended. On an idle monitor with \<open>totalTime\<close> not negative and for
  \<open>0 \<le> mn \<le> mx\<close>, \<open>getNumNeuronsWithFiringRate mn mx\<close> returns the number of neuron
  indices whose rate, the \<^verbatim>\<open>float\<close> that \<open>getAllFiringRates\<close> reports, lies in the closed
  interval from \<open>mn\<close> to \<open>mx\<close>; \<open>getNumSilentNeurons\<close> returns what
  \<open>getNumNeuronsWithFiringRate 0 0\<close> returns, and \<open>getPercentSilentNeurons\<close> the \<^verbatim>\<open>float\<close>
  nearest to the \<^verbatim>\<open>double\<close> quotient of that count times \<open>100\<close> by \<open>nNeurons\<close>. On an idle
  monitor with \<open>totalTime\<close> negative the three queries end in a failed assertion.
\<close>

theorem count_in_range:
  assumes inv: "monitor_inv m" and idle: "\<not> recordSet m" and r: "0 \<le> mn" "mn \<le> mx"
  shows "(0 \<le> totalTime m \<longrightarrow>
           (\<exists>rs m1 w1 m2 w2 z m3 w3.
              getAllFiringRates m w = Inr (rs, m1, w1) \<and> length rs = nat (nNeurons m) \<and>
              getNumNeuronsWithFiringRate mn mx m w =
                Inr (int (card {i. i < length rs \<and> mn \<le> rs ! i \<and> rs ! i \<le> mx}), m2, w2) \<and>
              getNumNeuronsWithFiringRate 0 0 m w = Inr (z, m3, w3) \<and>
              getNumSilentNeurons m w = Inr (z, m3, w3) \<and>
              getPercentSilentNeurons m w =
                Inr (toFloat (toDouble (toDouble (toDouble (of_int z) * 100) /
                       toDouble (of_int (nNeurons m)))), m3, w3))) \<and>
         (totalTime m < 0 \<longrightarrow>
            getNumNeuronsWithFiringRate mn mx m w = Inl AssertionFailed \<and>
            getNumSilentNeurons m w = Inl AssertionFailed \<and>
            getPercentSilentNeurons m w = Inl AssertionFailed)"
proof (intro conjI impI)
  assume t: "0 \<le> totalTime m"
  let ?rs = "expectedRates m"
  from getAllFiringRates_ok[OF inv idle t, of w] obtain m1 w1 where
    1: "getAllFiringRates m w = Inr (?rs, m1, w1)"
    by blast
  have len: "length ?rs = nat (nNeurons m)"
    using inv by (simp add: length_expectedRates monitor_inv_def)
  from getNumNeuronsWithFiringRate_ok[OF inv idle t r, of w] obtain m2 w2 where
    "getNumNeuronsWithFiringRate mn mx m w =
       Inr (int (length (filter (\<lambda>r. mn \<le> r \<and> r \<le> mx) ?rs)), m2, w2)"
    by blast
  then have 2: "getNumNeuronsWithFiringRate mn mx m w =
       Inr (int (card {i. i < length ?rs \<and> mn \<le> ?rs ! i \<and> ?rs ! i \<le> mx}), m2, w2)"
    by (simp add: length_filter_conv_card)
  from getNumNeuronsWithFiringRate_ok[OF inv idle t, of 0 0 w] obtain z m3 w3 where
    3: "getNumNeuronsWithFiringRate 0 0 m w = Inr (z, m3, w3)"
    by auto
  have 4: "getNumSilentNeurons m w = Inr (z, m3, w3)"
    using getNumSilentNeurons_eq[OF idle, of w] 3 by simp
  have 5: "getPercentSilentNeurons m w =
                Inr (toFloat (toDouble (toDouble (toDouble (of_int z) * 100) /
                       toDouble (of_int (nNeurons m)))), m3, w3)"
    using getPercentSilentNeurons_ok[OF inv idle 3] .
  from 1 len 2 3 4 5
  show "\<exists>rs m1 w1 m2 w2 z m3 w3.
          getAllFiringRates m w = Inr (rs, m1, w1) \<and> length rs = nat (nNeurons m) \<and>
          getNumNeuronsWithFiringRate mn mx m w =
            Inr (int (card {i. i < length rs \<and> mn \<le> rs ! i \<and> rs ! i \<le> mx}), m2, w2) \<and>
          getNumNeuronsWithFiringRate 0 0 m w = Inr (z, m3, w3) \<and>
          getNumSilentNeurons m w = Inr (z, m3, w3) \<and>
          getPercentSilentNeurons m w =
                Inr (toFloat (toDouble (toDouble (toDouble (of_int z) * 100) /
                       toDouble (of_int (nNeurons m)))), m3, w3)"
    by blast
next
  assume t: "totalTime m < 0"
  show "getNumNeuronsWithFiringRate mn mx m w = Inl AssertionFailed"
    using getNumNeuronsWithFiringRate_unset[OF inv idle t] .
next
  assume t: "totalTime m < 0"
  show "getNumSilentNeurons m w = Inl AssertionFailed"
    using getNumNeuronsWithFiringRate_unset[OF inv idle t, of 0 0 w]
      getNumSilentNeurons_eq[OF idle, of w] by simp
next
  assume t: "totalTime m < 0"
  show "getPercentSilentNeurons m w = Inl AssertionFailed"
    using getNumNeuronsWithFiringRate_unset[OF inv idle t, of 0 0 w] idle
    by (simp add: getPercentSilentNeurons_def isRecording_def)
qed

theorem count_in_range_witness:
  "monitor_inv idle3 \<and> \<not> recordSet idle3 \<and> (0::real) \<le> 1 \<and> (1::real) \<le> 3 \<and>
   0 \<le> totalTime idle3 \<and>
   (\<exists>m2 w2 m3 w3.
      getNumNeuronsWithFiringRate 1 3 idle3 quietWorld = Inr (1, m2, w2) \<and>
      getNumSilentNeurons idle3 quietWorld = Inr (1, m3, w3) \<and>
      getPercentSilentNeurons idle3 quietWorld = Inr (8738133 / 262144, m3, w3)) \<and>
   monitor_inv sparse3 \<and> \<not> recordSet sparse3 \<and> (0::real) \<le> 10922667 / 32768 \<and>
   0 \<le> totalTime sparse3 \<and>
   (\<exists>m1 w1 m2 w2.
      getAllFiringRates sparse3 quietWorld = Inr ([10922667 / 32768, 0, 0], m1, w1) \<and>
      getNumNeuronsWithFiringRate (10922667 / 32768) (10922667 / 32768) sparse3 quietWorld =
        Inr (1, m2, w2)) \<and>
   monitor_inv fresh2 \<and> \<not> recordSet fresh2 \<and> totalTime fresh2 < 0 \<and>
   getNumNeuronsWithFiringRate 1 3 fresh2 quietWorld = Inl AssertionFailed"
proof -
  have h1: "monitor_inv idle3" by (rule monitor_inv_idle3)
  have h2: "\<not> recordSet idle3" by (simp add: idle3_def)
  have h3: "0 \<le> totalTime idle3" by (simp add: idle3_def)
  have n: "nNeurons idle3 = 3" by (simp add: idle3_def)
  have g1: "monitor_inv fresh2" by (rule monitor_inv_fresh2)
  have g2: "\<not> recordSet fresh2" by (simp add: fresh2_def)
  have g3: "totalTime fresh2 < 0" by (simp add: fresh2_def)
  have a: "getNumNeuronsWithFiringRate 1 3 fresh2 quietWorld = Inl AssertionFailed"
    using count_in_range[OF g1 g2, of 1 3 quietWorld] g3 by simp
  from count_in_range[OF h1 h2, of 1 3 quietWorld] h3
  obtain rs m1 w1 m2 w2 z m3 w3 where
    c: "getAllFiringRates idle3 quietWorld = Inr (rs, m1, w1)"
      "getNumNeuronsWithFiringRate 1 3 idle3 quietWorld =
         Inr (int (card {i. i < length rs \<and> 1 \<le> rs ! i \<and> rs ! i \<le> 3}), m2, w2)"
      "getNumNeuronsWithFiringRate 0 0 idle3 quietWorld = Inr (z, m3, w3)"
      "getNumSilentNeurons idle3 quietWorld = Inr (z, m3, w3)"
      "getPercentSilentNeurons idle3 quietWorld =
         Inr (toFloat (toDouble (toDouble (toDouble (of_int z) * 100) /
                toDouble (of_int (nNeurons idle3)))), m3, w3)"
    by auto
  have rs: "rs = [0, 4, 2]"
    using c(1) getAllFiringRates_ok[OF h1 h2 h3, of quietWorld] expectedRates_idle3 by auto
  have "card {i. i < length rs \<and> 1 \<le> rs ! i \<and> rs ! i \<le> 3} =
        length (filter (\<lambda>r. 1 \<le> r \<and> r \<le> 3) rs)"
    by (simp add: length_filter_conv_card)
  then have k: "card {i. i < length rs \<and> 1 \<le> rs ! i \<and> rs ! i \<le> 3} = 1"
    using rs by simp
  have "z = int (length (filter (\<lambda>r. 0 \<le> r \<and> r \<le> 0) (expectedRates idle3)))"
    using c(3) getNumNeuronsWithFiringRate_ok[OF h1 h2 h3, of 0 0 quietWorld] by auto
  then have z: "z = 1" using expectedRates_idle3 by simp
  have "toFloat (toDouble (toDouble (toDouble 1 * 100) / toDouble 3)) = 8738133 / 262144"
    by (simp add: fp_eval)
  then have pc: "getPercentSilentNeurons idle3 quietWorld = Inr (8738133 / 262144, m3, w3)"
    using c(5) z n by simp
  have p1: "monitor_inv sparse3" by (rule monitor_inv_sparse3)
  have p2: "\<not> recordSet sparse3" by (simp add: sparse3_def third3_def)
  have p3: "0 \<le> totalTime sparse3" by (simp add: sparse3_def third3_def)
  have p4: "(0::real) \<le> 10922667 / 32768" "(10922667 / 32768 :: real) \<le> 10922667 / 32768"
    by simp_all
  from count_in_range[OF p1 p2 p4, of quietWorld] p3
  obtain rs' m1' w1' m2' w2' where
    c': "getAllFiringRates sparse3 quietWorld = Inr (rs', m1', w1')"
      "getNumNeuronsWithFiringRate (10922667 / 32768) (10922667 / 32768) sparse3 quietWorld =
         Inr (int (card {i. i < length rs' \<and> 10922667 / 32768 \<le> rs' ! i \<and>
                         rs' ! i \<le> 10922667 / 32768}), m2', w2')"
    by auto
  have rs': "rs' = [10922667 / 32768, 0, 0]"
    using c'(1) getAllFiringRates_ok[OF p1 p2 p3, of quietWorld] expectedRates_sparse3 by auto
  have "card {i. i < length rs' \<and> 10922667 / 32768 \<le> rs' ! i \<and> rs' ! i \<le> 10922667 / 32768} =
        length (filter (\<lambda>r. 10922667 / 32768 \<le> r \<and> r \<le> 10922667 / 32768) rs')"
    by (simp add: length_filter_conv_card)
  then have k': "card {i. i < length rs' \<and> 10922667 / 32768 \<le> rs' ! i \<and>
                        rs' ! i \<le> 10922667 / 32768} = 1"
    using rs' by simp
  from h1 h2 h3 g1 g2 g3 a c(2,4) pc k z p1 p2 p3 c' rs' k' show ?thesis by auto
qed

section \<open>One header per sink\<close>

text \<open>
  Claim C9. The spec has the header, the signature \<open>206661989\<close> followed by the version,
  written at most once per distinct sink. \<open>writeSpikeFileHeader\<close> is indeed a no-op once the
  flag is cleared (\<open>writeSpikeFileHeader_noop\<close>), and a second \<open>setSpikeFileId\<close> logs an
  error that is not fatal, rebinds and writes the header to the sink it is given
  (\<open>setSpikeFileId_binds\<close>). But it sets \<open>needToWriteFileHeader\<close> without comparing the
  new sink with the bound one: binding stream \<open>1\<close> twice leaves the header twice in that
  one stream, the second copy not at its start, against the comment of
  \<open>writeSpikeFileHeader\<close> in the source (once per file, the very first entries).
\<close>

theorem header_written_twice_to_one_sink:
  "\<exists>m1 w1 m2 w2.
     setSpikeFileId (Some 1) fresh2 quietWorld = Inr (m1, w1) \<and>
     fileData w1 1 = [IntEntry 206661989, FloatEntry 1] \<and> diag w1 = [] \<and>
     setSpikeFileId (Some 1) m1 w1 = Inr (m2, w2) \<and>
     fileData w2 1 = [IntEntry 206661989, FloatEntry 1, IntEntry 206661989, FloatEntry 1] \<and>
     diag w2 = [(LogError, ''SpikeMonitorCore: setSpikeFileId has already been called.'')]"
proof -
  have i: "\<not> recordSet fresh2" "\<not> writeFails quietWorld 1"
    by (simp_all add: fresh2_def quietWorld_def)
  let ?m1 = "fresh2\<lparr>spikeFileId := Some 1, needToWriteFileHeader := False\<rparr>"
  from setSpikeFileId_binds[OF i] obtain w1 where
    1: "setSpikeFileId (Some 1) fresh2 quietWorld = Inr (?m1, w1)"
      "fileData w1 = (fileData quietWorld)
         (1 := fileData quietWorld 1 @
            [IntEntry (spikeFileSignature fresh2), FloatEntry (spikeFileVersion fresh2)])"
      "writeFails w1 = writeFails quietWorld"
      "diag w1 = (if spikeFileId fresh2 \<noteq> None
         then diag quietWorld @ [(LogError, ''SpikeMonitorCore: setSpikeFileId has already been called.'')]
         else diag quietWorld)"
    by blast
  have a: "fileData w1 1 = [IntEntry 206661989, FloatEntry 1]" "diag w1 = []"
    using 1(2,4) by (simp_all add: fresh2_def quietWorld_def)
  have j: "\<not> recordSet ?m1" "\<not> writeFails w1 1"
    using 1(3) by (simp_all add: fresh2_def quietWorld_def)
  from setSpikeFileId_binds[OF j] obtain w2 where
    2: "setSpikeFileId (Some 1) ?m1 w1 =
          Inr (?m1\<lparr>spikeFileId := Some 1, needToWriteFileHeader := False\<rparr>, w2)"
      "fileData w2 = (fileData w1)
         (1 := fileData w1 1 @
            [IntEntry (spikeFileSignature ?m1), FloatEntry (spikeFileVersion ?m1)])"
      "diag w2 = (if spikeFileId ?m1 \<noteq> None
         then diag w1 @ [(LogError, ''SpikeMonitorCore: setSpikeFileId has already been called.'')]
         else diag w1)"
    by blast
  have b: "fileData w2 1 = [IntEntry 206661989, FloatEntry 1, IntEntry 206661989, FloatEntry 1]"
    "diag w2 = [(LogError, ''SpikeMonitorCore: setSpikeFileId has already been called.'')]"
    using 2(2,3) a by (simp_all add: fresh2_def)
  from 1(1) a 2(1) b show ?thesis by blast
qed

section \<open>What the queries write\<close>

text \<open>
  Claim C10. A statistics query leaves the spike store, the five timing fields and the
  recording flag as they were; of the object it may write the two rate caches and their two
  dirty flags only, and it writes no output stream. The queries that call
  \<open>calculateFiringRates\<close> or \<open>sortFiringRates\<close> return the state they leave, and the theorem
  is about that state. \<open>getPopMeanFiringRate\<close>, \<open>getPopNumSpikes\<close>, \<open>getNeuronNumSpikes\<close>
  and \<open>getSpikeVector2D\<close> assign no member in the source and call only each other, so they
  are functions of the monitor that return a value and no state.
\<close>

theorem queries_write_only_caches:
  "(\<forall>x m' w'. getPopStdFiringRate m w = Inr (x, m', w') \<longrightarrow>
       only_caches_differ m m' \<and> fileData w' = fileData w) \<and>
   (\<forall>x m' w'. getAllFiringRates m w = Inr (x, m', w') \<longrightarrow>
       only_caches_differ m m' \<and> fileData w' = fileData w) \<and>
   (\<forall>x m' w'. getAllFiringRatesSorted m w = Inr (x, m', w') \<longrightarrow>
       only_caches_differ m m' \<and> fileData w' = fileData w) \<and>
   (\<forall>x m' w'. getMaxFiringRate m w = Inr (x, m', w') \<longrightarrow>
       only_caches_differ m m' \<and> fileData w' = fileData w) \<and>
   (\<forall>x m' w'. getMinFiringRate m w = Inr (x, m', w') \<longrightarrow>
       only_caches_differ m m' \<and> fileData w' = fileData w) \<and>
   (\<forall>x m' w'. getNumNeuronsWithFiringRate mn mx m w = Inr (x, m', w') \<longrightarrow>
       only_caches_differ m m' \<and> fileData w' = fileData w) \<and>
   (\<forall>x m' w'. getNumSilentNeurons m w = Inr (x, m', w') \<longrightarrow>
       only_caches_differ m m' \<and> fileData w' = fileData w)"
proof -
  have calc: "\<And>m' w'. calculateFiringRates m w = Inr (m', w') \<Longrightarrow>
      only_caches_differ m m' \<and> fileData w' = fileData w"
    using calculateFiringRates_frame by blast
  have srt: "\<And>m' w'. sortFiringRates m w = Inr (m', w') \<Longrightarrow>
      only_caches_differ m m' \<and> fileData w' = fileData w"
    using sortFiringRates_frame by blast
  have all: "\<And>x m' w'. getAllFiringRates m w = Inr (x, m', w') \<Longrightarrow>
      only_caches_differ m m' \<and> fileData w' = fileData w"
    using calc by (auto simp: getAllFiringRates_def split: if_splits sum.splits)
  have alls: "\<And>x m' w'. getAllFiringRatesSorted m w = Inr (x, m', w') \<Longrightarrow>
      only_caches_differ m m' \<and> fileData w' = fileData w"
    using srt by (auto simp: getAllFiringRatesSorted_def split: if_splits sum.splits)
  have std: "\<And>x m' w'. getPopStdFiringRate m w = Inr (x, m', w') \<Longrightarrow>
      only_caches_differ m m' \<and> fileData w' = fileData w"
    using all only_caches_differ_refl[of m]
    by (auto simp: getPopStdFiringRate_def split: if_splits sum.splits)
  have mx: "\<And>x m' w'. getMaxFiringRate m w = Inr (x, m', w') \<Longrightarrow>
      only_caches_differ m m' \<and> fileData w' = fileData w"
    using alls by (auto simp: getMaxFiringRate_def split: if_splits sum.splits)
  have mn: "\<And>x m' w'. getMinFiringRate m w = Inr (x, m', w') \<Longrightarrow>
      only_caches_differ m m' \<and> fileData w' = fileData w"
    using alls by (auto simp: getMinFiringRate_def split: if_splits sum.splits)
  have cnt: "\<And>a b x m' w'. getNumNeuronsWithFiringRate a b m w = Inr (x, m', w') \<Longrightarrow>
      only_caches_differ m m' \<and> fileData w' = fileData w"
    using srt by (auto simp: getNumNeuronsWithFiringRate_def split: if_splits sum.splits)
  have sil: "\<And>x m' w'. getNumSilentNeurons m w = Inr (x, m', w') \<Longrightarrow>
      only_caches_differ m m' \<and> fileData w' = fileData w"
    using cnt[of 0 0] by (auto simp: getNumSilentNeurons_def split: if_splits)
  from std all alls mx mn cnt sil show ?thesis by blast
qed

theorem queries_write_only_caches_witness:
  "(\<exists>x m' w'. getPopStdFiringRate idle3 quietWorld = Inr (x, m', w') \<and>
       only_caches_differ idle3 m' \<and> fileData w' = fileData quietWorld) \<and>
   (\<exists>x m' w'. getAllFiringRates idle3 quietWorld = Inr (x, m', w') \<and>
       only_caches_differ idle3 m' \<and> fileData w' = fileData quietWorld) \<and>
   (\<exists>x m' w'. getAllFiringRatesSorted idle3 quietWorld = Inr (x, m', w') \<and>
       only_caches_differ idle3 m' \<and> fileData w' = fileData quietWorld) \<and>
   (\<exists>x m' w'. getMaxFiringRate idle3 quietWorld = Inr (x, m', w') \<and>
       only_caches_differ idle3 m' \<and> fileData w' = fileData quietWorld) \<and>
   (\<exists>x m' w'. getMinFiringRate idle3 quietWorld = Inr (x, m', w') \<and>
       only_caches_differ idle3 m' \<and> fileData w' = fileData quietWorld) \<and>
   (\<exists>x m' w'. getNumNeuronsWithFiringRate 1 3 idle3 quietWorld = Inr (x, m', w') \<and>
       only_caches_differ idle3 m' \<and> fileData w' = fileData quietWorld) \<and>
   (\<exists>x m' w'. getNumSilentNeurons idle3 quietWorld = Inr (x, m', w') \<and>
       only_caches_differ idle3 m' \<and> fileData w' = fileData quietWorld)"
proof -
  have h1: "monitor_inv idle3" by (rule monitor_inv_idle3)
  have h2: "\<not> recordSet idle3" by (simp add: idle3_def)
  have h3: "0 \<le> totalTime idle3" by (simp add: idle3_def)
  note f = queries_write_only_caches[of idle3 quietWorld 1 3]
  have "LONG_MIN \<le> totalTime idle3 * nNeurons idle3" "totalTime idle3 * nNeurons idle3 \<le> LONG_MAX"
    by (simp_all add: idle3_def LONG_MIN_def LONG_MAX_def)
  from getPopMeanFiringRate_returns[OF h1 h2 this] obtain mu where
    mu: "getPopMeanFiringRate idle3 = Inr mu"
    by blast
  obtain x1 m1 w1 where 1: "getPopStdFiringRate idle3 quietWorld = Inr (x1, m1, w1)"
    using getPopStdFiringRate_ok[OF h1 h2 h3 mu, of quietWorld] by blast
  obtain x2 m2 w2 where 2: "getAllFiringRates idle3 quietWorld = Inr (x2, m2, w2)"
    using getAllFiringRates_ok[OF h1 h2 h3, of quietWorld] by blast
  obtain x3 m3 w3 where 3: "getAllFiringRatesSorted idle3 quietWorld = Inr (x3, m3, w3)"
    using getAllFiringRatesSorted_ok[OF h1 h2 h3, of quietWorld] by blast
  obtain x4 m4 w4 where 4: "getMaxFiringRate idle3 quietWorld = Inr (x4, m4, w4)"
    using getMaxFiringRate_ok[OF h1 h2 h3, of quietWorld] by blast
  obtain x5 m5 w5 where 5: "getMinFiringRate idle3 quietWorld = Inr (x5, m5, w5)"
    using getMinFiringRate_ok[OF h1 h2 h3, of quietWorld] by blast
  obtain x6 m6 w6 where 6: "getNumNeuronsWithFiringRate 1 3 idle3 quietWorld = Inr (x6, m6, w6)"
    using getNumNeuronsWithFiringRate_ok[OF h1 h2 h3, of 1 3 quietWorld] by auto
  obtain x7 m7 w7 where 7: "getNumSilentNeurons idle3 quietWorld = Inr (x7, m7, w7)"
    using getNumNeuronsWithFiringRate_ok[OF h1 h2 h3, of 0 0 quietWorld]
      getNumSilentNeurons_eq[OF h2, of quietWorld] by auto
  from f 1 have a1: "only_caches_differ idle3 m1 \<and> fileData w1 = fileData quietWorld" by simp
  from f 2 have a2: "only_caches_differ idle3 m2 \<and> fileData w2 = fileData quietWorld" by simp
  from f 3 have a3: "only_caches_differ idle3 m3 \<and> fileData w3 = fileData quietWorld" by simp
  from f 4 have a4: "only_caches_differ idle3 m4 \<and> fileData w4 = fileData quietWorld" by simp
  from f 5 have a5: "only_caches_differ idle3 m5 \<and> fileData w5 = fileData quietWorld" by simp
  from f 6 have a6: "only_caches_differ idle3 m6 \<and> fileData w6 = fileData quietWorld" by simp
  from f 7 have a7: "only_caches_differ idle3 m7 \<and> fileData w7 = fileData quietWorld" by simp
  from 1 2 3 4 5 6 7 a1 a2 a3 a4 a5 a6 a7 show ?thesis by blast
qed

section \<open>The object invariant holds in every reachable state\<close>

text \<open>
  The constructor, called with a group size that is an \<^verbatim>\<open>int\<close>, establishes the invariant
  and every public method that returns keeps it, so every state a monitor can reach
  satisfies it.
\<close>

theorem monitor_inv_established_and_kept:
  "(0 < n \<and> n \<le> INT_MAX \<longrightarrow> (\<exists>m0. init n = Inr m0 \<and> monitor_inv m0 \<and> \<not> recordSet m0)) \<and>
   (monitor_inv m \<longrightarrow>
      (\<forall>m'. clear m = Inr m' \<longrightarrow> monitor_inv m') \<and>
      (\<forall>time neurId m'. pushAER time neurId m = Inr m' \<longrightarrow> monitor_inv m') \<and>
      (\<forall>now buffered m'. startRecording now buffered m = Inr m' \<longrightarrow> monitor_inv m') \<and>
      (\<forall>now buffered m'. stopRecording now buffered m = Inr m' \<longrightarrow> monitor_inv m') \<and>
      (\<forall>f w m' w'. setSpikeFileId f m w = Inr (m', w') \<longrightarrow> monitor_inv m') \<and>
      (\<forall>w x m' w'. getAllFiringRates m w = Inr (x, m', w') \<longrightarrow> monitor_inv m') \<and>
      (\<forall>w x m' w'. getAllFiringRatesSorted m w = Inr (x, m', w') \<longrightarrow> monitor_inv m') \<and>
      (\<forall>w x m' w'. getMaxFiringRate m w = Inr (x, m', w') \<longrightarrow> monitor_inv m') \<and>
      (\<forall>w x m' w'. getMinFiringRate m w = Inr (x, m', w') \<longrightarrow> monitor_inv m') \<and>
      (\<forall>w x m' w'. getPopStdFiringRate m w = Inr (x, m', w') \<longrightarrow> monitor_inv m') \<and>
      (\<forall>mn mx w x m' w'. getNumNeuronsWithFiringRate mn mx m w = Inr (x, m', w') \<longrightarrow>
          monitor_inv m'))"
proof (intro conjI impI allI)
  assume "0 < n \<and> n \<le> INT_MAX"
  then show "\<exists>m0. init n = Inr m0 \<and> monitor_inv m0 \<and> \<not> recordSet m0"
    using init_inv[of n] by blast
next
  fix m' assume inv: "monitor_inv m" and c: "clear m = Inr m'"
  have "\<not> recordSet m" using c by (auto simp: clear_def isRecording_def split: if_splits)
  from clear_inv[OF inv this] c show "monitor_inv m'" by auto
next
  fix time neurId m' assume "monitor_inv m" "pushAER time neurId m = Inr m'"
  then show "monitor_inv m'" by (rule pushAER_inv)
next
  fix now buffered m' assume inv: "monitor_inv m" and s: "startRecording now buffered m = Inr m'"
  have "\<not> recordSet m" using s by (auto simp: startRecording_def isRecording_def split: if_splits)
  from startRecording_inv[OF inv this, of now buffered] s show "monitor_inv m'" by auto
next
  fix now buffered m' assume "monitor_inv m" "stopRecording now buffered m = Inr m'"
  then show "monitor_inv m'" using stopRecording_inv by blast
next
  fix f w m' w' assume "monitor_inv m" "setSpikeFileId f m w = Inr (m', w')"
  then show "monitor_inv m'" by (rule setSpikeFileId_inv)
next
  fix w x m' w' assume inv: "monitor_inv m" and q: "getAllFiringRates m w = Inr (x, m', w')"
  have "\<not> recordSet m \<and> calculateFiringRates m w = Inr (m', w')"
    using q by (auto simp: getAllFiringRates_def isRecording_def split: if_splits sum.splits)
  then show "monitor_inv m'" using query_returns_settled[OF inv] by blast
next
  fix w x m' w' assume inv: "monitor_inv m" and q: "getAllFiringRatesSorted m w = Inr (x, m', w')"
  have "\<not> recordSet m \<and> sortFiringRates m w = Inr (m', w')"
    using q by (auto simp: getAllFiringRatesSorted_def isRecording_def split: if_splits sum.splits)
  then show "monitor_inv m'" using query_returns_settled[OF inv] by blast
next
  fix w x m' w' assume inv: "monitor_inv m" and q: "getMaxFiringRate m w = Inr (x, m', w')"
  have "\<not> recordSet m \<and> sortFiringRates m w = Inr (m', w')"
    using q by (auto simp: getMaxFiringRate_def getAllFiringRatesSorted_def isRecording_def
        split: if_splits sum.splits)
  then show "monitor_inv m'" using query_returns_settled[OF inv] by blast
next
  fix w x m' w' assume inv: "monitor_inv m" and q: "getMinFiringRate m w = Inr (x, m', w')"
  have "\<not> recordSet m \<and> sortFiringRates m w = Inr (m', w')"
    using q by (auto simp: getMinFiringRate_def getAllFiringRatesSorted_def isRecording_def
        split: if_splits sum.splits)
  then show "monitor_inv m'" using query_returns_settled[OF inv] by blast
next
  fix w x m' w' assume inv: "monitor_inv m" and q: "getPopStdFiringRate m w = Inr (x, m', w')"
  have "\<not> recordSet m \<and> (m' = m \<or> calculateFiringRates m w = Inr (m', w'))"
    using q by (auto simp: getPopStdFiringRate_def getAllFiringRates_def isRecording_def
        split: if_splits sum.splits)
  then show "monitor_inv m'" using query_returns_settled[OF inv] inv by blast
next
  fix mn mx w x m' w'
  assume inv: "monitor_inv m" and q: "getNumNeuronsWithFiringRate mn mx m w = Inr (x, m', w')"
  have "\<not> recordSet m \<and> sortFiringRates m w = Inr (m', w')"
    using q by (auto simp: getNumNeuronsWithFiringRate_def isRecording_def
        split: if_splits sum.splits)
  then show "monitor_inv m'" using query_returns_settled[OF inv] by blast
qed

theorem monitor_inv_established_and_kept_witness:
  "(\<exists>m0. init 2 = Inr m0 \<and> monitor_inv m0 \<and> \<not> recordSet m0) \<and>
   monitor_inv idle3 \<and>
   (\<exists>m'. clear idle3 = Inr m' \<and> monitor_inv m') \<and>
   (\<exists>m'. startRecording 2000 [] idle3 = Inr m' \<and> monitor_inv m') \<and>
   (\<exists>x m' w'. getAllFiringRatesSorted idle3 quietWorld = Inr (x, m', w') \<and> monitor_inv m') \<and>
   (\<exists>x m' w'. getPopStdFiringRate idle3 quietWorld = Inr (x, m', w') \<and> monitor_inv m') \<and>
   (\<exists>m' w'. setSpikeFileId (Some 1) idle3 quietWorld = Inr (m', w') \<and> monitor_inv m') \<and>
   monitor_inv recording2 \<and>
   (\<exists>m'. pushAER 7 1 recording2 = Inr m' \<and> monitor_inv m') \<and>
   (\<exists>m'. stopRecording 500 [(7, 1)] recording2 = Inr m' \<and> monitor_inv m')"
proof -
  have h1: "monitor_inv idle3" by (rule monitor_inv_idle3)
  have h2: "\<not> recordSet idle3" by (simp add: idle3_def)
  have h3: "0 \<le> totalTime idle3" by (simp add: idle3_def)
  have r1: "monitor_inv recording2"
    by (simp add: monitor_inv_def recording2_def fresh2_def INT_MAX_def)
  note k = monitor_inv_established_and_kept[of 2 idle3]
  note k3 = k[THEN conjunct2, THEN mp, OF h1]
  note k2 = monitor_inv_established_and_kept[of 2 recording2, THEN conjunct2, THEN mp, OF r1]
  have a: "\<exists>m0. init 2 = Inr m0 \<and> monitor_inv m0 \<and> \<not> recordSet m0"
    using k[THEN conjunct1] by (simp add: INT_MAX_def)
  obtain c where c: "clear idle3 = Inr c" using clear_inv[OF h1 h2] by blast
  have c': "monitor_inv c" using k3[THEN conjunct1, rule_format, OF c] .
  obtain s where s: "startRecording 2000 [] idle3 = Inr s"
    using startRecording_inv[OF h1 h2, of 2000 "[]"] by blast
  have s': "monitor_inv s"
    using k3[THEN conjunct2, THEN conjunct2, THEN conjunct1, rule_format, OF s] .
  obtain x1 m1 w1 where q1: "getAllFiringRatesSorted idle3 quietWorld = Inr (x1, m1, w1)"
    using getAllFiringRatesSorted_ok[OF h1 h2 h3, of quietWorld] by blast
  have q1': "monitor_inv m1"
    using k3[THEN conjunct2, THEN conjunct2, THEN conjunct2, THEN conjunct2, THEN conjunct2,
        THEN conjunct2, THEN conjunct1, rule_format, OF q1] .
  have "LONG_MIN \<le> totalTime idle3 * nNeurons idle3" "totalTime idle3 * nNeurons idle3 \<le> LONG_MAX"
    by (simp_all add: idle3_def LONG_MIN_def LONG_MAX_def)
  from getPopMeanFiringRate_returns[OF h1 h2 this] obtain mu where
    mu: "getPopMeanFiringRate idle3 = Inr mu"
    by blast
  obtain x2 m2 w2 where q2: "getPopStdFiringRate idle3 quietWorld = Inr (x2, m2, w2)"
    using getPopStdFiringRate_ok[OF h1 h2 h3 mu, of quietWorld] by blast
  have q2': "monitor_inv m2"
    using k3[THEN conjunct2, THEN conjunct2, THEN conjunct2, THEN conjunct2, THEN conjunct2,
        THEN conjunct2, THEN conjunct2, THEN conjunct2, THEN conjunct2, THEN conjunct1,
        rule_format, OF q2] .
  have "\<not> writeFails quietWorld 1" by (simp add: quietWorld_def)
  then obtain m3 w3 where f: "setSpikeFileId (Some 1) idle3 quietWorld = Inr (m3, w3)"
    using setSpikeFileId_binds[OF h2, of quietWorld 1] by blast
  have f': "monitor_inv m3"
    using k3[THEN conjunct2, THEN conjunct2, THEN conjunct2, THEN conjunct2, THEN conjunct1,
        rule_format, OF f] .
  have "\<exists>p. pushAER 7 1 recording2 = Inr p"
    by (simp add: pushAER_def isRecording_def getMode_def recording2_def fresh2_def)
  then obtain p where p: "pushAER 7 1 recording2 = Inr p" by blast
  have p': "monitor_inv p" using k2[THEN conjunct2, THEN conjunct1, rule_format, OF p] .
  have "\<exists>e. stopRecording 500 [(7, 1)] recording2 = Inr e"
    by (simp add: stopRecording_def updateSpikeMonitor_def pushAER_def isRecording_def
        getMode_def recording2_def fresh2_def Let_def)
  then obtain e where e: "stopRecording 500 [(7, 1)] recording2 = Inr e" by blast
  have e': "monitor_inv e"
    using k2[THEN conjunct2, THEN conjunct2, THEN conjunct2, THEN conjunct1, rule_format, OF e] .
  have A1: "\<exists>m'. clear idle3 = Inr m' \<and> monitor_inv m'" using c c' by blast
  have A2: "\<exists>m'. startRecording 2000 [] idle3 = Inr m' \<and> monitor_inv m'" using s s' by blast
  have A3: "\<exists>x m' w'. getAllFiringRatesSorted idle3 quietWorld = Inr (x, m', w') \<and> monitor_inv m'"
    using q1 q1' by blast
  have A4: "\<exists>x m' w'. getPopStdFiringRate idle3 quietWorld = Inr (x, m', w') \<and> monitor_inv m'"
    using q2 q2' by blast
  have A5: "\<exists>m' w'. setSpikeFileId (Some 1) idle3 quietWorld = Inr (m', w') \<and> monitor_inv m'"
    using f f' by blast
  have A6: "\<exists>m'. pushAER 7 1 recording2 = Inr m' \<and> monitor_inv m'" using p p' by blast
  have A7: "\<exists>m'. stopRecording 500 [(7, 1)] recording2 = Inr m' \<and> monitor_inv m'"
    using e e' by blast
  from a h1 A1 A2 A3 A4 A5 r1 A6 A7 show ?thesis by (intro conjI)
qed

section \<open>Snapshot windows\<close>

text \<open>
  The snapshot scenario of the spec: without persistent mode the second \<open>startRecording\<close>
  clears the monitor, so after the second window the statistics are those of its three
  events over 500 ms alone. The group size is an \<^verbatim>\<open>int\<close>.
\<close>

theorem snapshot_windows_keep_last_only:
  assumes "0 < n" "0 \<le> t0" "0 \<le> t1" "length ev1 = 2" "length ev2 = 3"
    and "\<forall>e\<in>set (ev1 @ ev2). 0 \<le> snd e \<and> snd e < n"
    and "n \<le> INT_MAX"
  shows "\<exists>m. twoSnapshotWindows n t0 ev1 t1 ev2 = Inr m \<and> \<not> recordSet m \<and>
           totalTime m = 500 \<and> getPopNumSpikes m = Inr 3 \<and>
           getPopMeanFiringRate m =
             Inr (toFloat (toDouble (toDouble (toDouble 3 * 1000) / toDouble (of_int (500 * n)))))"
proof -
  from twoSnapshotWindows_ok[OF assms(1-6)] obtain m where
    m: "twoSnapshotWindows n t0 ev1 t1 ev2 = Inr m" "\<not> recordSet m" "totalTime m = 500"
      "nNeurons m = n" "getPopNumSpikes m = Inr 3"
    by blast
  have l: "lmul 500 n = Inr (500 * n)"
    using assms(1,7) by (simp add: lmul_def INT_MAX_def LONG_MIN_def LONG_MAX_def)
  have "500 * n \<noteq> 0" using assms(1) by simp
  then have d: "toDouble (of_int (500 * n)) \<noteq> 0" by (rule toDouble_int_nonzero)
  have "ddiv (toDouble (toDouble 3 * 1000)) (toDouble (of_int (500 * n))) =
          Inr (toDouble (toDouble (toDouble 3 * 1000) / toDouble (of_int (500 * n))))"
    using d by (simp only: ddiv_def if_False)
  then have "getPopMeanFiringRate m =
      Inr (toFloat (toDouble (toDouble (toDouble 3 * 1000) / toDouble (of_int (500 * n)))))"
    using m l
    by (simp add: getPopMeanFiringRate_def isRecording_def getRecordingTotalTime_def)
  with m show ?thesis by blast
qed

theorem snapshot_windows_keep_last_only_witness:
  "\<exists>m. twoSnapshotWindows 2 0 [(100, 0), (200, 1)] 500 [(600, 0), (700, 0), (800, 1)] = Inr m \<and>
      \<not> recordSet m \<and> totalTime m = 500 \<and> getPopNumSpikes m = Inr 3 \<and>
      getPopMeanFiringRate m = Inr 3"
proof -
  have g: "\<forall>e\<in>set ([(100::int, 0::int), (200, 1)] @ [(600, 0), (700, 0), (800, 1)]).
          0 \<le> snd e \<and> snd e < 2"
    by simp
  have v: "toFloat (toDouble (toDouble (toDouble 3 * 1000) / toDouble 1000)) = 3"
    by (simp add: fp_eval)
  have "\<exists>m. twoSnapshotWindows 2 0 [(100, 0), (200, 1)] 500 [(600, 0), (700, 0), (800, 1)] =
          Inr m \<and> \<not> recordSet m \<and> totalTime m = 500 \<and> getPopNumSpikes m = Inr 3 \<and>
        getPopMeanFiringRate m =
          Inr (toFloat (toDouble (toDouble (toDouble 3 * 1000) / toDouble 1000)))"
    using snapshot_windows_keep_last_only[of 2 0 500 "[(100, 0), (200, 1)]"
      "[(600, 0), (700, 0), (800, 1)]", OF _ _ _ _ _ g]
    by (simp add: INT_MAX_def)
  then show ?thesis by (simp only: v)
qed

section \<open>One neuron, three spikes\<close>

text \<open>
  The single-neuron scenario of the spec: three spikes in 1000 ms are a spike count of \<open>3\<close>
  and a mean rate of \<open>3\<close> Hz.
\<close>

theorem one_neuron_three_spikes:
  "\<exists>m. oneNeuronWindow = Inr m \<and> \<not> recordSet m \<and> totalTime m = 1000 \<and>
      spkVector m = [[10, 20, 30]] \<and>
      getNeuronNumSpikes 0 m = Inr 3 \<and> getNeuronMeanFiringRate 0 m = Inr 3"
proof -
  define m where "m = \<lparr>nNeurons = 1, spikeFileId = None, recordSet = False, mode = AER,
      persistentData = False, needToWriteFileHeader = True,
      spikeFileSignature = 206661989, spikeFileVersion = 1,
      spkVector = [[10, 20, 30]],
      startTime = 0, startTimeLast = 0, stopTime = 1000, accumTime = 0, totalTime = 1000,
      needToCalculateFiringRates = True, needToSortFiringRates = True,
      firingRates = [0::real], firingRatesSorted = [0::real]\<rparr>"
  have r: "oneNeuronWindow = Inr m"
    by (simp add: m_def oneNeuronWindow_def andThen_def init_def clear_def isRecording_def
        getMode_def startRecording_def updateSpikeMonitor_def Let_def pushAER_def
        stopRecording_def)
  have f: "\<not> recordSet m" "totalTime m = 1000" "spkVector m = [[10, 20, 30]]"
    and n1: "nNeurons m = 1"
    by (simp_all add: m_def)
  have c: "getNeuronNumSpikes 0 m = Inr 3"
    by (simp add: m_def getNeuronNumSpikes_def isRecording_def getMode_def)
  have v: "toFloat (toDouble (toDouble (toDouble 3 * 1000) / toDouble 1000)) = 3"
    by (simp add: fp_eval)
  have "getNeuronMeanFiringRate 0 m =
          Inr (toFloat (toDouble (toDouble (toDouble 3 * 1000) / toDouble 1000)))"
    using c f toDouble_int_nonzero[of 1000] n1
    by (simp add: getNeuronMeanFiringRate_def isRecording_def getRecordingTotalTime_def ddiv_def)
  then have d: "getNeuronMeanFiringRate 0 m = Inr 3" by (simp only: v)
  from r f c d show ?thesis by blast
qed

section \<open>Calls in the wrong state\<close>

text \<open>
  Calls in the wrong state are rejected by a failed assertion: \<open>pushAER\<close> and
  \<open>stopRecording\<close> on an idle monitor, and \<open>clear\<close>, \<open>startRecording\<close>, \<open>setSpikeFileId\<close>
  and every query on a recording one.
\<close>

theorem wrong_state_is_rejected:
  "(\<not> recordSet m \<longrightarrow>
      pushAER time neurId m = Inl AssertionFailed \<and>
      stopRecording now buffered m = Inl AssertionFailed) \<and>
   (recordSet m \<longrightarrow>
      clear m = Inl AssertionFailed \<and>
      startRecording now buffered m = Inl AssertionFailed \<and>
      setSpikeFileId f m w = Inl AssertionFailed \<and>
      getPopMeanFiringRate m = Inl AssertionFailed \<and>
      getPopStdFiringRate m w = Inl AssertionFailed \<and>
      getPopNumSpikes m = Inl AssertionFailed \<and>
      getAllFiringRates m w = Inl AssertionFailed \<and>
      getAllFiringRatesSorted m w = Inl AssertionFailed \<and>
      getMaxFiringRate m w = Inl AssertionFailed \<and>
      getMinFiringRate m w = Inl AssertionFailed \<and>
      getNeuronMeanFiringRate neurId m = Inl AssertionFailed \<and>
      getNeuronNumSpikes neurId m = Inl AssertionFailed \<and>
      getNumNeuronsWithFiringRate mn mx m w = Inl AssertionFailed \<and>
      getNumSilentNeurons m w = Inl AssertionFailed \<and>
      getPercentNeuronsWithFiringRate mn mx m w = Inl AssertionFailed \<and>
      getPercentSilentNeurons m w = Inl AssertionFailed \<and>
      getSpikeVector2D m = Inl AssertionFailed)"
  by (simp add: pushAER_def stopRecording_def clear_def startRecording_def setSpikeFileId_def
      getPopMeanFiringRate_def getPopStdFiringRate_def getPopNumSpikes_def
      getAllFiringRates_def getAllFiringRatesSorted_def getMaxFiringRate_def
      getMinFiringRate_def getNeuronMeanFiringRate_def getNeuronNumSpikes_def
      getNumNeuronsWithFiringRate_def getNumSilentNeurons_def
      getPercentNeuronsWithFiringRate_def getPercentSilentNeurons_def getSpikeVector2D_def
      isRecording_def)

theorem wrong_state_is_rejected_witness:
  "\<not> recordSet fresh2 \<and> pushAER 7 1 fresh2 = Inl AssertionFailed \<and>
   stopRecording 500 [] fresh2 = Inl AssertionFailed \<and>
   recordSet recording2 \<and> clear recording2 = Inl AssertionFailed \<and>
   getPopMeanFiringRate recording2 = Inl AssertionFailed \<and>
   getAllFiringRates recording2 quietWorld = Inl AssertionFailed \<and>
   getNumSilentNeurons recording2 quietWorld = Inl AssertionFailed"
proof -
  have i: "\<not> recordSet fresh2" by (simp add: fresh2_def)
  have r: "recordSet recording2" by (simp add: recording2_def)
  from wrong_state_is_rejected[of fresh2 7 1 500 "[]"] i
  have a: "pushAER 7 1 fresh2 = Inl AssertionFailed"
    "stopRecording 500 [] fresh2 = Inl AssertionFailed"
    by simp_all
  from wrong_state_is_rejected[of recording2 0 0 0 "[]" None quietWorld 0 0] r
  have b: "clear recording2 = Inl AssertionFailed"
    "getPopMeanFiringRate recording2 = Inl AssertionFailed"
    "getAllFiringRates recording2 quietWorld = Inl AssertionFailed"
    "getNumSilentNeurons recording2 quietWorld = Inl AssertionFailed"
    by simp_all
  from i r a b show ?thesis by (intro conjI)
qed

end
